theory Spec2Isabelle
  imports Main "HOL-Library.Sublist"
begin

section \<open>Strings and POSIX paths\<close>

text \<open>
  The plugin manipulates paths as JavaScript strings through \<^verbatim>\<open>node:path\<close> (POSIX
  flavour) and through two helpers of the devkit (\<^verbatim>\<open>normalizePath\<close>,
  \<^verbatim>\<open>joinPathFragments\<close>).  Paths are modelled as \<^typ>\<open>string\<close>; the library
  functions are defined on all strings, following the algorithms of Node.
\<close>

definition startsWith :: "string \<Rightarrow> string \<Rightarrow> bool" where
  "startsWith s p = prefix p s"

definition endsWith :: "string \<Rightarrow> string \<Rightarrow> bool" where
  "endsWith s p = suffix p s"

text \<open>\<^verbatim>\<open>s.split(c)\<close> for a one-character separator.\<close>

fun splitOn :: "char \<Rightarrow> string \<Rightarrow> string list" where
  "splitOn c [] = [[]]"
| "splitOn c (x # xs) =
     (if x = c then [] # splitOn c xs
      else (case splitOn c xs of [] \<Rightarrow> [[x]] | y # ys \<Rightarrow> (x # y) # ys))"

text \<open>\<^verbatim>\<open>parts.join('/')\<close>.\<close>

fun joinSep :: "string list \<Rightarrow> string" where
  "joinSep [] = []"
| "joinSep [x] = x"
| "joinSep (x # y # zs) = x @ CHR ''/'' # joinSep (y # zs)"

text \<open>
  Node's \<^verbatim>\<open>normalizeString(path, allowAboveRoot)\<close>: empty and \<^verbatim>\<open>.\<close> segments are dropped,
  a \<^verbatim>\<open>..\<close> segment removes the segment before it, and is kept only where nothing can be
  removed and \<^verbatim>\<open>allowAboveRoot\<close> holds.
\<close>

definition segStep :: "bool \<Rightarrow> string list \<Rightarrow> string \<Rightarrow> string list" where
  "segStep allowAboveRoot res s =
     (if s = [] \<or> s = ''.'' then res
      else if s = ''..'' then
        (if res \<noteq> [] \<and> last res \<noteq> ''..'' then butlast res
         else if allowAboveRoot then res @ [''..''] else res)
      else res @ [s])"

definition normalizeString :: "string \<Rightarrow> bool \<Rightarrow> string" where
  "normalizeString p allowAboveRoot =
     joinSep (foldl (segStep allowAboveRoot) [] (splitOn CHR ''/'' p))"

definition isAbsolute :: "string \<Rightarrow> bool" where
  "isAbsolute p = (case p of [] \<Rightarrow> False | c # _ \<Rightarrow> c = CHR ''/'')"

definition path_normalize :: "string \<Rightarrow> string" where
  "path_normalize p =
     (if p = [] then ''.''
      else
        (let trailingSeparator = (last p = CHR ''/'');
             q = normalizeString p (\<not> isAbsolute p)
         in if q = [] then
              (if isAbsolute p then ''/'' else if trailingSeparator then ''./'' else ''.'')
            else (if isAbsolute p then ''/'' else []) @ q
                 @ (if trailingSeparator then ''/'' else [])))"

definition path_join :: "string list \<Rightarrow> string" where
  "path_join args =
     (let parts = filter (\<lambda>a. a \<noteq> []) args
      in if parts = [] then ''.'' else path_normalize (joinSep parts))"

text \<open>
  \<^verbatim>\<open>resolve(...args)\<close> reads its arguments from the right until the path built so far is
  absolute; the working directory of the process stands behind the first argument.
\<close>

fun resolveLoop :: "string list \<Rightarrow> string \<Rightarrow> string \<times> bool" where
  "resolveLoop [] acc = (acc, False)"
| "resolveLoop (p # ps) acc =
     (if p = [] then resolveLoop ps acc
      else if isAbsolute p then (p @ CHR ''/'' # acc, True)
      else resolveLoop ps (p @ CHR ''/'' # acc))"

definition path_resolve :: "string \<Rightarrow> string list \<Rightarrow> string" where
  "path_resolve cwd args =
     (case resolveLoop (rev args @ [cwd]) [] of
        (resolvedPath, resolvedAbsolute) \<Rightarrow>
          (let q = normalizeString resolvedPath (\<not> resolvedAbsolute)
           in if resolvedAbsolute then CHR ''/'' # q
              else if q \<noteq> [] then q else ''.''))"

definition segments :: "string \<Rightarrow> string list" where
  "segments p = filter (\<lambda>s. s \<noteq> []) (splitOn CHR ''/'' p)"

text \<open>
  \<^verbatim>\<open>relative(from, to)\<close>: both paths are resolved, their common leading segments are
  dropped, and every remaining segment of \<^verbatim>\<open>from\<close> becomes one \<^verbatim>\<open>..\<close>.
\<close>

definition path_relative :: "string \<Rightarrow> string \<Rightarrow> string \<Rightarrow> string" where
  "path_relative cwd from to =
     (if from = to then []
      else
        (let f = segments (path_resolve cwd [from]);
             t = segments (path_resolve cwd [to]);
             k = length (longest_common_prefix f t)
         in joinSep (replicate (length f - k) ''..'' @ drop k t)))"

text \<open>
  \<^verbatim>\<open>dirname(path)\<close> works on the characters: trailing separators and the last name are
  cut off, together with the one separator before that name.
\<close>

definition path_dirname :: "string \<Rightarrow> string" where
  "path_dirname p =
     (if p = [] then ''.''
      else
        (let r = dropWhile (\<lambda>c. c \<noteq> CHR ''/'')
                   (dropWhile (\<lambda>c. c = CHR ''/'') (rev p))
         in if length r \<le> 1 then (if isAbsolute p then ''/'' else ''.'')
            else if isAbsolute p \<and> length r = 2 then ''//''
            else take (length r - 1) p))"

definition path_basename :: "string \<Rightarrow> string" where
  "path_basename p =
     rev (takeWhile (\<lambda>c. c \<noteq> CHR ''/'') (dropWhile (\<lambda>c. c = CHR ''/'') (rev p)))"

text \<open>
  \<^verbatim>\<open>basename(path, suffix)\<close>: the suffix is removed from the last name unless it is the
  whole name.
\<close>

definition path_basename_ext :: "string \<Rightarrow> string \<Rightarrow> string" where
  "path_basename_ext p ext =
     (if ext = [] \<or> length p < length ext then path_basename p
      else if ext = p then []
      else
        (let name = path_basename p
         in if suffix ext name \<and> name \<noteq> ext
            then take (length name - length ext) name else name))"

text \<open>
  \<^verbatim>\<open>extname(path)\<close>: from the last dot of the last name; empty when there is no dot, when
  the only dot starts the name, and for the name \<^verbatim>\<open>..\<close>.
\<close>

definition path_extname :: "string \<Rightarrow> string" where
  "path_extname p =
     (let name = path_basename p;
          e = rev (takeWhile (\<lambda>c. c \<noteq> CHR ''.'') (rev name))
      in if CHR ''.'' \<notin> set name \<or> length e + 1 = length name \<or> name = ''..'' then []
         else CHR ''.'' # e)"

text \<open>The devkit's \<^verbatim>\<open>normalizePath\<close> and \<^verbatim>\<open>joinPathFragments\<close>.\<close>

definition removeWindowsDriveLetter :: "string \<Rightarrow> string" where
  "removeWindowsDriveLetter p =
     (case p of
        a # b # rest \<Rightarrow>
          if b = CHR '':'' \<and> (65::nat) \<le> of_char a \<and> of_char a \<le> (90::nat) then rest else p
      | _ \<Rightarrow> p)"

definition normalizePath :: "string \<Rightarrow> string" where
  "normalizePath p =
     map (\<lambda>c. if c = CHR 0x5C then CHR ''/'' else c) (removeWindowsDriveLetter p)"

definition joinPathFragments :: "string list \<Rightarrow> string" where
  "joinPathFragments fragments = normalizePath (path_join fragments)"


section \<open>Values of the host: JSON, results, insertion-ordered sets and objects\<close>

datatype json =
    JNull
  | JBool bool
  | JNum int
  | JStr string
  | JArr "json list"
  | JObj "(string \<times> json) list"

text \<open>
  A property that is absent reads \<^verbatim>\<open>undefined\<close>, modelled as \<^const>\<open>None\<close>.  JavaScript's
  truthiness decides every \<^verbatim>\<open>if (x)\<close> and \<^verbatim>\<open>x ? a : b\<close> of the source.
\<close>

fun truthy :: "json option \<Rightarrow> bool" where
  "truthy None = False"
| "truthy (Some JNull) = False"
| "truthy (Some (JBool b)) = b"
| "truthy (Some (JNum n)) = (n \<noteq> 0)"
| "truthy (Some (JStr s)) = (s \<noteq> [])"
| "truthy (Some (JArr xs)) = True"
| "truthy (Some (JObj kvs)) = True"

text \<open>An optional string is truthy when it is present and not empty.\<close>

definition truthyStr :: "string option \<Rightarrow> bool" where
  "truthyStr s = (case s of None \<Rightarrow> False | Some x \<Rightarrow> x \<noteq> [])"

text \<open>
  What the source throws: \<^verbatim>\<open>statSync\<close>, \<^verbatim>\<open>readdirSync\<close> and \<^verbatim>\<open>readJsonFile\<close> on a path
  that does not exist, \<^verbatim>\<open>JSON.parse\<close> on a file that is not JSON, and the run time on
  a value of the wrong type.
\<close>

datatype error = ENOENT string | JsonError string | TypeError

text \<open>
  A computation returns \<^term>\<open>Some (Inr v)\<close>, throws (\<^term>\<open>Some (Inl e)\<close>), or does not
  return (\<^const>\<open>None\<close>).
\<close>

type_synonym 'a result = "(error + 'a) option"

definition bindR :: "'a result \<Rightarrow> ('a \<Rightarrow> 'b result) \<Rightarrow> 'b result" where
  "bindR m f =
     (case m of None \<Rightarrow> None | Some r \<Rightarrow> (case r of Inl e \<Rightarrow> Some (Inl e) | Inr v \<Rightarrow> f v))"

text \<open>\<^verbatim>\<open>Set.add\<close>, with \<^verbatim>\<open>Array.from(set)\<close> the list itself (insertion order).\<close>

definition set_add :: "'a list \<Rightarrow> 'a \<Rightarrow> 'a list" where
  "set_add xs x = (if x \<in> set xs then xs else xs @ [x])"

definition set_addAll :: "'a list \<Rightarrow> 'a list \<Rightarrow> 'a list" where
  "set_addAll xs ys = foldl set_add xs ys"

text \<open>
  \<^verbatim>\<open>obj[k] = v\<close> on an object with string keys: a key that is present keeps its place,
  a new key goes last (\<^verbatim>\<open>Object.keys\<close>, \<^verbatim>\<open>Object.entries\<close> follow insertion order; the
  keys here are paths and names, never array indices).
\<close>

fun obj_set :: "(string \<times> 'v) list \<Rightarrow> string \<Rightarrow> 'v \<Rightarrow> (string \<times> 'v) list" where
  "obj_set [] k v = [(k, v)]"
| "obj_set ((k', v') # kvs) k v =
     (if k' = k then (k, v) # kvs else (k', v') # obj_set kvs k v)"

section \<open>Configuration records and the world outside the plugin\<close>

text \<open>The fields of TypeScript's \<^verbatim>\<open>ParsedCommandLine\<close> that the plugin reads.\<close>

record compilerOptions =
  outFile :: "string option"
  outDir :: "string option"
  tsBuildInfoFile :: "string option"
  rootDir :: "string option"
  noEmit :: bool

record rawConfig =
  raw_include :: "string list option"
  raw_exclude :: "string list option"
  raw_extends :: "string option"

record parsedCommandLine =
  options :: compilerOptions
  raw :: "rawConfig option"
  fileNames :: "string list"
  projectReferences :: "string list option"

text \<open>\<^verbatim>\<open>NormalizedPluginOptions\<close>; \<^const>\<open>None\<close> is \<^verbatim>\<open>false\<close>.\<close>

record typecheckOptions =
  tc_targetName :: string

record buildOptions =
  targetName :: string
  configName :: string
  buildDepsName :: "string option"
  watchDepsName :: "string option"

record normalizedPluginOptions =
  typecheck :: "typecheckOptions option"
  build :: "buildOptions option"
  verboseOutput :: bool

datatype inputSpec =
    InputString string
  | DependentTasksOutputFiles string
  | ExternalDependencies "string list"

record targetConfiguration =
  dependsOn :: "string list"
  command :: string
  options_cwd :: string
  cache :: bool
  inputs :: "inputSpec list"
  outputs :: "string list"
  syncGenerators :: "string list"
  technologies :: "string list"
  description :: string
  help_command :: string
  help_example_args :: "string list"

type_synonym targets = "(string \<times> targetConfiguration) list"

text \<open>
  Everything the plugin reads from outside itself: the file system, TypeScript's
  parser (\<^verbatim>\<open>readTsConfig\<close>), Node's module resolution, the hashers, \<^verbatim>\<open>minimatch\<close>, the
  named inputs of the workspace, the package manager's \<^verbatim>\<open>exec\<close> command, and the helper
  \<^verbatim>\<open>addBuildAndWatchDepsTargets\<close> of \<^verbatim>\<open>./util\<close>.  They are parameters of the model.
  \<^verbatim>\<open>statIsFile\<close> is \<^verbatim>\<open>statSync(p).isFile()\<close> for a path that exists.
\<close>

record world =
  cwd :: string
  existsSync :: "string \<Rightarrow> bool"
  statIsFile :: "string \<Rightarrow> bool"
  readdirSync :: "string \<Rightarrow> error + string list"
  readTsConfig :: "string \<Rightarrow> parsedCommandLine"
  readJsonFile :: "string \<Rightarrow> error + json"
  requireResolve :: "string \<Rightarrow> string option \<Rightarrow> string option"
  hashFile :: "string \<Rightarrow> string"
  hashArray :: "string list \<Rightarrow> string"
  hashObjectOptions :: "normalizedPluginOptions \<Rightarrow> string"
  hashObjectJson :: "json \<Rightarrow> string"
  minimatch :: "string \<Rightarrow> string \<Rightarrow> bool"
  getNamedInputs :: "string \<Rightarrow> string list"
  pmc_exec :: string
  addBuildAndWatchDepsTargets ::
    "string \<Rightarrow> string \<Rightarrow> targets \<Rightarrow> string option \<Rightarrow> string option \<Rightarrow> targets"


text \<open>
  Sequencing with \<^const>\<open>bindR\<close> is monotone in the recursive calls it contains, which is
  what the definitions of the loops below need.
\<close>

lemma bindR_mono [partial_function_mono]:
  assumes B: "mono_option B" and C: "\<And>y. mono_option (\<lambda>f. C y f)"
  shows "mono_option (\<lambda>f. bindR (B f) (\<lambda>y. C y f))"
proof -
  have eq: "\<And>m g. bindR m g =
      Option.bind m (\<lambda>r. case r of Inl e \<Rightarrow> Some (Inl e) | Inr v \<Rightarrow> g v)"
    by (simp add: bindR_def split: option.splits)
  have "mono_option (\<lambda>f. case r of Inl e \<Rightarrow> Some (Inl e) | Inr v \<Rightarrow> C v f)" for r
    by (cases r) (simp_all add: C option.const_mono)
  then show ?thesis
    unfolding eq by (intro bind_mono B)
qed

section \<open>The configuration loader\<close>

text \<open>
  \<^verbatim>\<open>readCachedTsConfig\<close> first calls \<^verbatim>\<open>statSync\<close> for the modification time, which throws
  for a path that does not exist, and then parses the file unless the parse of that
  path and time is in \<^verbatim>\<open>tsConfigCache\<close>.  Within one derivation the files do not change,
  so the cached value is the value a parse returns; the cache itself is not modelled.
\<close>

definition readCachedTsConfig :: "world \<Rightarrow> string \<Rightarrow> error + parsedCommandLine" where
  "readCachedTsConfig w tsConfigPath =
     (if existsSync w tsConfigPath then Inr (readTsConfig w tsConfigPath)
      else Inl (ENOENT tsConfigPath))"

text \<open>\<^verbatim>\<open>tsConfig.projectReferences\<close>, with \<^verbatim>\<open>undefined\<close> read as no reference.\<close>

definition refsOf :: "parsedCommandLine \<Rightarrow> string list" where
  "refsOf tsConfig = (case projectReferences tsConfig of None \<Rightarrow> [] | Some rs \<Rightarrow> rs)"

text \<open>\<^verbatim>\<open>config.raw?.extends\<close>, \<^verbatim>\<open>config.raw?.include ?? []\<close> and \<^verbatim>\<open>config.raw?.exclude\<close>.\<close>

definition rawExtends :: "parsedCommandLine \<Rightarrow> string option" where
  "rawExtends config = (case raw config of None \<Rightarrow> None | Some r \<Rightarrow> raw_extends r)"

definition rawInclude :: "parsedCommandLine \<Rightarrow> string list" where
  "rawInclude config =
     (case raw config of None \<Rightarrow> []
      | Some r \<Rightarrow> (case raw_include r of None \<Rightarrow> [] | Some ps \<Rightarrow> ps))"

definition rawExclude :: "parsedCommandLine \<Rightarrow> string list option" where
  "rawExclude config = (case raw config of None \<Rightarrow> None | Some r \<Rightarrow> raw_exclude r)"

section \<open>The chain of extended configuration files\<close>

text \<open>
  \<^verbatim>\<open>resolveExtendedTsConfigPath\<close>: \<^const>\<open>None\<close> is \<^verbatim>\<open>null\<close> (the resolution threw); the
  second component is \<^verbatim>\<open>externalPackage\<close>.
\<close>

definition resolveExtendedTsConfigPath ::
  "world \<Rightarrow> string \<Rightarrow> string \<Rightarrow> (string \<times> string option) option" where
  "resolveExtendedTsConfigPath w tsConfigPath directory =
     (case requireResolve w tsConfigPath (if directory = [] then None else Some directory) of
        None \<Rightarrow> None
      | Some resolvedPath \<Rightarrow>
          if startsWith tsConfigPath ''.'' then Some (resolvedPath, None)
          else
            (let packageName =
               (if startsWith tsConfigPath ''@''
                then joinSep (take 2 (splitOn CHR ''/'' tsConfigPath))
                else (case splitOn CHR ''/'' tsConfigPath of [] \<Rightarrow> [] | x # _ \<Rightarrow> x))
             in Some (resolvedPath, Some packageName)))"

text \<open>
  The \<^verbatim>\<open>while\<close> loop of \<^verbatim>\<open>getExtendedConfigFiles\<close>, with its four variables.  The two sets
  are lists in insertion order.
\<close>

partial_function (option) getExtendedConfigFiles_loop ::
  "world \<Rightarrow> string \<Rightarrow> parsedCommandLine \<Rightarrow> string list \<Rightarrow> string list
   \<Rightarrow> (string list \<times> string list) result" where
  "getExtendedConfigFiles_loop w currentConfigPath currentConfig extendedConfigFiles
       extendedExternalPackages =
     (if truthyStr (rawExtends currentConfig) then
        (case resolveExtendedTsConfigPath w
                (case rawExtends currentConfig of None \<Rightarrow> [] | Some e \<Rightarrow> e)
                (path_dirname currentConfigPath) of
           None \<Rightarrow> Some (Inr (extendedConfigFiles, extendedExternalPackages))
         | Some extendedConfigPath \<Rightarrow>
             if truthyStr (snd extendedConfigPath) then
               Some (Inr (extendedConfigFiles,
                 set_add extendedExternalPackages
                   (case snd extendedConfigPath of None \<Rightarrow> [] | Some pk \<Rightarrow> pk)))
             else
               (case readCachedTsConfig w (fst extendedConfigPath) of
                  Inl e \<Rightarrow> Some (Inl e)
                | Inr config \<Rightarrow>
                    getExtendedConfigFiles_loop w (fst extendedConfigPath) config
                      (set_add extendedConfigFiles (fst extendedConfigPath))
                      extendedExternalPackages))
      else Some (Inr (extendedConfigFiles, extendedExternalPackages)))"

declare getExtendedConfigFiles_loop.simps [code]

text \<open>
  The file to which one round of the loop moves from a configuration, if it moves: the
  resolved path of \<^verbatim>\<open>extends\<close> unless it lies in an external package.
\<close>

definition extendsStep :: "world \<Rightarrow> string \<Rightarrow> parsedCommandLine \<Rightarrow> string option" where
  "extendsStep w currentConfigPath currentConfig =
     (if truthyStr (rawExtends currentConfig) then
        (case resolveExtendedTsConfigPath w
                (case rawExtends currentConfig of None \<Rightarrow> [] | Some e \<Rightarrow> e)
                (path_dirname currentConfigPath) of
           None \<Rightarrow> None
         | Some extendedConfigPath \<Rightarrow>
             if truthyStr (snd extendedConfigPath) then None
             else Some (fst extendedConfigPath))
      else None)"

text \<open>The result is the pair \<^verbatim>\<open>(files, packages)\<close>.\<close>

definition getExtendedConfigFiles ::
  "world \<Rightarrow> string \<Rightarrow> parsedCommandLine \<Rightarrow> (string list \<times> string list) result" where
  "getExtendedConfigFiles w tsConfigPath tsConfig =
     getExtendedConfigFiles_loop w tsConfigPath tsConfig [] []"

section \<open>The reference classifier\<close>

definition getTsConfigDirName :: "world \<Rightarrow> string \<Rightarrow> error + string" where
  "getTsConfigDirName w tsConfigPath =
     (if existsSync w tsConfigPath
      then Inr (if statIsFile w tsConfigPath then path_dirname tsConfigPath
                else path_normalize tsConfigPath)
      else Inl (ENOENT tsConfigPath))"

text \<open>The \<^verbatim>\<open>while (currentPath !== absoluteProjectRoot)\<close> loop.\<close>

partial_function (option) isExternalProjectReference_loop ::
  "world \<Rightarrow> string \<Rightarrow> string \<Rightarrow> bool option" where
  "isExternalProjectReference_loop w absoluteProjectRoot currentPath =
     (if currentPath \<noteq> absoluteProjectRoot then
        (if existsSync w (path_join [currentPath, ''package.json''])
            \<or> existsSync w (path_join [currentPath, ''project.json''])
         then Some True
         else isExternalProjectReference_loop w absoluteProjectRoot (path_dirname currentPath))
      else Some False)"

declare isExternalProjectReference_loop.simps [code]

definition isExternalProjectReference ::
  "world \<Rightarrow> string \<Rightarrow> string \<Rightarrow> string \<Rightarrow> bool result" where
  "isExternalProjectReference w refTsConfigPath workspaceRoot projectRoot =
     (let absoluteProjectRoot = path_join [workspaceRoot, projectRoot]
      in case getTsConfigDirName w refTsConfigPath of
           Inl e \<Rightarrow> Some (Inl e)
         | Inr currentPath \<Rightarrow>
             if startsWith (path_relative (cwd w) absoluteProjectRoot currentPath) ''..''
             then Some (Inr True)
             else map_option Inr
                    (isExternalProjectReference_loop w absoluteProjectRoot currentPath))"

section \<open>The graph walker\<close>

text \<open>
  A visitor is a closure over a variable of the caller; here it takes the value of that
  variable and returns the new one.  Its boolean result is \<^verbatim>\<open>result !== false\<close>: whether
  the walk descends into the configuration it was shown.

  \<^verbatim>\<open>walkProjectReferences_loop\<close> is the \<^verbatim>\<open>for\<close> loop over the references of one
  configuration.  The recursive call of the source passes no \<^verbatim>\<open>projectReferences\<close>
  argument, so the callee starts from the default \<^verbatim>\<open>{}\<close>; a call on a configuration
  without references returns at once, as the loop over no reference does.
\<close>

text \<open>
  The configuration file of a reference: \<^verbatim>\<open>tsconfig.json\<close> is appended to a reference
  path that does not end in \<^verbatim>\<open>.json\<close>.  Both walks below compute it in the same way.
\<close>

definition refConfigPathOf :: "string \<Rightarrow> string" where
  "refConfigPathOf ref =
     (if \<not> endsWith ref ''.json'' then path_join [ref, ''tsconfig.json''] else ref)"

type_synonym 's visitor = "string \<Rightarrow> parsedCommandLine \<Rightarrow> 's \<Rightarrow> (bool \<times> 's) result"

partial_function (option) walkProjectReferences_loop ::
  "world \<Rightarrow> 's visitor \<Rightarrow> (string \<rightharpoonup> parsedCommandLine) \<Rightarrow> string list \<Rightarrow> 's \<Rightarrow> 's result"
  where
  "walkProjectReferences_loop w visitor projectRefs refs st =
     (case refs of
        [] \<Rightarrow> Some (Inr st)
      | ref # rest \<Rightarrow>
          if projectRefs ref \<noteq> None then
            walkProjectReferences_loop w visitor projectRefs rest st
          else if \<not> existsSync w ref then
            walkProjectReferences_loop w visitor projectRefs rest st
          else
            (let refConfigPath = refConfigPathOf ref
             in case readCachedTsConfig w refConfigPath of
                  Inl e \<Rightarrow> Some (Inl e)
                | Inr refTsConfig \<Rightarrow>
                    bindR (visitor refConfigPath refTsConfig st) (\<lambda>res.
                      if fst res then
                        bindR (walkProjectReferences_loop w visitor Map.empty
                                 (refsOf refTsConfig) (snd res))
                          (\<lambda>st'. walkProjectReferences_loop w visitor projectRefs rest st')
                      else walkProjectReferences_loop w visitor projectRefs rest (snd res))))"

declare walkProjectReferences_loop.simps [code]

definition walkProjectReferences ::
  "world \<Rightarrow> parsedCommandLine \<Rightarrow> 's visitor \<Rightarrow> (string \<rightharpoonup> parsedCommandLine) \<Rightarrow> 's
   \<Rightarrow> 's result" where
  "walkProjectReferences w tsConfig visitor projectRefs st =
     (if refsOf tsConfig = [] then Some (Inr st)
      else walkProjectReferences_loop w visitor projectRefs (refsOf tsConfig) st)"

text \<open>
  The two visitors.  Their state is the object \<^verbatim>\<open>projectReferences\<close> of the function that
  starts the walk, which is also what that function returns.
\<close>

definition internalVisitor ::
  "world \<Rightarrow> string \<Rightarrow> string \<Rightarrow> (string \<times> parsedCommandLine) list visitor" where
  "internalVisitor w workspaceRoot projectRoot configPath config projectRefs =
     bindR (isExternalProjectReference w configPath workspaceRoot projectRoot) (\<lambda>ext.
       if ext then Some (Inr (False, projectRefs))
       else Some (Inr (True, obj_set projectRefs configPath config)))"

definition shallowExternalVisitor ::
  "world \<Rightarrow> string \<Rightarrow> string \<Rightarrow> (string \<times> parsedCommandLine) list visitor" where
  "shallowExternalVisitor w workspaceRoot projectRoot configPath config projectRefs =
     bindR (isExternalProjectReference w configPath workspaceRoot projectRoot) (\<lambda>ext.
       Some (Inr (False, if ext then obj_set projectRefs configPath config else projectRefs)))"

definition resolveInternalProjectReferences ::
  "world \<Rightarrow> parsedCommandLine \<Rightarrow> string \<Rightarrow> string
   \<Rightarrow> (string \<times> parsedCommandLine) list result" where
  "resolveInternalProjectReferences w tsConfig workspaceRoot projectRoot =
     walkProjectReferences w tsConfig (internalVisitor w workspaceRoot projectRoot)
       Map.empty []"

definition resolveShallowExternalProjectReferences ::
  "world \<Rightarrow> parsedCommandLine \<Rightarrow> string \<Rightarrow> string
   \<Rightarrow> (string \<times> parsedCommandLine) list result" where
  "resolveShallowExternalProjectReferences w tsConfig workspaceRoot projectRoot =
     walkProjectReferences w tsConfig (shallowExternalVisitor w workspaceRoot projectRoot)
       Map.empty []"

text \<open>
  \<^verbatim>\<open>hasExternalProjectReferences\<close> with its set \<^verbatim>\<open>seen\<close>, which every call shares: the
  loop takes the set and returns it with the answer.
\<close>

partial_function (option) hasExternalProjectReferences_loop ::
  "world \<Rightarrow> string \<Rightarrow> string \<Rightarrow> string list \<Rightarrow> string list \<Rightarrow> (bool \<times> string list) result"
  where
  "hasExternalProjectReferences_loop w workspaceRoot projectRoot refs seen =
     (case refs of
        [] \<Rightarrow> Some (Inr (False, seen))
      | ref # rest \<Rightarrow>
          if ref \<in> set seen then
            hasExternalProjectReferences_loop w workspaceRoot projectRoot rest seen
          else if \<not> existsSync w ref then
            hasExternalProjectReferences_loop w workspaceRoot projectRoot rest seen
          else
            bindR (isExternalProjectReference w ref workspaceRoot projectRoot) (\<lambda>ext.
              if ext then Some (Inr (True, seen))
              else
                (let refConfigPath = refConfigPathOf ref
                 in case readCachedTsConfig w refConfigPath of
                      Inl e \<Rightarrow> Some (Inl e)
                    | Inr refTsConfig \<Rightarrow>
                        bindR
                          (if refsOf refTsConfig = [] then Some (Inr (False, seen))
                           else hasExternalProjectReferences_loop w workspaceRoot projectRoot
                                  (refsOf refTsConfig) (set_add seen refConfigPath))
                          (\<lambda>res.
                             if fst res then Some (Inr (True, snd res))
                             else hasExternalProjectReferences_loop w workspaceRoot projectRoot
                                    rest (snd res)))))"

declare hasExternalProjectReferences_loop.simps [code]

definition hasExternalProjectReferences ::
  "world \<Rightarrow> string \<Rightarrow> parsedCommandLine \<Rightarrow> string \<Rightarrow> string \<Rightarrow> string list
   \<Rightarrow> (bool \<times> string list) result" where
  "hasExternalProjectReferences w tsConfigPath tsConfig workspaceRoot projectRoot seen =
     (if refsOf tsConfig = [] then Some (Inr (False, seen))
      else hasExternalProjectReferences_loop w workspaceRoot projectRoot (refsOf tsConfig)
             (set_add seen tsConfigPath))"


section \<open>Inputs and outputs of a task\<close>

definition pathToInputOrOutput :: "world \<Rightarrow> string \<Rightarrow> string \<Rightarrow> string \<Rightarrow> string" where
  "pathToInputOrOutput w path workspaceRoot projectRoot =
     (let fullProjectRoot = path_resolve (cwd w) [workspaceRoot, projectRoot];
          fullPath = path_resolve (cwd w) [workspaceRoot, path];
          pathRelativeToProjectRoot =
            normalizePath (path_relative (cwd w) fullProjectRoot fullPath)
      in if startsWith pathRelativeToProjectRoot ''..''
         then joinPathFragments
                [''{workspaceRoot}'', path_relative (cwd w) workspaceRoot fullPath]
         else joinPathFragments [''{projectRoot}'', pathRelativeToProjectRoot])"

text \<open>The local \<^verbatim>\<open>normalize\<close> of \<^verbatim>\<open>getInputs\<close>, which removes a leading \<^verbatim>\<open>./\<close>.\<close>

definition stripDotSlash :: "string \<Rightarrow> string" where
  "stripDotSlash p = (if startsWith p ''./'' then drop 2 p else p)"

text \<open>The include patterns of the configurations with another path.\<close>

definition otherFilesInclude ::
  "(string \<times> parsedCommandLine) list \<Rightarrow> string \<Rightarrow> string list" where
  "otherFilesInclude projectTsConfigFiles configPath =
     concat (map (\<lambda>pc. if fst pc \<noteq> configPath then rawInclude (snd pc) else [])
       projectTsConfigFiles)"

text \<open>The test under which an exclude pattern is added to \<^verbatim>\<open>excludePaths\<close>.\<close>

definition excludeKept :: "world \<Rightarrow> string list \<Rightarrow> string \<Rightarrow> bool" where
  "excludeKept w others excludePath =
     (\<not> list_ex (\<lambda>includePath.
           minimatch w (stripDotSlash includePath) (stripDotSlash excludePath)
           \<or> minimatch w (stripDotSlash excludePath) (stripDotSlash includePath)) others)"

text \<open>
  One round of \<^verbatim>\<open>projectTsConfigFiles.forEach\<close>, on the three sets \<^verbatim>\<open>configFiles\<close>,
  \<^verbatim>\<open>includePaths\<close> and \<^verbatim>\<open>excludePaths\<close>.
\<close>

definition inputsStep ::
  "world \<Rightarrow> string \<Rightarrow> (string \<times> parsedCommandLine) list
   \<Rightarrow> string list \<times> string list \<times> string list \<Rightarrow> string \<times> parsedCommandLine
   \<Rightarrow> string list \<times> string list \<times> string list" where
  "inputsStep w absoluteProjectRoot projectTsConfigFiles acc pc =
     (case acc of (configFiles, includePaths, excludePaths) \<Rightarrow>
        (let configPath = fst pc;
             config = snd pc;
             offset = path_relative (cwd w) absoluteProjectRoot (path_dirname configPath);
             includePaths' =
               foldl (\<lambda>s p. set_add s (path_join [offset, p])) includePaths
                 (rawInclude config);
             excludePaths' =
               (case rawExclude config of
                  None \<Rightarrow> excludePaths
                | Some excl \<Rightarrow>
                    foldl (\<lambda>s excludePath.
                        if excludeKept w (otherFilesInclude projectTsConfigFiles configPath)
                             excludePath
                        then set_add s excludePath else s)
                      excludePaths excl)
         in (set_add configFiles configPath, includePaths', excludePaths')))"

definition getInputs ::
  "world \<Rightarrow> string list \<Rightarrow> string \<Rightarrow> parsedCommandLine
   \<Rightarrow> (string \<times> parsedCommandLine) list \<Rightarrow> string \<Rightarrow> string \<Rightarrow> inputSpec list result"
  where
  "getInputs w namedInputs configFilePath tsConfig internalProjectReferences workspaceRoot
       projectRoot =
     bindR (getExtendedConfigFiles w configFilePath tsConfig) (\<lambda>extendedConfigFiles.
       (let externalDependencies = ''typescript'' # snd extendedConfigFiles;
            projectTsConfigFiles = (configFilePath, tsConfig) # internalProjectReferences;
            absoluteProjectRoot = path_join [workspaceRoot, projectRoot]
        in case foldl (inputsStep w absoluteProjectRoot projectTsConfigFiles)
                  (set_addAll [] (fst extendedConfigFiles), [], []) projectTsConfigFiles of
             (configFiles, includePaths, excludePaths) \<Rightarrow>
               (let inputs1 =
                      (if includePaths \<noteq> [] then
                         (if existsSync w (path_join [workspaceRoot, projectRoot, ''package.json''])
                          then [InputString ''{projectRoot}/package.json''] else [])
                         @ map (\<lambda>p. InputString
                                  (pathToInputOrOutput w p workspaceRoot projectRoot))
                             configFiles
                         @ map (\<lambda>p. InputString
                                  (pathToInputOrOutput w (joinPathFragments [projectRoot, p])
                                     workspaceRoot projectRoot))
                             includePaths
                       else [InputString
                               (if ''production'' \<in> set namedInputs then ''production''
                                else ''default'')]);
                    inputs2 = inputs1
                      @ map (\<lambda>p. InputString
                               (CHR ''!'' # pathToInputOrOutput w
                                  (joinPathFragments [projectRoot, p]) workspaceRoot projectRoot))
                          excludePaths
                in bindR (hasExternalProjectReferences w configFilePath tsConfig workspaceRoot
                            projectRoot [])
                     (\<lambda>res.
                        Some (Inr (inputs2
                          @ [if fst res then DependentTasksOutputFiles ''**/*.d.ts''
                             else InputString
                                    (if ''production'' \<in> set namedInputs then ''^production''
                                     else ''^default'')]
                          @ [ExternalDependencies externalDependencies]))))))"

text \<open>One round of the \<^verbatim>\<open>forEach\<close> of \<^verbatim>\<open>getOutputs\<close>, on the set \<^verbatim>\<open>outputs\<close>.\<close>

definition outputsStep ::
  "world \<Rightarrow> string \<Rightarrow> parsedCommandLine \<Rightarrow> string \<Rightarrow> string \<Rightarrow> string list
   \<Rightarrow> parsedCommandLine \<Rightarrow> string list" where
  "outputsStep w configFilePath tsConfig workspaceRoot projectRoot outs config =
     (if truthyStr (outFile (options config)) then
        (let outFileV = (case outFile (options config) of None \<Rightarrow> [] | Some f \<Rightarrow> f);
             outFileName = path_basename_ext outFileV ''.js'';
             outFileDir = path_dirname outFileV;
             outDirV = path_relative (cwd w) workspaceRoot outFileDir
         in set_addAll outs
              [pathToInputOrOutput w outFileV workspaceRoot projectRoot,
               pathToInputOrOutput w
                 (joinPathFragments [outDirV, outFileName @ ''.js.map''])
                 workspaceRoot projectRoot,
               pathToInputOrOutput w
                 (joinPathFragments [outDirV, outFileName @ ''.d.ts''])
                 workspaceRoot projectRoot,
               pathToInputOrOutput w
                 (joinPathFragments [outDirV, outFileName @ ''.d.ts.map''])
                 workspaceRoot projectRoot,
               (if truthyStr (tsBuildInfoFile (options tsConfig))
                then pathToInputOrOutput w
                       (case tsBuildInfoFile (options tsConfig) of None \<Rightarrow> [] | Some f \<Rightarrow> f)
                       workspaceRoot projectRoot
                else pathToInputOrOutput w
                       (joinPathFragments [outDirV, outFileName @ ''.tsbuildinfo''])
                       workspaceRoot projectRoot)])
      else if truthyStr (outDir (options config)) then
        (let outDirV = (case outDir (options config) of None \<Rightarrow> [] | Some d \<Rightarrow> d);
             outs1 = set_add outs (pathToInputOrOutput w outDirV workspaceRoot projectRoot)
         in if truthyStr (tsBuildInfoFile (options config)) then
              (let info =
                 (case tsBuildInfoFile (options config) of None \<Rightarrow> [] | Some f \<Rightarrow> f)
               in if \<not> startsWith (path_normalize info) (path_normalize outDirV @ ''/'')
                  then set_add outs1 (pathToInputOrOutput w info workspaceRoot projectRoot)
                  else outs1)
            else if truthyStr (rootDir (options config))
                    \<and> rootDir (options config) \<noteq> Some ''.'' then
              (let relativeRootDir =
                 path_relative (cwd w)
                   (case rootDir (options config) of None \<Rightarrow> [] | Some d \<Rightarrow> d)
                   (path_join [workspaceRoot, projectRoot])
               in set_add outs1
                    (pathToInputOrOutput w
                       (joinPathFragments [outDirV, relativeRootDir, ''*.tsbuildinfo''])
                       workspaceRoot projectRoot))
            else outs1)
      else if fileNames config \<noteq> [] then
        set_addAll outs
          [joinPathFragments [''{projectRoot}'', ''**/*.js''],
           joinPathFragments [''{projectRoot}'', ''**/*.cjs''],
           joinPathFragments [''{projectRoot}'', ''**/*.mjs''],
           joinPathFragments [''{projectRoot}'', ''**/*.jsx''],
           joinPathFragments [''{projectRoot}'', ''**/*.js.map''],
           joinPathFragments [''{projectRoot}'', ''**/*.jsx.map''],
           joinPathFragments [''{projectRoot}'', ''**/*.d.ts''],
           joinPathFragments [''{projectRoot}'', ''**/*.d.cts''],
           joinPathFragments [''{projectRoot}'', ''**/*.d.mts''],
           joinPathFragments [''{projectRoot}'', ''**/*.d.ts.map''],
           joinPathFragments [''{projectRoot}'', ''**/*.d.cts.map''],
           joinPathFragments [''{projectRoot}'', ''**/*.d.mts.map''],
           (if truthyStr (tsBuildInfoFile (options tsConfig))
            then pathToInputOrOutput w
                   (case tsBuildInfoFile (options tsConfig) of None \<Rightarrow> [] | Some f \<Rightarrow> f)
                   workspaceRoot projectRoot
            else joinPathFragments
                   [''{projectRoot}'',
                    path_basename_ext configFilePath ''.json'' @ ''.tsbuildinfo''])]
      else outs)"

definition getOutputs ::
  "world \<Rightarrow> string \<Rightarrow> parsedCommandLine \<Rightarrow> (string \<times> parsedCommandLine) list \<Rightarrow> string
   \<Rightarrow> string \<Rightarrow> string list" where
  "getOutputs w configFilePath tsConfig internalProjectReferences workspaceRoot projectRoot =
     foldl (outputsStep w configFilePath tsConfig workspaceRoot projectRoot) []
       (tsConfig # map snd internalProjectReferences)"


section \<open>Validation of the package descriptor\<close>

text \<open>
  The closure \<^verbatim>\<open>isPathSourceFile\<close>, with \<^verbatim>\<open>resolvedOutDir\<close> as an argument
  (\<^const>\<open>None\<close> is \<^verbatim>\<open>undefined\<close>).
\<close>

definition isPathSourceFile ::
  "world \<Rightarrow> string option \<Rightarrow> string \<Rightarrow> string \<Rightarrow> string \<Rightarrow> bool" where
  "isPathSourceFile w resolvedOutDir workspaceRoot projectRoot path =
     (case resolvedOutDir of
        Some d \<Rightarrow> \<not> startsWith (path_resolve (cwd w) [workspaceRoot, projectRoot, path]) d
      | None \<Rightarrow> path_extname path \<in> set [''.ts'', ''.tsx'', ''.cts'', ''.mts''])"

text \<open>Decimal digits of an array index, the keys of \<^verbatim>\<open>Object.entries(array)\<close>.\<close>

fun decimal :: "nat \<Rightarrow> string" where
  "decimal n =
     (if n < 10 then [char_of (48 + n)]
      else decimal (n div 10) @ [char_of (48 + n mod 10)])"

text \<open>
  \<^verbatim>\<open>Object.entries(value)\<close> for a JSON value of type \<^verbatim>\<open>object\<close>; it throws on
  \<^verbatim>\<open>null\<close>.  The keys of an object are taken to be distinct, as \<^verbatim>\<open>JSON.parse\<close> returns
  them.
\<close>

definition entriesOf :: "json \<Rightarrow> error + (string \<times> json) list" where
  "entriesOf v =
     (case v of
        JObj kvs \<Rightarrow> Inr kvs
      | JArr xs \<Rightarrow> Inr (zip (map decimal [0..<length xs]) xs)
      | JNull \<Rightarrow> Inl TypeError
      | _ \<Rightarrow> Inr [])"

definition containsInvalidPath :: "(string \<Rightarrow> bool) \<Rightarrow> json option \<Rightarrow> error + bool" where
  "containsInvalidPath isSrc val =
     (case val of
        None \<Rightarrow> Inr False
      | Some (JStr s) \<Rightarrow> Inr (isSrc s)
      | Some (JBool b) \<Rightarrow> Inr False
      | Some (JNum n) \<Rightarrow> Inr False
      | Some v \<Rightarrow>
          (case entriesOf v of
             Inl e \<Rightarrow> Inl e
           | Inr kvs \<Rightarrow>
               Inr (list_ex (\<lambda>kv.
                      if fst kv = ''types'' then False
                      else (case snd kv of JStr s \<Rightarrow> isSrc s | _ \<Rightarrow> False)) kvs)))"

text \<open>\<^verbatim>\<open>value[key]\<close> where the source reads a property without \<^verbatim>\<open>?.\<close>, and with it.\<close>

definition getProp :: "json \<Rightarrow> string \<Rightarrow> error + json option" where
  "getProp v key =
     (case v of JNull \<Rightarrow> Inl TypeError | JObj kvs \<Rightarrow> Inr (map_of kvs key) | _ \<Rightarrow> Inr None)"

definition getPropOpt :: "json \<Rightarrow> string \<Rightarrow> json option" where
  "getPropOpt v key = (case v of JObj kvs \<Rightarrow> map_of kvs key | _ \<Rightarrow> None)"

text \<open>The \<^verbatim>\<open>for (const key in exports)\<close> loop over the entries that remain.\<close>

fun otherExportsValid :: "(string \<Rightarrow> bool) \<Rightarrow> (string \<times> json) list \<Rightarrow> error + bool" where
  "otherExportsValid isSrc [] = Inr True"
| "otherExportsValid isSrc (kv # rest) =
     (if fst kv \<noteq> ''.'' then
        (case containsInvalidPath isSrc (Some (snd kv)) of
           Inl e \<Rightarrow> Inl e
         | Inr invalid \<Rightarrow> if invalid then Inr False else otherExportsValid isSrc rest)
      else otherExportsValid isSrc rest)"

text \<open>
  \<^verbatim>\<open>packageJson[field] && isPathSourceFile(packageJson[field])\<close>; a truthy value that is
  not a string makes \<^verbatim>\<open>resolve\<close> or \<^verbatim>\<open>extname\<close> throw.
\<close>

definition fieldIsSource :: "(string \<Rightarrow> bool) \<Rightarrow> json \<Rightarrow> string \<Rightarrow> error + bool" where
  "fieldIsSource isSrc packageJson field =
     (case getProp packageJson field of
        Inl e \<Rightarrow> Inl e
      | Inr v \<Rightarrow>
          if truthy v then
            (case v of Some (JStr s) \<Rightarrow> Inr (isSrc s) | _ \<Rightarrow> Inl TypeError)
          else Inr False)"

fun buildPathsValid :: "(string \<Rightarrow> bool) \<Rightarrow> json \<Rightarrow> string list \<Rightarrow> error + bool" where
  "buildPathsValid isSrc packageJson [] = Inr True"
| "buildPathsValid isSrc packageJson (field # rest) =
     (case fieldIsSource isSrc packageJson field of
        Inl e \<Rightarrow> Inl e
      | Inr src \<Rightarrow> if src then Inr False else buildPathsValid isSrc packageJson rest)"

definition isValidPackageJsonBuildConfig ::
  "world \<Rightarrow> parsedCommandLine \<Rightarrow> string \<Rightarrow> string \<Rightarrow> error + bool" where
  "isValidPackageJsonBuildConfig w tsConfig workspaceRoot projectRoot =
     (let packageJsonPath = path_join [workspaceRoot, projectRoot, ''package.json'']
      in if \<not> existsSync w packageJsonPath then Inr True
         else
           (case readJsonFile w packageJsonPath of
              Inl e \<Rightarrow> Inl e
            | Inr packageJson \<Rightarrow>
                (let outDirV =
                       (if truthyStr (outFile (options tsConfig))
                        then map_option path_dirname (outFile (options tsConfig))
                        else outDir (options tsConfig));
                     resolvedOutDir =
                       (if truthyStr outDirV
                        then map_option
                               (\<lambda>d. path_resolve (cwd w) [workspaceRoot, projectRoot, d]) outDirV
                        else None);
                     isSrc = isPathSourceFile w resolvedOutDir workspaceRoot projectRoot;
                     exports = getPropOpt packageJson ''exports''
                 in if truthy exports then
                      (case exports of
                         Some (JStr s) \<Rightarrow> Inr (\<not> isSrc s)
                       | Some (JObj kvs) \<Rightarrow>
                           if ''.'' \<in> fst ` set kvs then
                             (case containsInvalidPath isSrc (map_of kvs ''.'') of
                                Inl e \<Rightarrow> Inl e
                              | Inr invalid \<Rightarrow> Inr (\<not> invalid))
                           else otherExportsValid isSrc kvs
                       | Some v \<Rightarrow>
                           (case entriesOf v of
                              Inl e \<Rightarrow> Inl e
                            | Inr kvs \<Rightarrow> otherExportsValid isSrc kvs)
                       | None \<Rightarrow> Inr True)
                    else buildPathsValid isSrc packageJson [''main'', ''module''])))"


section \<open>The task definitions of one configuration file\<close>

definition disabledTypecheckCommand :: string where
  \<open>disabledTypecheckCommand =
     ''echo "The 'typecheck' target is disabled because one or more project references set 'noEmit: true' in their tsconfig. Remove this property to resolve this issue."''\<close>

definition typecheckDescription :: string where
  "typecheckDescription = ''Runs type-checking for the project.''"

definition buildDescription :: string where
  "buildDescription = ''Builds the project with `tsc`.''"

definition typecheckTarget ::
  "world \<Rightarrow> string \<Rightarrow> string \<Rightarrow> string \<Rightarrow> inputSpec list \<Rightarrow> string list
   \<Rightarrow> targetConfiguration" where
  "typecheckTarget w tName cmd projectRoot ins outs =
     \<lparr> dependsOn = [CHR ''^'' # tName],
       command = cmd,
       options_cwd = projectRoot,
       cache = True,
       inputs = ins,
       outputs = outs,
       syncGenerators = [''@nx/js:typescript-sync''],
       technologies = [''typescript''],
       description = typecheckDescription,
       help_command = pmc_exec w @ '' tsc --build --help'',
       help_example_args = [''--force''] \<rparr>"

definition buildTarget ::
  "world \<Rightarrow> buildOptions \<Rightarrow> bool \<Rightarrow> string \<Rightarrow> inputSpec list \<Rightarrow> string list
   \<Rightarrow> targetConfiguration" where
  "buildTarget w b verbose projectRoot ins outs =
     \<lparr> dependsOn = [CHR ''^'' # targetName b],
       command = ''tsc --build '' @ configName b @ (if verbose then '' --verbose'' else []),
       options_cwd = projectRoot,
       cache = True,
       inputs = ins,
       outputs = outs,
       syncGenerators = [''@nx/js:typescript-sync''],
       technologies = [''typescript''],
       description = buildDescription,
       help_command = pmc_exec w @ '' tsc --build --help'',
       help_example_args = [''--force''] \<rparr>"

text \<open>
  The first half of \<^verbatim>\<open>buildTscTargets\<close>: the typecheck target.  It returns \<^verbatim>\<open>targets\<close> and
  the variable \<^verbatim>\<open>internalProjectReferences\<close>, which stays unassigned (\<^const>\<open>None\<close>) when
  the branch is not taken.
\<close>

definition typecheckPart ::
  "world \<Rightarrow> string \<Rightarrow> string \<Rightarrow> normalizedPluginOptions \<Rightarrow> string \<Rightarrow> parsedCommandLine
   \<Rightarrow> (targets \<times> (string \<times> parsedCommandLine) list option) result" where
  "typecheckPart w configFilePath projectRoot opts workspaceRoot tsConfig =
     (case typecheck opts of
        None \<Rightarrow> Some (Inr ([], None))
      | Some tc \<Rightarrow>
          if path_basename configFilePath = ''tsconfig.json'' then
            bindR (resolveInternalProjectReferences w tsConfig workspaceRoot projectRoot)
              (\<lambda>internalProjectReferences.
            bindR (resolveShallowExternalProjectReferences w tsConfig workspaceRoot projectRoot)
              (\<lambda>externalProjectReferences.
                (let cmd =
                   (if noEmit (options tsConfig)
                       \<or> list_ex (\<lambda>r. noEmit (options (snd r))) internalProjectReferences
                       \<or> list_ex (\<lambda>r. noEmit (options (snd r))) externalProjectReferences
                    then disabledTypecheckCommand
                    else ''tsc --build --emitDeclarationOnly''
                         @ (if verboseOutput opts then '' --verbose'' else []))
                 in bindR (getInputs w (getNamedInputs w projectRoot) configFilePath tsConfig
                             internalProjectReferences workspaceRoot projectRoot)
                      (\<lambda>ins.
                         Some (Inr
                           ([(tc_targetName tc,
                              typecheckTarget w (tc_targetName tc) cmd projectRoot ins
                                (getOutputs w configFilePath tsConfig internalProjectReferences
                                   workspaceRoot projectRoot))],
                            Some internalProjectReferences))))))
          else Some (Inr ([], None)))"

definition buildTscTargets ::
  "world \<Rightarrow> string \<Rightarrow> string \<Rightarrow> normalizedPluginOptions \<Rightarrow> string \<Rightarrow> targets result" where
  "buildTscTargets w configFilePath projectRoot opts workspaceRoot =
     (case readCachedTsConfig w configFilePath of
        Inl e \<Rightarrow> Some (Inl e)
      | Inr tsConfig \<Rightarrow>
          bindR (typecheckPart w configFilePath projectRoot opts workspaceRoot tsConfig)
            (\<lambda>tcRes.
               case build opts of
                 None \<Rightarrow> Some (Inr (fst tcRes))
               | Some b \<Rightarrow>
                   if path_basename configFilePath = configName b then
                     (case isValidPackageJsonBuildConfig w tsConfig workspaceRoot projectRoot of
                        Inl e \<Rightarrow> Some (Inl e)
                      | Inr valid \<Rightarrow>
                          if valid then
                            bindR
                              (case snd tcRes of
                                 Some refs \<Rightarrow> Some (Inr refs)
                               | None \<Rightarrow>
                                   resolveInternalProjectReferences w tsConfig workspaceRoot
                                     projectRoot)
                              (\<lambda>internalProjectReferences.
                            bindR (getInputs w (getNamedInputs w projectRoot) configFilePath
                                     tsConfig internalProjectReferences workspaceRoot projectRoot)
                              (\<lambda>ins.
                                 Some (Inr
                                   (addBuildAndWatchDepsTargets w workspaceRoot projectRoot
                                      (obj_set (fst tcRes) (targetName b)
                                         (buildTarget w b (verboseOutput opts) projectRoot ins
                                            (getOutputs w configFilePath tsConfig
                                               internalProjectReferences workspaceRoot
                                               projectRoot)))
                                      (buildDepsName b) (watchDepsName b)))))
                          else Some (Inr (fst tcRes)))
                   else Some (Inr (fst tcRes))))"

section \<open>The entry point for one configuration file\<close>

text \<open>
  \<^verbatim>\<open>CreateNodesResult\<close>: the list of the entries of \<^verbatim>\<open>projects\<close>, each a project root with
  its project type and targets; the empty result \<^verbatim>\<open>{}\<close> is the empty list.
\<close>

record projectConfiguration =
  projectType :: string
  project_targets :: targets

type_synonym createNodesResult = "(string \<times> projectConfiguration) list"

text \<open>The list of files whose hashes enter the cache key, in the order of the source.\<close>

definition hashedFiles ::
  "string \<Rightarrow> string list \<Rightarrow> (string \<times> parsedCommandLine) list
   \<Rightarrow> (string \<times> parsedCommandLine) list \<Rightarrow> string \<Rightarrow> string \<Rightarrow> string list" where
  "hashedFiles fullConfigPath extendedFiles internalReferencedFiles externalProjectReferences
       workspaceRoot lockFileName =
     [fullConfigPath] @ extendedFiles @ map fst internalReferencedFiles
       @ map fst externalProjectReferences @ [path_join [workspaceRoot, lockFileName]]"

text \<open>
  The statements of \<^verbatim>\<open>createNodesInternal\<close> that compute \<^verbatim>\<open>cacheKey\<close>, from the parsed
  configuration on.
\<close>

definition readPackageJson :: "world \<Rightarrow> string \<Rightarrow> error + json option" where
  "readPackageJson w packageJsonPath =
     (if existsSync w packageJsonPath
      then (case readJsonFile w packageJsonPath of Inl e \<Rightarrow> Inl e | Inr j \<Rightarrow> Inr (Some j))
      else Inr None)"

definition nodeHashOf ::
  "world \<Rightarrow> string list \<Rightarrow> normalizedPluginOptions \<Rightarrow> json option \<Rightarrow> string" where
  "nodeHashOf w files opts packageJson =
     hashArray w
       (map (hashFile w) files
        @ [hashObjectOptions w opts]
        @ (if truthy packageJson
           then [hashObjectJson w (case packageJson of None \<Rightarrow> JNull | Some j \<Rightarrow> j)]
           else []))"

definition cacheKeyOf ::
  "world \<Rightarrow> string \<Rightarrow> normalizedPluginOptions \<Rightarrow> string \<Rightarrow> string \<Rightarrow> parsedCommandLine
   \<Rightarrow> string result" where
  "cacheKeyOf w configFilePath opts workspaceRoot lockFileName tsConfig =
     (let projectRoot = path_dirname configFilePath;
          fullConfigPath = joinPathFragments [workspaceRoot, configFilePath]
      in bindR (getExtendedConfigFiles w fullConfigPath tsConfig) (\<lambda>extendedConfigFiles.
         bindR (resolveInternalProjectReferences w tsConfig workspaceRoot projectRoot)
           (\<lambda>internalReferencedFiles.
         bindR (resolveShallowExternalProjectReferences w tsConfig workspaceRoot projectRoot)
           (\<lambda>externalProjectReferences.
              case readPackageJson w (joinPathFragments [projectRoot, ''package.json'']) of
                Inl e \<Rightarrow> Some (Inl e)
              | Inr packageJson \<Rightarrow>
                  Some (Inr
                    (nodeHashOf w
                       (hashedFiles fullConfigPath (fst extendedConfigFiles)
                          internalReferencedFiles externalProjectReferences workspaceRoot
                          lockFileName)
                       opts packageJson
                     @ ''_'' @ configFilePath))))))"

text \<open>
  \<^verbatim>\<open>createNodesInternal\<close> returns its result and leaves its entry in \<^verbatim>\<open>targetsCache\<close>:
  the model returns both.
\<close>

definition createNodesInternal ::
  "world \<Rightarrow> string \<Rightarrow> normalizedPluginOptions \<Rightarrow> string \<Rightarrow> string \<Rightarrow> (string \<times> targets) list
   \<Rightarrow> (createNodesResult \<times> (string \<times> targets) list) result" where
  "createNodesInternal w configFilePath opts workspaceRoot lockFileName targetsCache =
     (let projectRoot = path_dirname configFilePath;
          fullConfigPath = joinPathFragments [workspaceRoot, configFilePath]
      in if projectRoot = ''.'' then Some (Inr ([], targetsCache))
         else
           (case readdirSync w (path_join [workspaceRoot, projectRoot]) of
              Inl e \<Rightarrow> Some (Inl e)
            | Inr siblingFiles \<Rightarrow>
                if ''package.json'' \<notin> set siblingFiles \<and> ''project.json'' \<notin> set siblingFiles
                then Some (Inr ([], targetsCache))
                else if path_basename configFilePath \<noteq> ''tsconfig.json''
                        \<and> ''tsconfig.json'' \<notin> set siblingFiles
                then Some (Inr ([], targetsCache))
                else if ''next.config.js'' \<in> set siblingFiles
                        \<or> ''next.config.cjs'' \<in> set siblingFiles
                        \<or> ''next.config.mjs'' \<in> set siblingFiles
                        \<or> ''next.config.ts'' \<in> set siblingFiles
                then Some (Inr ([], targetsCache))
                else
                  (case readCachedTsConfig w fullConfigPath of
                     Inl e \<Rightarrow> Some (Inl e)
                   | Inr tsConfig \<Rightarrow>
                       bindR (cacheKeyOf w configFilePath opts workspaceRoot lockFileName
                                tsConfig)
                         (\<lambda>cacheKey.
                       bindR
                         (case map_of targetsCache cacheKey of
                            Some ts \<Rightarrow> Some (Inr (targetsCache, ts))
                          | None \<Rightarrow>
                              bindR (buildTscTargets w fullConfigPath projectRoot opts
                                       workspaceRoot)
                                (\<lambda>ts. Some (Inr (obj_set targetsCache cacheKey ts, ts))))
                         (\<lambda>res.
                            Some (Inr
                              ([(projectRoot,
                                 \<lparr> projectType = ''library'', project_targets = snd res \<rparr>)],
                               fst res)))))))"

text \<open>
  A build target is recognised by its description, which no other target of the plugin
  carries.
\<close>

definition hasBuildTarget :: "targets \<Rightarrow> bool" where
  "hasBuildTarget ts = list_ex (\<lambda>nt. description (snd nt) = buildDescription) ts"

text \<open>
  A visitor that also records, in order, the configuration paths it is called with.  The
  record is not part of the plugin: it makes the calls of a visitor visible.
\<close>

definition traced :: "'s visitor \<Rightarrow> (string list \<times> 's) visitor" where
  "traced v configPath config st =
     bindR (v configPath config (snd st))
       (\<lambda>res. Some (Inr (fst res, (fst st @ [configPath], snd res))))"

definition continueVisitor :: "unit visitor" where
  "continueVisitor configPath config st = Some (Inr (True, st))"

section \<open>Normalised absolute paths\<close>

text \<open>
  TypeScript hands the plugin absolute, normalised paths.  Such a path is the rendering
  \<^term>\<open>absPath segs\<close> of a list of plain names: names that are not empty, have no
  separator in them, and are neither \<^verbatim>\<open>.\<close> nor \<^verbatim>\<open>..\<close>; the empty list renders the root
  \<^verbatim>\<open>/\<close>.  A relative path of plain names is \<^term>\<open>joinSep segs\<close>.
\<close>

definition plainName :: "string \<Rightarrow> bool" where
  "plainName s \<longleftrightarrow> s \<noteq> [] \<and> CHR ''/'' \<notin> set s \<and> s \<noteq> ''.'' \<and> s \<noteq> ''..''"

definition absPath :: "string list \<Rightarrow> string" where
  "absPath segs = CHR ''/'' # joinSep segs"


text \<open>A directory, given by its names, holds a \<^verbatim>\<open>package.json\<close> or a \<^verbatim>\<open>project.json\<close>.\<close>

definition hasDescriptor :: "world \<Rightarrow> string list \<Rightarrow> bool" where
  "hasDescriptor w dir \<longleftrightarrow>
     existsSync w (absPath (dir @ [''package.json'']))
     \<or> existsSync w (absPath (dir @ [''project.json'']))"


text \<open>
  A plain name without backslash and colon, which the devkit's \<^verbatim>\<open>normalizePath\<close> leaves
  alone.
\<close>

definition posixName :: "string \<Rightarrow> bool" where
  "posixName s \<longleftrightarrow> plainName s \<and> CHR 0x5C \<notin> set s \<and> CHR '':'' \<notin> set s"

text \<open>
  The specifier of the path with the names \<open>q\<close> below the workspace root, for the project
  with the names \<open>pr\<close>: relative to the project when the path is in it, to the workspace
  otherwise.
\<close>

definition specifier :: "string list \<Rightarrow> string list \<Rightarrow> string" where
  "specifier pr q =
     (if prefix pr q
         \<and> \<not> (case drop (length pr) q of [] \<Rightarrow> False | x # _ \<Rightarrow> startsWith x ''..'')
      then joinSep (''{projectRoot}'' # drop (length pr) q)
      else joinSep (''{workspaceRoot}'' # q))"

text \<open>A name without its final \<^verbatim>\<open>.js\<close>, unless \<^verbatim>\<open>.js\<close> is the whole name.\<close>

definition stem :: "string \<Rightarrow> string" where
  "stem name =
     (if suffix ''.js'' name \<and> name \<noteq> ''.js'' then take (length name - 3) name else name)"

text \<open>
  The entries of a bundle with the name \<open>name\<close> in the directory \<open>out\<close>, and the entry of
  its build information file.
\<close>

definition bundleOutputs :: "string list \<Rightarrow> string list \<Rightarrow> string \<Rightarrow> string list" where
  "bundleOutputs pr out name =
     [specifier pr (out @ [name]),
      specifier pr (out @ [stem name @ ''.js.map'']),
      specifier pr (out @ [stem name @ ''.d.ts'']),
      specifier pr (out @ [stem name @ ''.d.ts.map''])]"

definition buildInfoOutput ::
  "world \<Rightarrow> parsedCommandLine \<Rightarrow> string list \<Rightarrow> string list \<Rightarrow> string list \<Rightarrow> string
   \<Rightarrow> string" where
  "buildInfoOutput w tsConfig ws pr out name =
     (case tsBuildInfoFile (options tsConfig) of
        None \<Rightarrow> specifier pr (out @ [stem name @ ''.tsbuildinfo''])
      | Some f \<Rightarrow>
          if f = [] then specifier pr (out @ [stem name @ ''.tsbuildinfo''])
          else pathToInputOrOutput w f (absPath ws) (joinSep pr))"


section \<open>Two states of the file system\<close>








section \<open>Example workspaces\<close>

text \<open>
  Concrete configurations, options and worlds on which the theorems below are
  instantiated.  \<^term>\<open>emptyWorld\<close> has no file at all; the examples update it.
\<close>

definition emptyConfig :: parsedCommandLine where
  "emptyConfig =
     \<lparr> options = \<lparr> outFile = None, outDir = None, tsBuildInfoFile = None, rootDir = None,
                    noEmit = False \<rparr>,
       raw = None, fileNames = [], projectReferences = None \<rparr>"

definition emptyWorld :: world where
  "emptyWorld =
     \<lparr> cwd = ''/ws'',
       existsSync = (\<lambda>p. False),
       statIsFile = (\<lambda>p. False),
       readdirSync = (\<lambda>p. Inl (ENOENT p)),
       readTsConfig = (\<lambda>p. emptyConfig),
       readJsonFile = (\<lambda>p. Inl (ENOENT p)),
       requireResolve = (\<lambda>s d. None),
       hashFile = (\<lambda>p. p),
       hashArray = concat,
       hashObjectOptions = (\<lambda>opts. []),
       hashObjectJson = (\<lambda>j. []),
       minimatch = (\<lambda>p pat. p = pat),
       getNamedInputs = (\<lambda>r. []),
       pmc_exec = ''npx'',
       addBuildAndWatchDepsTargets = (\<lambda>wr pr ts b wd. ts) \<rparr>"

definition defaultOptions :: normalizedPluginOptions where
  "defaultOptions =
     \<lparr> typecheck = Some \<lparr> tc_targetName = ''typecheck'' \<rparr>,
       build = Some \<lparr> targetName = ''build'', configName = ''tsconfig.lib.json'',
                      buildDepsName = Some ''build-deps'', watchDepsName = Some ''watch-deps'' \<rparr>,
       verboseOutput = False \<rparr>"

text \<open>
  A library \<^verbatim>\<open>libs/mylib\<close> of the workspace \<^verbatim>\<open>/ws\<close> with a \<^verbatim>\<open>package.json\<close> and the build
  configuration \<^verbatim>\<open>tsconfig.lib.json\<close>; the descriptor and the output directory of the
  configuration vary.
\<close>

definition libConfig :: "string option \<Rightarrow> parsedCommandLine" where
  "libConfig od =
     \<lparr> options = \<lparr> outFile = None, outDir = od, tsBuildInfoFile = None, rootDir = None,
                    noEmit = False \<rparr>,
       raw = Some \<lparr> raw_include = Some [''src/**/*.ts''], raw_exclude = None,
                    raw_extends = None \<rparr>,
       fileNames = [''/ws/libs/mylib/src/index.ts''],
       projectReferences = None \<rparr>"

definition pkgWorld :: "json \<Rightarrow> parsedCommandLine \<Rightarrow> world" where
  "pkgWorld packageJson config =
     emptyWorld
       \<lparr> existsSync := (\<lambda>p. p \<in> set [''/ws/libs/mylib/package.json'',
                                      ''/ws/libs/mylib/tsconfig.lib.json'']),
         statIsFile := (\<lambda>p. True),
         readTsConfig := (\<lambda>p. config),
         readJsonFile := (\<lambda>p. if p = ''/ws/libs/mylib/package.json'' then Inr packageJson
                               else Inl (ENOENT p)) \<rparr>"

text \<open>The build target that the plugin gives this library, up to its outputs.\<close>

definition exampleBuildTarget :: "string list \<Rightarrow> targetConfiguration" where
  "exampleBuildTarget outs =
     \<lparr> dependsOn = [''^build''],
       command = ''tsc --build tsconfig.lib.json'',
       options_cwd = ''libs/mylib'',
       cache = True,
       inputs =
         [InputString ''{projectRoot}/package.json'',
          InputString ''{projectRoot}/tsconfig.lib.json'',
          InputString ''{projectRoot}/src/**/*.ts'',
          InputString ''^default'',
          ExternalDependencies [''typescript'']],
       outputs = outs,
       syncGenerators = [''@nx/js:typescript-sync''],
       technologies = [''typescript''],
       description = buildDescription,
       help_command = ''npx tsc --build --help'',
       help_example_args = [''--force''] \<rparr>"

definition inPlaceOutputs :: "string list" where
  "inPlaceOutputs =
     [''{projectRoot}/**/*.js'', ''{projectRoot}/**/*.cjs'', ''{projectRoot}/**/*.mjs'',
      ''{projectRoot}/**/*.jsx'', ''{projectRoot}/**/*.js.map'', ''{projectRoot}/**/*.jsx.map'',
      ''{projectRoot}/**/*.d.ts'', ''{projectRoot}/**/*.d.cts'', ''{projectRoot}/**/*.d.mts'',
      ''{projectRoot}/**/*.d.ts.map'', ''{projectRoot}/**/*.d.cts.map'',
      ''{projectRoot}/**/*.d.mts.map'']"

text \<open>
  A world given by its configuration files with their parses, its other files and its
  directories.
\<close>

definition fileWorld ::
  "(string \<times> parsedCommandLine) list \<Rightarrow> string list \<Rightarrow> string list \<Rightarrow> world" where
  "fileWorld configs otherFiles dirs =
     emptyWorld
       \<lparr> existsSync := (\<lambda>p. p \<in> set (map fst configs @ otherFiles @ dirs)),
         statIsFile := (\<lambda>p. p \<in> set (map fst configs @ otherFiles)),
         readTsConfig := (\<lambda>p. case map_of configs p of Some c \<Rightarrow> c | None \<Rightarrow> emptyConfig) \<rparr>"

definition refConfig :: "string list \<Rightarrow> parsedCommandLine" where
  "refConfig refs = emptyConfig \<lparr> projectReferences := Some refs \<rparr>"

text \<open>
  Configurations that extend one another: a chain of three files that ends, and two
  files that extend each other.
\<close>

definition extendsConfig :: "string \<Rightarrow> parsedCommandLine" where
  "extendsConfig spec =
     emptyConfig \<lparr> raw := Some \<lparr> raw_include = None, raw_exclude = None,
                                 raw_extends = Some spec \<rparr> \<rparr>"

text \<open>Module resolution of relative specifiers among the files of one directory.\<close>

definition resolveIn :: "string \<Rightarrow> string list \<Rightarrow> string \<Rightarrow> string option \<Rightarrow> string option" where
  "resolveIn dir names spec directory =
     (if directory = Some dir \<and> startsWith spec ''./'' \<and> drop 2 spec \<in> set names
      then Some (dir @ ''/'' @ drop 2 spec) else None)"

definition extendsCycleWorld :: world where
  "extendsCycleWorld =
     (fileWorld
        [(''/ws/libs/a/tsconfig.json'', extendsConfig ''./tsconfig.base.json''),
         (''/ws/libs/a/tsconfig.base.json'', extendsConfig ''./tsconfig.json'')]
        [''/ws/libs/a/package.json''] [''/ws/libs/a''])
     \<lparr> requireResolve := resolveIn ''/ws/libs/a'' [''tsconfig.json'', ''tsconfig.base.json''] \<rparr>"

definition extendsChainWorld :: world where
  "extendsChainWorld =
     (fileWorld
        [(''/ws/libs/a/tsconfig.lib.json'', extendsConfig ''./tsconfig.json''),
         (''/ws/libs/a/tsconfig.json'', extendsConfig ''./tsconfig.base.json''),
         (''/ws/libs/a/tsconfig.base.json'', emptyConfig)]
        [''/ws/libs/a/package.json''] [''/ws/libs/a''])
     \<lparr> requireResolve :=
         resolveIn ''/ws/libs/a'' [''tsconfig.lib.json'', ''tsconfig.json'', ''tsconfig.base.json''] \<rparr>"


text \<open>
  The library \<^verbatim>\<open>libs/a\<close> with project references between the configuration files of its
  root directory: two files that reference each other, and the usual layout in which
  \<^verbatim>\<open>tsconfig.json\<close> references \<^verbatim>\<open>tsconfig.lib.json\<close> and \<^verbatim>\<open>tsconfig.spec.json\<close>, and the
  latter references the former.
\<close>

definition cycleRefWorld :: world where
  "cycleRefWorld =
     fileWorld
       [(''/ws/libs/a/tsconfig.json'', refConfig [''/ws/libs/a/tsconfig.lib.json'']),
        (''/ws/libs/a/tsconfig.lib.json'', refConfig [''/ws/libs/a/tsconfig.json''])]
       [''/ws/libs/a/package.json''] [''/ws/libs/a'']"

definition diamondWorld :: world where
  "diamondWorld =
     fileWorld
       [(''/ws/libs/a/tsconfig.json'',
           refConfig [''/ws/libs/a/tsconfig.lib.json'', ''/ws/libs/a/tsconfig.spec.json'']),
        (''/ws/libs/a/tsconfig.lib.json'', refConfig []),
        (''/ws/libs/a/tsconfig.spec.json'', refConfig [''/ws/libs/a/tsconfig.lib.json''])]
       [''/ws/libs/a/package.json''] [''/ws/libs/a'']"


text \<open>
  The library \<^verbatim>\<open>libs/mylib\<close> whose \<^verbatim>\<open>tsconfig.json\<close> includes \<^verbatim>\<open>src\<close> and references
  \<^verbatim>\<open>tsconfig.lib.json\<close>, which includes \<^verbatim>\<open>src/feature\<close> and excludes
  \<^verbatim>\<open>src/feature/ignored\<close>; the matcher is left open.
\<close>

definition includeConfig ::
  "string list \<Rightarrow> string list option \<Rightarrow> string list \<Rightarrow> parsedCommandLine" where
  "includeConfig incl excl refs =
     emptyConfig
       \<lparr> raw := Some \<lparr> raw_include = Some incl, raw_exclude = excl, raw_extends = None \<rparr>,
         projectReferences := (if refs = [] then None else Some refs) \<rparr>"

definition featureWorld :: "(string \<Rightarrow> string \<Rightarrow> bool) \<Rightarrow> world" where
  "featureWorld mm =
     (fileWorld
        [(''/ws/libs/mylib/tsconfig.json'',
            includeConfig [''src''] None [''/ws/libs/mylib/tsconfig.lib.json'']),
         (''/ws/libs/mylib/tsconfig.lib.json'',
            includeConfig [''src/feature''] (Some [''src/feature/ignored'']) [])]
        [''/ws/libs/mylib/package.json''] [''/ws/libs/mylib''])
     \<lparr> minimatch := mm \<rparr>"



text \<open>
  The library \<^verbatim>\<open>libs/a\<close> with a nested package in \<^verbatim>\<open>nested\<close> and a plain directory
  \<^verbatim>\<open>src\<close>, each with a configuration file.
\<close>

definition nestedWorld :: world where
  "nestedWorld =
     fileWorld
       [(''/ws/libs/a/tsconfig.json'', refConfig [''/ws/libs/a/nested/tsconfig.json'']),
        (''/ws/libs/a/nested/tsconfig.json'', refConfig []),
        (''/ws/libs/a/src/tsconfig.json'', refConfig [])]
       [''/ws/libs/a/package.json'', ''/ws/libs/a/nested/package.json'']
       [''/ws/libs/a'', ''/ws/libs/a/nested'', ''/ws/libs/a/src'']"

text \<open>
  The library \<^verbatim>\<open>libs/a\<close> with a directory named \<^verbatim>\<open>..hidden\<close> and a directory
  \<^verbatim>\<open>src\<close>, each with a configuration file and neither with a \<^verbatim>\<open>package.json\<close> or a
  \<^verbatim>\<open>project.json\<close>.
\<close>

definition hiddenWorld :: world where
  "hiddenWorld =
     fileWorld
       [(''/ws/libs/a/tsconfig.json'', refConfig [''/ws/libs/a/..hidden/tsconfig.json'']),
        (''/ws/libs/a/..hidden/tsconfig.json'', refConfig []),
        (''/ws/libs/a/src/tsconfig.json'', refConfig [])]
       [''/ws/libs/a/package.json'']
       [''/ws/libs/a'', ''/ws/libs/a/..hidden'', ''/ws/libs/a/src'']"

text \<open>A configuration that bundles its output into one file.\<close>

definition bundleConfig :: "string \<Rightarrow> string option \<Rightarrow> parsedCommandLine" where
  "bundleConfig file info =
     emptyConfig
       \<lparr> options := \<lparr> outFile = Some file, outDir = None, tsBuildInfoFile = info,
                       rootDir = None, noEmit = False \<rparr>,
         fileNames := [''/ws/libs/mylib/src/index.ts''] \<rparr>"








section \<open>Basic facts\<close>

lemma bindR_eq_Some_Inr:
  "bindR m f = Some (Inr y) \<longleftrightarrow> (\<exists>v. m = Some (Inr v) \<and> f v = Some (Inr y))"
  by (auto simp: bindR_def split: option.splits sum.splits)

lemma bindR_Some_Inr [simp]: "bindR (Some (Inr v)) f = f v"
  by (simp add: bindR_def)

lemma bindR_Some_Inl [simp]: "bindR (Some (Inl e)) f = Some (Inl e)"
  by (simp add: bindR_def)

lemma bindR_None [simp]: "bindR None f = None"
  by (simp add: bindR_def)

lemma extname_empty: "path_extname [] = []"
  by (simp add: path_extname_def path_basename_def)

lemma bindR_assoc: "bindR (bindR m f) g = bindR m (\<lambda>x. bindR (f x) g)"
  by (simp add: bindR_def split: option.splits sum.splits)


lemma set_add_distinct: "distinct xs \<Longrightarrow> distinct (set_add xs x)"
  by (simp add: set_add_def)

lemma bindR_Some_D: "bindR m f = Some y \<Longrightarrow> \<exists>z. m = Some z"
  by (cases m) (simp_all add: bindR_def)


lemma set_set_add [simp]: "set (set_add xs x) = insert x (set xs)"
  by (auto simp: set_add_def)


section \<open>The path functions on normalised absolute paths\<close>


lemma splitOn_no_sep: "c \<notin> set s \<Longrightarrow> splitOn c s = [s]"
  by (induction s) auto

lemma splitOn_not_Nil [simp]: "splitOn c s \<noteq> []"
  by (induction s) (auto split: list.splits)

lemma splitOn_append:
  "splitOn c (xs @ c # ys) = splitOn c xs @ splitOn c ys"
proof (induction xs)
  case Nil
  show ?case by simp
next
  case (Cons x xs)
  then show ?case
    by (cases "splitOn c xs") (auto split: list.splits)
qed

lemma splitOn_joinSep:
  assumes "xs \<noteq> []" and "\<forall>x \<in> set xs. CHR ''/'' \<notin> set x"
  shows "splitOn CHR ''/'' (joinSep xs) = xs"
  using assms
proof (induction xs rule: joinSep.induct)
  case 1
  then show ?case by simp
next
  case (2 x)
  then show ?case by (simp add: splitOn_no_sep)
next
  case (3 x y zs)
  then show ?case by (simp add: splitOn_append splitOn_no_sep)
qed

lemma segments_append: "segments (xs @ CHR ''/'' # ys) = segments xs @ segments ys"
  by (simp add: segments_def splitOn_append)

lemma segments_joinSep:
  assumes "\<forall>x \<in> set xs. plainName x"
  shows "segments (joinSep xs) = xs"
proof (cases "xs = []")
  case True
  then show ?thesis by (simp add: segments_def)
next
  case False
  have "splitOn CHR ''/'' (joinSep xs) = xs"
    using False assms by (intro splitOn_joinSep) (auto simp: plainName_def)
  moreover have "filter (\<lambda>s. s \<noteq> []) xs = xs"
    using assms by (auto simp: plainName_def filter_id_conv)
  ultimately show ?thesis by (simp add: segments_def)
qed

lemma segments_absPath:
  assumes "\<forall>x \<in> set xs. plainName x"
  shows "segments (absPath xs) = xs"
proof -
  have "absPath xs = [] @ CHR ''/'' # joinSep xs" by (simp add: absPath_def)
  then have "segments (absPath xs) = segments [] @ segments (joinSep xs)"
    by (simp only: segments_append)
  then show ?thesis using assms by (simp add: segments_joinSep) (simp add: segments_def)
qed

lemma absPath_inj:
  assumes "\<forall>x \<in> set xs. plainName x" "\<forall>x \<in> set ys. plainName x" "absPath xs = absPath ys"
  shows "xs = ys"
  using assms segments_absPath by metis

lemma foldl_segStep_plain:
  assumes "\<forall>x \<in> set xs. x = [] \<or> plainName x"
  shows "foldl (segStep allow) acc xs = acc @ filter (\<lambda>s. s \<noteq> []) xs"
  using assms
  by (induction xs arbitrary: acc) (auto simp: segStep_def plainName_def)

lemma normalizeString_plain:
  assumes "\<forall>x \<in> set (segments p). plainName x"
  shows "normalizeString p allow = joinSep (segments p)"
proof -
  have "\<forall>x \<in> set (splitOn CHR ''/'' p). x = [] \<or> plainName x"
    using assms by (auto simp: segments_def)
  then show ?thesis
    by (simp add: normalizeString_def foldl_segStep_plain segments_def)
qed

lemma joinSep_append:
  "xs \<noteq> [] \<Longrightarrow> ys \<noteq> [] \<Longrightarrow> joinSep (xs @ ys) = joinSep xs @ CHR ''/'' # joinSep ys"
  by (induction xs rule: joinSep.induct) (auto simp: neq_Nil_conv)

lemma joinSep_Nil_iff:
  "\<forall>x \<in> set xs. x \<noteq> [] \<Longrightarrow> joinSep xs = [] \<longleftrightarrow> xs = []"
  by (induction xs rule: joinSep.induct) auto

lemma last_joinSep:
  "xs \<noteq> [] \<Longrightarrow> \<forall>x \<in> set xs. x \<noteq> [] \<Longrightarrow> last (joinSep xs) = last (last xs)"
  by (induction xs rule: joinSep.induct) (auto simp: joinSep_Nil_iff)

lemma absPath_snoc: "absPath (xs @ [s]) = (if xs = [] then CHR ''/'' # s else absPath xs @ CHR ''/'' # s)"
  by (simp add: absPath_def joinSep_append)

lemma absPath_append:
  "ys \<noteq> [] \<Longrightarrow> absPath (xs @ ys) = (if xs = [] then absPath ys else absPath xs @ CHR ''/'' # joinSep ys)"
  by (simp add: absPath_def joinSep_append)


lemma absPath_not_Nil [simp]: "absPath xs \<noteq> []"
  by (simp add: absPath_def)

lemma isAbsolute_absPath [simp]: "isAbsolute (absPath xs)"
  by (simp add: absPath_def isAbsolute_def)

lemma isAbsolute_Cons [simp]: "isAbsolute (c # s) = (c = CHR ''/'')"
  by (simp add: isAbsolute_def)

lemma isAbsolute_append [simp]: "a \<noteq> [] \<Longrightarrow> isAbsolute (a @ b) = isAbsolute a"
  by (cases a) (simp_all add: isAbsolute_def)

lemma plain_nonempty: "\<forall>x \<in> set xs. plainName x \<Longrightarrow> \<forall>x \<in> set xs. x \<noteq> []"
  by (auto simp: plainName_def)

lemma last_absPath:
  assumes "xs \<noteq> []" "\<forall>x \<in> set xs. plainName x"
  shows "last (absPath xs) \<noteq> CHR ''/''"
proof -
  have ne: "\<forall>x \<in> set xs. x \<noteq> []" using assms(2) by (rule plain_nonempty)
  have "joinSep xs \<noteq> []" using assms(1) ne by (simp add: joinSep_Nil_iff)
  then have "last (absPath xs) = last (last xs)"
    using assms(1) ne by (simp add: absPath_def last_joinSep)
  moreover have "last xs \<in> set xs" using assms(1) by simp
  then have "plainName (last xs)" using assms(2) by blast
  then have "last (last xs) \<noteq> CHR ''/''"
    unfolding plainName_def by (metis last_in_set)
  ultimately show ?thesis by simp
qed

lemma normalize_abs_general:
  assumes abs: "isAbsolute p" and segs: "\<forall>x \<in> set (segments p). plainName x"
    and last: "segments p \<noteq> [] \<longrightarrow> last p \<noteq> CHR ''/''"
  shows "path_normalize p = absPath (segments p)"
proof -
  from abs have ne: "p \<noteq> []" by (auto simp: isAbsolute_def)
  have ns: "normalizeString p False = joinSep (segments p)"
    using segs by (rule normalizeString_plain)
  have nil: "joinSep (segments p) = [] \<longleftrightarrow> segments p = []"
    using segs by (intro joinSep_Nil_iff plain_nonempty)
  show ?thesis
    using ne abs last by (auto simp: path_normalize_def Let_def ns nil absPath_def)
qed

lemma path_normalize_absPath:
  assumes "\<forall>x \<in> set xs. plainName x"
  shows "path_normalize (absPath xs) = absPath xs"
proof -
  have s: "segments (absPath xs) = xs" using assms by (rule segments_absPath)
  have "path_normalize (absPath xs) = absPath (segments (absPath xs))"
    using assms s last_absPath [of xs] by (intro normalize_abs_general) auto
  with s show ?thesis by simp
qed

lemma path_join_abs_rel:
  assumes a: "\<forall>x \<in> set a. plainName x" and b: "\<forall>x \<in> set b. plainName x"
  shows "path_join [absPath a, joinSep b] = absPath (a @ b)"
proof (cases "b = []")
  case True
  then show ?thesis using a by (simp add: path_join_def path_normalize_absPath)
next
  case False
  have bne: "joinSep b \<noteq> []"
    using False b by (simp add: joinSep_Nil_iff plain_nonempty)
  let ?p = "absPath a @ CHR ''/'' # joinSep b"
  have segs: "segments ?p = a @ b"
    using a b by (simp add: segments_append segments_absPath segments_joinSep)
  have lastb: "last (joinSep b) \<noteq> CHR ''/''"
    using last_absPath [OF False b] bne by (simp add: absPath_def)
  have "path_normalize ?p = absPath (segments ?p)"
    using a b lastb bne by (intro normalize_abs_general) (auto simp: segs)
  then show ?thesis using bne by (simp add: path_join_def segs)
qed

lemma joinSep_single [simp]: "joinSep [s] = s"
  by simp

lemma path_join_abs_name:
  assumes "\<forall>x \<in> set a. plainName x" "plainName s"
  shows "path_join [absPath a, s] = absPath (a @ [s])"
  using path_join_abs_rel [of a "[s]"] assms by simp

lemma path_resolve_abs:
  assumes "\<forall>x \<in> set a. plainName x"
  shows "path_resolve c [absPath a] = absPath a"
proof -
  have sg: "segments (absPath a @ ''/'') = a"
    using assms by (simp add: segments_append segments_absPath) (simp add: segments_def)
  have "normalizeString (absPath a @ ''/'') False = joinSep (segments (absPath a @ ''/''))"
    by (rule normalizeString_plain) (use assms in \<open>auto simp: sg\<close>)
  then have "normalizeString (absPath a @ ''/'') False = joinSep a"
    by (simp only: sg)
  then show ?thesis by (simp add: path_resolve_def absPath_def)
qed

lemma path_resolve_abs_rel:
  assumes a: "\<forall>x \<in> set a. plainName x" and b: "\<forall>x \<in> set b. plainName x"
  shows "path_resolve c [absPath a, joinSep b] = absPath (a @ b)"
proof (cases "b = []")
  case True
  then show ?thesis using path_resolve_abs [OF a, of c] by (simp add: path_resolve_def)
next
  case False
  have bne: "joinSep b \<noteq> []"
    using False b by (simp add: joinSep_Nil_iff plain_nonempty)
  have nab: "\<not> isAbsolute (joinSep b)"
  proof -
    from False obtain x xs where b': "b = x # xs" by (cases b) auto
    with b have px: "plainName x" by simp
    then obtain ch rest where x: "x = ch # rest" and ch: "ch \<noteq> CHR ''/''"
      by (cases x) (auto simp: plainName_def)
    show ?thesis
      unfolding b' x using ch by (cases xs) (simp_all add: isAbsolute_def)
  qed
  have sg: "segments (absPath a @ CHR ''/'' # joinSep b @ ''/'') = a @ b"
  proof -
    have "segments (absPath a @ CHR ''/'' # (joinSep b @ ''/'')) = segments (absPath a) @ segments (joinSep b @ ''/'')"
      by (rule segments_append)
    moreover have "segments (joinSep b @ ''/'') = segments (joinSep b) @ segments []"
      using segments_append [of "joinSep b" "[]"] by simp
    ultimately show ?thesis
      using a b by (simp add: segments_absPath segments_joinSep) (simp add: segments_def)
  qed
  have "normalizeString (absPath a @ CHR ''/'' # joinSep b @ ''/'') False
          = joinSep (segments (absPath a @ CHR ''/'' # joinSep b @ ''/''))"
    by (rule normalizeString_plain) (use a b in \<open>auto simp: sg\<close>)
  then have "normalizeString (absPath a @ CHR ''/'' # joinSep b @ ''/'') False = joinSep (a @ b)"
    by (simp only: sg)
  then show ?thesis using bne nab by (simp add: path_resolve_def absPath_def)
qed

lemma path_resolve_abs_abs:
  assumes b: "\<forall>x \<in> set b. plainName x"
  shows "path_resolve c [a, absPath b] = absPath b"
  using path_resolve_abs [OF b, of c] by (simp add: path_resolve_def)

lemma lcp_same [simp]: "longest_common_prefix xs xs = xs"
  by (induction xs) auto

lemma path_relative_abs:
  assumes a: "\<forall>x \<in> set a. plainName x" and b: "\<forall>x \<in> set b. plainName x"
  shows "path_relative c (absPath a) (absPath b)
           = joinSep (replicate (length a - length (longest_common_prefix a b)) ''..''
                      @ drop (length (longest_common_prefix a b)) b)"
proof (cases "absPath a = absPath b")
  case True
  with a b have "a = b" by (intro absPath_inj) auto
  then show ?thesis by (simp add: path_relative_def)
next
  case False
  then show ?thesis
    using a b by (simp add: path_relative_def path_resolve_abs segments_absPath Let_def)
qed

lemma path_dirname_absPath_snoc:
  assumes a: "\<forall>x \<in> set a. plainName x" and s: "plainName s"
  shows "path_dirname (absPath (a @ [s])) = absPath a"
proof -
  have s': "s \<noteq> []" "CHR ''/'' \<notin> set s" using s by (auto simp: plainName_def)
  have dw1: "dropWhile (\<lambda>c. c = CHR ''/'') (rev s @ r) = rev s @ r" for r
    using s' by (cases "rev s") (auto simp: hd_rev dest: last_in_set)
  have dw2: "dropWhile (\<lambda>c. c \<noteq> CHR ''/'') (rev s @ r) = dropWhile (\<lambda>c. c \<noteq> CHR ''/'') r" for r
    using s' by (simp add: dropWhile_append)
  show ?thesis
  proof (cases "a = []")
    case True
    then show ?thesis
      using s' by (simp add: path_dirname_def absPath_def dw1 dw2 Let_def)
  next
    case False
    have ne: "joinSep a \<noteq> []"
      using False a by (simp add: joinSep_Nil_iff plain_nonempty)
    have eq: "absPath (a @ [s]) = absPath a @ CHR ''/'' # s"
      using False by (simp add: absPath_snoc)
    have "rev (absPath a @ CHR ''/'' # s) = rev s @ CHR ''/'' # rev (absPath a)" by simp
    then have r: "dropWhile (\<lambda>c. c \<noteq> CHR ''/'')
             (dropWhile (\<lambda>c. c = CHR ''/'') (rev (absPath a @ CHR ''/'' # s)))
          = CHR ''/'' # rev (absPath a)"
      by (simp only: dw1 dw2) simp
    have len: "2 \<le> length (absPath a)"
      using ne by (cases "joinSep a") (auto simp: absPath_def)
    show ?thesis
      unfolding eq path_dirname_def Let_def r using len by auto
  qed
qed

lemma startsWith_joinSep_dots:
  "startsWith (joinSep (''..'' # xs)) ''..''"
  by (cases xs) (simp_all add: startsWith_def)

lemma relative_outside:
  assumes r: "\<forall>x \<in> set r. plainName x" and d: "\<forall>x \<in> set d. plainName x"
  shows "startsWith (path_relative c (absPath r) (absPath d)) ''..''
           \<longleftrightarrow> \<not> prefix r d \<or> (\<exists>x rest. d = r @ x # rest \<and> startsWith x ''..'')"
proof (cases "prefix r d")
  case True
  then obtain s where ds: "d = r @ s" by (auto simp: prefix_def)
  have lcp: "longest_common_prefix r (r @ s) = r"
    by (induction r) auto
  have rel: "path_relative c (absPath r) (absPath d) = joinSep s"
    using r d unfolding ds by (simp add: path_relative_abs lcp)
  show ?thesis
  proof (cases s)
    case Nil
    then show ?thesis using True rel ds by (simp add: startsWith_def)
  next
    case (Cons x rest)
    have "startsWith (joinSep (x # rest)) ''..'' \<longleftrightarrow> startsWith x ''..''"
    proof -
      from d ds Cons have px: "plainName x" by simp
      show ?thesis
      proof (cases rest)
        case Nil
        then show ?thesis by simp
      next
        case (Cons y ys)
        have "prefix ''..'' (x @ CHR ''/'' # z) \<longleftrightarrow> prefix ''..'' x" for z
        proof (cases x)
          case Nil
          with px show ?thesis by (simp add: plainName_def)
        next
          case c1: (Cons a x')
          show ?thesis
          proof (cases x')
            case Nil
            with c1 show ?thesis by auto
          next
            case (Cons b x'')
            with c1 show ?thesis by simp
          qed
        qed
        then show ?thesis using Cons by (simp add: startsWith_def)
      qed
    qed
    then show ?thesis using True rel ds Cons by auto
  qed
next
  case False
  let ?k = "length (longest_common_prefix r d)"
  have "?k < length r"
  proof (rule ccontr)
    assume "\<not> ?k < length r"
    moreover have p1: "prefix (longest_common_prefix r d) r"
      by (rule longest_common_prefix_prefix1)
    moreover from p1 have "length (longest_common_prefix r d) \<le> length r"
      by (rule prefix_length_le)
    ultimately have "longest_common_prefix r d = r"
      by (metis append_eq_conv_conj prefix_def take_all_iff le_antisym not_less)
    then have "prefix r d" by (metis longest_common_prefix_prefix2)
    with False show False by simp
  qed
  then obtain n where n: "length r - ?k = Suc n" by (cases "length r - ?k") auto
  have "path_relative c (absPath r) (absPath d)
          = joinSep (''..'' # (replicate n ''..'' @ drop ?k d))"
    using r d by (simp add: path_relative_abs n)
  then show ?thesis using False by (simp only: startsWith_joinSep_dots) simp
qed



section \<open>Configuration files that give no project\<close>

text \<open>
  Claim C9.  \<^verbatim>\<open>createNodesInternal\<close> returns the empty result, and leaves the cache as it
  was, whenever the configuration file lies at the workspace root (its directory name is
  \<^verbatim>\<open>.\<close>), or the listing of its directory has neither \<^verbatim>\<open>package.json\<close> nor
  \<^verbatim>\<open>project.json\<close>, or the file is not named \<^verbatim>\<open>tsconfig.json\<close> and the listing has no
  \<^verbatim>\<open>tsconfig.json\<close>, or the listing has one of the four Next.js configuration files.  No
  error is returned in any of these cases.
\<close>

theorem createNodesInternal_empty_result:
  assumes "path_dirname configFilePath = ''.''
     \<or> (\<exists>siblingFiles.
           readdirSync w (path_join [workspaceRoot, path_dirname configFilePath]) = Inr siblingFiles
           \<and> ((''package.json'' \<notin> set siblingFiles \<and> ''project.json'' \<notin> set siblingFiles)
              \<or> (path_basename configFilePath \<noteq> ''tsconfig.json''
                  \<and> ''tsconfig.json'' \<notin> set siblingFiles)
              \<or> ''next.config.js'' \<in> set siblingFiles
              \<or> ''next.config.cjs'' \<in> set siblingFiles
              \<or> ''next.config.mjs'' \<in> set siblingFiles
              \<or> ''next.config.ts'' \<in> set siblingFiles))"
  shows "createNodesInternal w configFilePath opts workspaceRoot lockFileName targetsCache
           = Some (Inr ([], targetsCache))"
  using assms unfolding createNodesInternal_def Let_def
  by (auto split: sum.splits)

text \<open>
  The four cases at concrete inputs: a root \<^verbatim>\<open>tsconfig.json\<close>, a directory without a
  descriptor, a secondary configuration without \<^verbatim>\<open>tsconfig.json\<close> beside it, and a Next.js
  application.
\<close>

theorem createNodesInternal_empty_result_witness:
  "createNodesInternal emptyWorld ''tsconfig.json'' defaultOptions ''/ws'' ''package-lock.json'' []
     = Some (Inr ([], []))
   \<and> createNodesInternal
       (emptyWorld\<lparr>readdirSync := (\<lambda>p. Inr [''tsconfig.json'', ''src''])\<rparr>)
       ''libs/a/tsconfig.json'' defaultOptions ''/ws'' ''package-lock.json'' []
     = Some (Inr ([], []))
   \<and> createNodesInternal
       (emptyWorld\<lparr>readdirSync := (\<lambda>p. Inr [''tsconfig.lib.json'', ''package.json''])\<rparr>)
       ''libs/a/tsconfig.lib.json'' defaultOptions ''/ws'' ''package-lock.json'' []
     = Some (Inr ([], []))
   \<and> createNodesInternal
       (emptyWorld\<lparr>readdirSync :=
          (\<lambda>p. Inr [''tsconfig.json'', ''package.json'', ''next.config.mjs''])\<rparr>)
       ''apps/web/tsconfig.json'' defaultOptions ''/ws'' ''package-lock.json'' []
     = Some (Inr ([], []))"
proof (intro conjI)
  show "createNodesInternal emptyWorld ''tsconfig.json'' defaultOptions ''/ws''
          ''package-lock.json'' [] = Some (Inr ([], []))"
    by (rule createNodesInternal_empty_result) (simp add: path_dirname_def isAbsolute_def)
  show "createNodesInternal
       (emptyWorld\<lparr>readdirSync := (\<lambda>p. Inr [''tsconfig.json'', ''src''])\<rparr>)
       ''libs/a/tsconfig.json'' defaultOptions ''/ws'' ''package-lock.json'' []
     = Some (Inr ([], []))"
    by (rule createNodesInternal_empty_result) simp
  show "createNodesInternal
       (emptyWorld\<lparr>readdirSync := (\<lambda>p. Inr [''tsconfig.lib.json'', ''package.json''])\<rparr>)
       ''libs/a/tsconfig.lib.json'' defaultOptions ''/ws'' ''package-lock.json'' []
     = Some (Inr ([], []))"
    by (rule createNodesInternal_empty_result) (simp add: path_basename_def)
  show "createNodesInternal
       (emptyWorld\<lparr>readdirSync :=
          (\<lambda>p. Inr [''tsconfig.json'', ''package.json'', ''next.config.mjs''])\<rparr>)
       ''apps/web/tsconfig.json'' defaultOptions ''/ws'' ''package-lock.json'' []
     = Some (Inr ([], []))"
    by (rule createNodesInternal_empty_result) simp
qed

section \<open>The build target and the validation of the package descriptor\<close>

text \<open>The typecheck half of \<^const>\<open>buildTscTargets\<close> never yields a build target.\<close>

lemma typecheckPart_no_build:
  "typecheckPart w c p opts ws cfg = Some (Inr r) \<Longrightarrow> \<not> hasBuildTarget (fst r)"
  unfolding typecheckPart_def
  by (auto simp: bindR_eq_Some_Inr hasBuildTarget_def typecheckTarget_def
        typecheckDescription_def buildDescription_def Let_def
      split: option.splits if_splits)

lemma build_only_when:
  assumes run: "buildTscTargets w configFilePath projectRoot opts workspaceRoot = Some (Inr ts)"
    and hb: "hasBuildTarget ts"
  shows "\<exists>b tsConfig. build opts = Some b \<and> path_basename configFilePath = configName b
           \<and> readCachedTsConfig w configFilePath = Inr tsConfig
           \<and> isValidPackageJsonBuildConfig w tsConfig workspaceRoot projectRoot = Inr True"
proof -
  from run obtain tsConfig where rd: "readCachedTsConfig w configFilePath = Inr tsConfig"
    unfolding buildTscTargets_def by (cases "readCachedTsConfig w configFilePath") auto
  from run rd obtain tcRes where
    tc: "typecheckPart w configFilePath projectRoot opts workspaceRoot tsConfig = Some (Inr tcRes)"
    and rest: "(case build opts of
                 None \<Rightarrow> Some (Inr (fst tcRes))
               | Some b \<Rightarrow>
                   if path_basename configFilePath = configName b then
                     (case isValidPackageJsonBuildConfig w tsConfig workspaceRoot projectRoot of
                        Inl e \<Rightarrow> Some (Inl e)
                      | Inr valid \<Rightarrow>
                          if valid then
                            bindR
                              (case snd tcRes of
                                 Some refs \<Rightarrow> Some (Inr refs)
                               | None \<Rightarrow>
                                   resolveInternalProjectReferences w tsConfig workspaceRoot
                                     projectRoot)
                              (\<lambda>internalProjectReferences.
                            bindR (getInputs w (getNamedInputs w projectRoot) configFilePath
                                     tsConfig internalProjectReferences workspaceRoot projectRoot)
                              (\<lambda>ins.
                                 Some (Inr
                                   (addBuildAndWatchDepsTargets w workspaceRoot projectRoot
                                      (obj_set (fst tcRes) (targetName b)
                                         (buildTarget w b (verboseOutput opts) projectRoot ins
                                            (getOutputs w configFilePath tsConfig
                                               internalProjectReferences workspaceRoot
                                               projectRoot)))
                                      (buildDepsName b) (watchDepsName b)))))
                          else Some (Inr (fst tcRes)))
                   else Some (Inr (fst tcRes))) = Some (Inr ts)"
    unfolding buildTscTargets_def by (simp add: bindR_eq_Some_Inr) blast
  have nb: "\<not> hasBuildTarget (fst tcRes)"
    using tc by (rule typecheckPart_no_build)
  show ?thesis
  proof (cases "build opts")
    case None
    with rest nb hb show ?thesis by simp
  next
    case (Some b)
    show ?thesis
    proof (cases "path_basename configFilePath = configName b")
      case False
      with rest Some nb hb show ?thesis by simp
    next
      case True
      show ?thesis
      proof (cases "isValidPackageJsonBuildConfig w tsConfig workspaceRoot projectRoot")
        case (Inl e)
        with rest Some True show ?thesis by simp
      next
        case (Inr valid)
        with rest Some True nb hb have valid by (cases valid) auto
        with Inr Some True rd show ?thesis by simp
      qed
    qed
  qed
qed

text \<open>The two scenarios of the specification, with the output directory \<^verbatim>\<open>dist\<close>.\<close>

lemma main_in_source_tree_invalid:
  "isValidPackageJsonBuildConfig
     (pkgWorld (JObj [(''main'', JStr ''src/index.ts'')]) (libConfig (Some ''dist'')))
     (libConfig (Some ''dist'')) ''/ws'' ''libs/mylib'' = Inr False"
  by code_simp

lemma main_in_source_tree_no_build:
  "buildTscTargets
     (pkgWorld (JObj [(''main'', JStr ''src/index.ts'')]) (libConfig (Some ''dist''))
        \<lparr>addBuildAndWatchDepsTargets := f\<rparr>)
     ''/ws/libs/mylib/tsconfig.lib.json'' ''libs/mylib'' defaultOptions ''/ws''
   = Some (Inr [])"
  by code_simp

lemma exports_in_out_dir_valid:
  "isValidPackageJsonBuildConfig
     (pkgWorld (JObj [(''exports'', JObj [(''.'', JStr ''./dist/index.js'')])])
        (libConfig (Some ''dist'')))
     (libConfig (Some ''dist'')) ''/ws'' ''libs/mylib'' = Inr True"
  by code_simp

lemma exports_in_out_dir_build:
  "buildTscTargets
     (pkgWorld (JObj [(''exports'', JObj [(''.'', JStr ''./dist/index.js'')])])
        (libConfig (Some ''dist''))
        \<lparr>addBuildAndWatchDepsTargets := f\<rparr>)
     ''/ws/libs/mylib/tsconfig.lib.json'' ''libs/mylib'' defaultOptions ''/ws''
   = Some (Inr (f ''/ws'' ''libs/mylib''
       [(''build'', exampleBuildTarget [''{workspaceRoot}/dist''])]
       (Some ''build-deps'') (Some ''watch-deps'')))"
  by code_simp

text \<open>The same two scenarios with the output directory as TypeScript resolves it.\<close>

lemma main_in_source_tree_no_build_abs:
  "isValidPackageJsonBuildConfig
     (pkgWorld (JObj [(''main'', JStr ''src/index.ts'')])
        (libConfig (Some ''/ws/libs/mylib/dist'')))
     (libConfig (Some ''/ws/libs/mylib/dist'')) ''/ws'' ''libs/mylib'' = Inr False
   \<and> buildTscTargets
     (pkgWorld (JObj [(''main'', JStr ''src/index.ts'')])
        (libConfig (Some ''/ws/libs/mylib/dist''))
        \<lparr>addBuildAndWatchDepsTargets := f\<rparr>)
     ''/ws/libs/mylib/tsconfig.lib.json'' ''libs/mylib'' defaultOptions ''/ws''
   = Some (Inr [])"
  by code_simp

lemma exports_in_out_dir_build_abs:
  "isValidPackageJsonBuildConfig
     (pkgWorld (JObj [(''exports'', JObj [(''.'', JStr ''./dist/index.js'')])])
        (libConfig (Some ''/ws/libs/mylib/dist'')))
     (libConfig (Some ''/ws/libs/mylib/dist'')) ''/ws'' ''libs/mylib'' = Inr True
   \<and> buildTscTargets
     (pkgWorld (JObj [(''exports'', JObj [(''.'', JStr ''./dist/index.js'')])])
        (libConfig (Some ''/ws/libs/mylib/dist''))
        \<lparr>addBuildAndWatchDepsTargets := f\<rparr>)
     ''/ws/libs/mylib/tsconfig.lib.json'' ''libs/mylib'' defaultOptions ''/ws''
   = Some (Inr (f ''/ws'' ''libs/mylib''
       [(''build'', exampleBuildTarget [''{projectRoot}/dist''])]
       (Some ''build-deps'') (Some ''watch-deps'')))"
  by code_simp

text \<open>
  Claim C5.  When \<^const>\<open>buildTscTargets\<close> returns targets with a build target among them,
  the build option is set, the base name of the configuration file is the configured
  name, and \<^const>\<open>isValidPackageJsonBuildConfig\<close> returned true.  With the output
  directory \<^verbatim>\<open>dist\<close> (as written, or resolved to \<^verbatim>\<open>/ws/libs/mylib/dist\<close>), the descriptor
  \<^verbatim>\<open>{"main": "src/index.ts"}\<close> fails the validation and no target is returned for
  \<^verbatim>\<open>tsconfig.lib.json\<close>, while \<^verbatim>\<open>{"exports": {".": "./dist/index.js"}}\<close> passes it and the
  build target is handed to \<^verbatim>\<open>addBuildAndWatchDepsTargets\<close>, whatever that helper is.
\<close>

theorem build_target_only_for_valid_descriptor:
  "(buildTscTargets w configFilePath projectRoot opts workspaceRoot = Some (Inr ts)
      \<and> hasBuildTarget ts
    \<longrightarrow> (\<exists>b tsConfig. build opts = Some b \<and> path_basename configFilePath = configName b
           \<and> readCachedTsConfig w configFilePath = Inr tsConfig
           \<and> isValidPackageJsonBuildConfig w tsConfig workspaceRoot projectRoot = Inr True))
   \<and> (\<forall>od \<in> {''dist'', ''/ws/libs/mylib/dist''}.
        isValidPackageJsonBuildConfig
          (pkgWorld (JObj [(''main'', JStr ''src/index.ts'')]) (libConfig (Some od)))
          (libConfig (Some od)) ''/ws'' ''libs/mylib'' = Inr False
        \<and> buildTscTargets
          (pkgWorld (JObj [(''main'', JStr ''src/index.ts'')]) (libConfig (Some od))
             \<lparr>addBuildAndWatchDepsTargets := f\<rparr>)
          ''/ws/libs/mylib/tsconfig.lib.json'' ''libs/mylib'' defaultOptions ''/ws''
          = Some (Inr [])
        \<and> isValidPackageJsonBuildConfig
          (pkgWorld (JObj [(''exports'', JObj [(''.'', JStr ''./dist/index.js'')])])
             (libConfig (Some od)))
          (libConfig (Some od)) ''/ws'' ''libs/mylib'' = Inr True
        \<and> (\<exists>outs. buildTscTargets
          (pkgWorld (JObj [(''exports'', JObj [(''.'', JStr ''./dist/index.js'')])])
             (libConfig (Some od))
             \<lparr>addBuildAndWatchDepsTargets := f\<rparr>)
          ''/ws/libs/mylib/tsconfig.lib.json'' ''libs/mylib'' defaultOptions ''/ws''
          = Some (Inr (f ''/ws'' ''libs/mylib'' [(''build'', exampleBuildTarget outs)]
               (Some ''build-deps'') (Some ''watch-deps'')))))"
  using build_only_when [of w configFilePath projectRoot opts workspaceRoot ts]
    main_in_source_tree_invalid main_in_source_tree_no_build [of f]
    exports_in_out_dir_valid exports_in_out_dir_build [of f]
    main_in_source_tree_no_build_abs [of f] exports_in_out_dir_build_abs [of f]
  by blast

text \<open>
  The first part at the second scenario, where the helper returns the targets as they
  are: the build target is there, and the three conditions hold.
\<close>

theorem build_target_only_for_valid_descriptor_witness:
  "buildTscTargets
     (pkgWorld (JObj [(''exports'', JObj [(''.'', JStr ''./dist/index.js'')])])
        (libConfig (Some ''dist'')))
     ''/ws/libs/mylib/tsconfig.lib.json'' ''libs/mylib'' defaultOptions ''/ws''
     = Some (Inr [(''build'', exampleBuildTarget [''{workspaceRoot}/dist''])])
   \<and> hasBuildTarget [(''build'', exampleBuildTarget [''{workspaceRoot}/dist''])]
   \<and> (\<exists>b tsConfig. build defaultOptions = Some b
         \<and> path_basename ''/ws/libs/mylib/tsconfig.lib.json'' = configName b
         \<and> readCachedTsConfig
             (pkgWorld (JObj [(''exports'', JObj [(''.'', JStr ''./dist/index.js'')])])
                (libConfig (Some ''dist'')))
             ''/ws/libs/mylib/tsconfig.lib.json'' = Inr tsConfig
         \<and> isValidPackageJsonBuildConfig
             (pkgWorld (JObj [(''exports'', JObj [(''.'', JStr ''./dist/index.js'')])])
                (libConfig (Some ''dist'')))
             tsConfig ''/ws'' ''libs/mylib'' = Inr True)"
proof -
  have run: "buildTscTargets
     (pkgWorld (JObj [(''exports'', JObj [(''.'', JStr ''./dist/index.js'')])])
        (libConfig (Some ''dist'')))
     ''/ws/libs/mylib/tsconfig.lib.json'' ''libs/mylib'' defaultOptions ''/ws''
     = Some (Inr [(''build'', exampleBuildTarget [''{workspaceRoot}/dist''])])"
    by code_simp
  have hb: "hasBuildTarget [(''build'', exampleBuildTarget [''{workspaceRoot}/dist''])]"
    by (simp add: hasBuildTarget_def exampleBuildTarget_def)
  from build_target_only_for_valid_descriptor [THEN conjunct1, rule_format, OF conjI, OF run hb]
  show ?thesis using run hb by blast
qed

text \<open>
  Without output file and output directory the validation reads only the extension of
  the entry point.
\<close>

lemma valid_by_extension:
  assumes nf: "\<not> truthyStr (outFile (options tsConfig))"
    and nd: "\<not> truthyStr (outDir (options tsConfig))"
    and ex: "existsSync w (path_join [workspaceRoot, projectRoot, ''package.json''])"
    and rd: "readJsonFile w (path_join [workspaceRoot, projectRoot, ''package.json''])
               = Inr (JObj kvs)"
    and shape: "(map_of kvs ''exports'' = None \<and> map_of kvs ''main'' = Some (JStr p)
           \<and> map_of kvs ''module'' = None)
         \<or> (\<exists>e. map_of kvs ''exports'' = Some (JObj e) \<and> map_of e ''.'' = Some (JStr p))"
  shows "isValidPackageJsonBuildConfig w tsConfig workspaceRoot projectRoot
           = Inr (path_extname p \<notin> set [''.ts'', ''.tsx'', ''.cts'', ''.mts''])"
proof -
  let ?isSrc = "isPathSourceFile w None workspaceRoot projectRoot"
  have src: "?isSrc q = (path_extname q \<in> set [''.ts'', ''.tsx'', ''.cts'', ''.mts''])" for q
    by (simp add: isPathSourceFile_def)
  have unfold: "isValidPackageJsonBuildConfig w tsConfig workspaceRoot projectRoot =
      (if truthy (map_of kvs ''exports'') then
         (case map_of kvs ''exports'' of
            Some (JStr s) \<Rightarrow> Inr (\<not> ?isSrc s)
          | Some (JObj kvs') \<Rightarrow>
              if ''.'' \<in> fst ` set kvs' then
                (case containsInvalidPath ?isSrc (map_of kvs' ''.'') of
                   Inl e \<Rightarrow> Inl e
                 | Inr invalid \<Rightarrow> Inr (\<not> invalid))
              else otherExportsValid ?isSrc kvs'
          | Some v \<Rightarrow>
              (case entriesOf v of
                 Inl e \<Rightarrow> Inl e
               | Inr kvs' \<Rightarrow> otherExportsValid ?isSrc kvs')
          | None \<Rightarrow> Inr True)
       else buildPathsValid ?isSrc (JObj kvs) [''main'', ''module''])"
    using nf nd ex rd
    by (simp add: isValidPackageJsonBuildConfig_def Let_def getPropOpt_def)
  from shape show ?thesis
  proof
    assume m: "map_of kvs ''exports'' = None \<and> map_of kvs ''main'' = Some (JStr p)
           \<and> map_of kvs ''module'' = None"
    then show ?thesis
      unfolding unfold
      by (cases "p = []") (simp_all add: fieldIsSource_def getProp_def src extname_empty)
  next
    assume "\<exists>e. map_of kvs ''exports'' = Some (JObj e) \<and> map_of e ''.'' = Some (JStr p)"
    then obtain e where e: "map_of kvs ''exports'' = Some (JObj e)"
      and d: "map_of e ''.'' = Some (JStr p)" by blast
    from d have "(''.'', JStr p) \<in> set e" by (rule map_of_SomeD)
    then have dot: "''.'' \<in> fst ` set e" by force
    show ?thesis
      unfolding unfold using e d dot
      by (simp add: containsInvalidPath_def src)
  qed
qed

lemma source_js_main_build:
  "buildTscTargets
     (pkgWorld (JObj [(''main'', JStr ''./src/index.js'')]) (libConfig None)
        \<lparr>addBuildAndWatchDepsTargets := f\<rparr>)
     ''/ws/libs/mylib/tsconfig.lib.json'' ''libs/mylib'' defaultOptions ''/ws''
   = Some (Inr (f ''/ws'' ''libs/mylib''
       [(''build'',
         exampleBuildTarget (inPlaceOutputs @ [''{projectRoot}/tsconfig.lib.tsbuildinfo'']))]
       (Some ''build-deps'') (Some ''watch-deps'')))"
  by code_simp

lemma source_js_exports_build:
  "buildTscTargets
     (pkgWorld (JObj [(''exports'', JObj [(''.'', JStr ''./src/index.js'')])]) (libConfig None)
        \<lparr>addBuildAndWatchDepsTargets := f\<rparr>)
     ''/ws/libs/mylib/tsconfig.lib.json'' ''libs/mylib'' defaultOptions ''/ws''
   = Some (Inr (f ''/ws'' ''libs/mylib''
       [(''build'',
         exampleBuildTarget (inPlaceOutputs @ [''{projectRoot}/tsconfig.lib.tsbuildinfo'']))]
       (Some ''build-deps'') (Some ''watch-deps'')))"
  by code_simp

text \<open>
  Claim C10.  When the configuration sets neither \<^verbatim>\<open>outFile\<close> nor \<^verbatim>\<open>outDir\<close>, the
  validation of a descriptor whose \<^verbatim>\<open>main\<close> (without \<^verbatim>\<open>exports\<close> and \<^verbatim>\<open>module\<close>) or whose
  \<^verbatim>\<open>.\<close> export is the path \<open>p\<close> passes exactly when the extension of \<open>p\<close> is none of
  \<^verbatim>\<open>.ts\<close>, \<^verbatim>\<open>.tsx\<close>, \<^verbatim>\<open>.cts\<close>, \<^verbatim>\<open>.mts\<close>: nothing else of the path is read.  For
  \<^verbatim>\<open>./src/index.js\<close>, a file of the source tree, the build target is therefore handed to
  \<^verbatim>\<open>addBuildAndWatchDepsTargets\<close>, with the in-place outputs.
\<close>

theorem source_tree_entry_valid_by_extension:
  "(\<not> truthyStr (outFile (options tsConfig)) \<and> \<not> truthyStr (outDir (options tsConfig))
    \<and> existsSync w (path_join [workspaceRoot, projectRoot, ''package.json''])
    \<and> readJsonFile w (path_join [workspaceRoot, projectRoot, ''package.json'']) = Inr (JObj kvs)
    \<and> ((map_of kvs ''exports'' = None \<and> map_of kvs ''main'' = Some (JStr p)
           \<and> map_of kvs ''module'' = None)
         \<or> (\<exists>e. map_of kvs ''exports'' = Some (JObj e) \<and> map_of e ''.'' = Some (JStr p)))
    \<longrightarrow> isValidPackageJsonBuildConfig w tsConfig workspaceRoot projectRoot
           = Inr (path_extname p \<notin> set [''.ts'', ''.tsx'', ''.cts'', ''.mts'']))
   \<and> (\<forall>packageJson \<in> {JObj [(''main'', JStr ''./src/index.js'')],
                        JObj [(''exports'', JObj [(''.'', JStr ''./src/index.js'')])]}.
        buildTscTargets
          (pkgWorld packageJson (libConfig None) \<lparr>addBuildAndWatchDepsTargets := f\<rparr>)
          ''/ws/libs/mylib/tsconfig.lib.json'' ''libs/mylib'' defaultOptions ''/ws''
        = Some (Inr (f ''/ws'' ''libs/mylib''
            [(''build'',
              exampleBuildTarget (inPlaceOutputs @ [''{projectRoot}/tsconfig.lib.tsbuildinfo'']))]
            (Some ''build-deps'') (Some ''watch-deps''))))"
  using valid_by_extension [of tsConfig w workspaceRoot projectRoot kvs p]
    source_js_main_build [of f] source_js_exports_build [of f]
  by blast

text \<open>
  The first part at the two descriptors: the validation of \<^verbatim>\<open>./src/index.js\<close> passes,
  since its extension is \<^verbatim>\<open>.js\<close>.
\<close>

theorem source_tree_entry_valid_by_extension_witness:
  "isValidPackageJsonBuildConfig
     (pkgWorld (JObj [(''main'', JStr ''./src/index.js'')]) (libConfig None))
     (libConfig None) ''/ws'' ''libs/mylib'' = Inr True
   \<and> isValidPackageJsonBuildConfig
     (pkgWorld (JObj [(''exports'', JObj [(''.'', JStr ''./src/index.js'')])]) (libConfig None))
     (libConfig None) ''/ws'' ''libs/mylib'' = Inr True
   \<and> path_extname ''./src/index.js'' = ''.js''"
proof -
  have ext: "path_extname ''./src/index.js'' = ''.js''"
    by code_simp
  have pj: "path_join [''/ws'', ''libs/mylib'', ''package.json''] = ''/ws/libs/mylib/package.json''"
    by code_simp
  have a: "isValidPackageJsonBuildConfig
     (pkgWorld (JObj [(''main'', JStr ''./src/index.js'')]) (libConfig None))
     (libConfig None) ''/ws'' ''libs/mylib''
     = Inr (path_extname ''./src/index.js'' \<notin> set [''.ts'', ''.tsx'', ''.cts'', ''.mts''])"
    using source_tree_entry_valid_by_extension
      [where tsConfig = "libConfig None"
         and w = "pkgWorld (JObj [(''main'', JStr ''./src/index.js'')]) (libConfig None)"
         and workspaceRoot = "''/ws''" and projectRoot = "''libs/mylib''"
         and kvs = "[(''main'', JStr ''./src/index.js'')]" and p = "''./src/index.js''",
       THEN conjunct1]
    by (simp add: pj pkgWorld_def emptyWorld_def libConfig_def truthyStr_def)
  have b: "isValidPackageJsonBuildConfig
     (pkgWorld (JObj [(''exports'', JObj [(''.'', JStr ''./src/index.js'')])]) (libConfig None))
     (libConfig None) ''/ws'' ''libs/mylib''
     = Inr (path_extname ''./src/index.js'' \<notin> set [''.ts'', ''.tsx'', ''.cts'', ''.mts''])"
    using source_tree_entry_valid_by_extension
      [where tsConfig = "libConfig None"
         and w = "pkgWorld (JObj [(''exports'', JObj [(''.'', JStr ''./src/index.js'')])])
                    (libConfig None)"
         and workspaceRoot = "''/ws''" and projectRoot = "''libs/mylib''"
         and kvs = "[(''exports'', JObj [(''.'', JStr ''./src/index.js'')])]"
         and p = "''./src/index.js''",
       THEN conjunct1]
    by (simp add: pj pkgWorld_def emptyWorld_def libConfig_def truthyStr_def)
  from a b ext show ?thesis by simp
qed

section \<open>References to paths that do not exist\<close>

lemma walk_Nil [simp]: "walkProjectReferences_loop w v prs [] st = Some (Inr st)"
  by (subst walkProjectReferences_loop.simps) simp

lemma walk_Cons:
  "walkProjectReferences_loop w v prs (ref # rest) st =
     (if prs ref \<noteq> None then walkProjectReferences_loop w v prs rest st
      else if \<not> existsSync w ref then walkProjectReferences_loop w v prs rest st
      else
        (case readCachedTsConfig w (refConfigPathOf ref) of
           Inl e \<Rightarrow> Some (Inl e)
         | Inr refTsConfig \<Rightarrow>
             bindR (v (refConfigPathOf ref) refTsConfig st) (\<lambda>res.
               if fst res then
                 bindR (walkProjectReferences_loop w v Map.empty (refsOf refTsConfig) (snd res))
                   (\<lambda>st'. walkProjectReferences_loop w v prs rest st')
               else walkProjectReferences_loop w v prs rest (snd res))))"
  by (subst walkProjectReferences_loop.simps) (simp add: Let_def)

lemma walk_append:
  "walkProjectReferences_loop w v prs (xs @ ys) st =
     bindR (walkProjectReferences_loop w v prs xs st)
       (\<lambda>st'. walkProjectReferences_loop w v prs ys st')"
proof (induction xs arbitrary: st)
  case Nil
  show ?case by simp
next
  case (Cons ref rest)
  have IH: "\<And>s. walkProjectReferences_loop w v prs (rest @ ys) s =
     bindR (walkProjectReferences_loop w v prs rest s)
       (\<lambda>st'. walkProjectReferences_loop w v prs ys st')"
    by (rule Cons.IH)
  show ?case
  proof (cases "prs ref \<noteq> None \<or> \<not> existsSync w ref")
    case True
    then show ?thesis by (auto simp: walk_Cons IH)
  next
    case False
    show ?thesis
    proof (cases "readCachedTsConfig w (refConfigPathOf ref)")
      case (Inl e)
      then show ?thesis using False by (simp add: walk_Cons)
    next
      case (Inr cfg)
      have "(\<lambda>res. bindR
               (if fst res then
                  bindR (walkProjectReferences_loop w v Map.empty (refsOf cfg) (snd res))
                    (\<lambda>st'. walkProjectReferences_loop w v prs rest st')
                else walkProjectReferences_loop w v prs rest (snd res))
               (\<lambda>st'. walkProjectReferences_loop w v prs ys st'))
          = (\<lambda>res. if fst res then
                  bindR (walkProjectReferences_loop w v Map.empty (refsOf cfg) (snd res))
                    (\<lambda>st'. walkProjectReferences_loop w v prs (rest @ ys) st')
                else walkProjectReferences_loop w v prs (rest @ ys) (snd res))"
        by (rule ext) (simp add: IH bindR_assoc)
      then show ?thesis using False Inr by (simp add: walk_Cons bindR_assoc)
    qed
  qed
qed

lemma walk_skip_missing:
  assumes "\<not> existsSync w ref"
  shows "walkProjectReferences_loop w v prs (before @ ref # after) st
           = walkProjectReferences_loop w v prs (before @ after) st"
proof -
  have "walkProjectReferences_loop w v prs (ref # after) s
          = walkProjectReferences_loop w v prs after s" for s
    using assms by (simp add: walk_Cons [of w v prs ref])
  then show ?thesis by (simp add: walk_append [of w v prs before])
qed

lemma hasExt_Nil [simp]:
  "hasExternalProjectReferences_loop w ws pr [] seen = Some (Inr (False, seen))"
  by (subst hasExternalProjectReferences_loop.simps) simp

lemma hasExt_Cons:
  "hasExternalProjectReferences_loop w ws pr (ref # rest) seen =
     (if ref \<in> set seen then hasExternalProjectReferences_loop w ws pr rest seen
      else if \<not> existsSync w ref then hasExternalProjectReferences_loop w ws pr rest seen
      else
        bindR (isExternalProjectReference w ref ws pr) (\<lambda>ext.
          if ext then Some (Inr (True, seen))
          else
            (case readCachedTsConfig w (refConfigPathOf ref) of
               Inl e \<Rightarrow> Some (Inl e)
             | Inr refTsConfig \<Rightarrow>
                 bindR
                   (if refsOf refTsConfig = [] then Some (Inr (False, seen))
                    else hasExternalProjectReferences_loop w ws pr (refsOf refTsConfig)
                           (set_add seen (refConfigPathOf ref)))
                   (\<lambda>res.
                      if fst res then Some (Inr (True, snd res))
                      else hasExternalProjectReferences_loop w ws pr rest (snd res)))))"
  by (subst hasExternalProjectReferences_loop.simps, unfold Let_def, simp)

lemma hasExt_append:
  "hasExternalProjectReferences_loop w ws pr (xs @ ys) seen =
     bindR (hasExternalProjectReferences_loop w ws pr xs seen)
       (\<lambda>res. if fst res then Some (Inr (True, snd res))
              else hasExternalProjectReferences_loop w ws pr ys (snd res))"
proof (induction xs arbitrary: seen)
  case Nil
  show ?case by simp
next
  case (Cons ref rest)
  let ?k = "\<lambda>res. if fst res then Some (Inr (True, snd res))
              else hasExternalProjectReferences_loop w ws pr ys (snd res)"
  have IH: "\<And>s. hasExternalProjectReferences_loop w ws pr (rest @ ys) s =
     bindR (hasExternalProjectReferences_loop w ws pr rest s) ?k"
    by (rule Cons.IH)
  show ?case
  proof (cases "ref \<in> set seen \<or> \<not> existsSync w ref")
    case True
    then show ?thesis by (auto simp: hasExt_Cons IH)
  next
    case False
    have inner: "bindR
        (case readCachedTsConfig w (refConfigPathOf ref) of
               Inl e \<Rightarrow> Some (Inl e)
             | Inr refTsConfig \<Rightarrow>
                 bindR
                   (if refsOf refTsConfig = [] then Some (Inr (False, seen))
                    else hasExternalProjectReferences_loop w ws pr (refsOf refTsConfig)
                           (set_add seen (refConfigPathOf ref)))
                   (\<lambda>res.
                      if fst res then Some (Inr (True, snd res))
                      else hasExternalProjectReferences_loop w ws pr rest (snd res))) ?k
       = (case readCachedTsConfig w (refConfigPathOf ref) of
               Inl e \<Rightarrow> Some (Inl e)
             | Inr refTsConfig \<Rightarrow>
                 bindR
                   (if refsOf refTsConfig = [] then Some (Inr (False, seen))
                    else hasExternalProjectReferences_loop w ws pr (refsOf refTsConfig)
                           (set_add seen (refConfigPathOf ref)))
                   (\<lambda>res.
                      if fst res then Some (Inr (True, snd res))
                      else hasExternalProjectReferences_loop w ws pr (rest @ ys) (snd res)))"
    proof (cases "readCachedTsConfig w (refConfigPathOf ref)")
      case (Inl e)
      then show ?thesis by simp
    next
      case (Inr cfg)
      have "(\<lambda>res. bindR (if fst res then Some (Inr (True, snd res))
                      else hasExternalProjectReferences_loop w ws pr rest (snd res)) ?k)
         = (\<lambda>res. if fst res then Some (Inr (True, snd res))
                      else hasExternalProjectReferences_loop w ws pr (rest @ ys) (snd res))"
        by (rule ext) (simp add: IH)
      then show ?thesis using Inr by (simp add: bindR_assoc)
    qed
    have "(\<lambda>ext. bindR (if ext then Some (Inr (True, seen))
          else
            (case readCachedTsConfig w (refConfigPathOf ref) of
               Inl e \<Rightarrow> Some (Inl e)
             | Inr refTsConfig \<Rightarrow>
                 bindR
                   (if refsOf refTsConfig = [] then Some (Inr (False, seen))
                    else hasExternalProjectReferences_loop w ws pr (refsOf refTsConfig)
                           (set_add seen (refConfigPathOf ref)))
                   (\<lambda>res.
                      if fst res then Some (Inr (True, snd res))
                      else hasExternalProjectReferences_loop w ws pr rest (snd res)))) ?k)
      = (\<lambda>ext. if ext then Some (Inr (True, seen))
          else
            (case readCachedTsConfig w (refConfigPathOf ref) of
               Inl e \<Rightarrow> Some (Inl e)
             | Inr refTsConfig \<Rightarrow>
                 bindR
                   (if refsOf refTsConfig = [] then Some (Inr (False, seen))
                    else hasExternalProjectReferences_loop w ws pr (refsOf refTsConfig)
                           (set_add seen (refConfigPathOf ref)))
                   (\<lambda>res.
                      if fst res then Some (Inr (True, snd res))
                      else hasExternalProjectReferences_loop w ws pr (rest @ ys) (snd res))))"
      by (rule ext) (simp add: inner)
    then show ?thesis using False by (simp add: hasExt_Cons bindR_assoc)
  qed
qed

lemma hasExt_skip_missing:
  assumes "\<not> existsSync w ref"
  shows "hasExternalProjectReferences_loop w ws pr (before @ ref # after) seen
           = hasExternalProjectReferences_loop w ws pr (before @ after) seen"
proof -
  have "hasExternalProjectReferences_loop w ws pr (ref # after) s
          = hasExternalProjectReferences_loop w ws pr after s" for s
    using assms by (simp add: hasExt_Cons [of w ws pr ref])
  then show ?thesis by (simp add: hasExt_append [of w ws pr before] cong: if_cong)
qed

text \<open>
  Claim C8.  A reference whose path does not exist leaves no trace in a traversal: the
  loop over a list of references with such a reference in it returns what the loop over
  the list without it returns, for every visitor, starting state and position of the
  reference.  So the reference is not loaded (a failing load would be an error), the
  visitor is not called for it (a visitor may record its calls in its state), nothing
  is walked below it, and the references before and after it are treated as without it.
  The same holds for the loop of \<^verbatim>\<open>hasExternalProjectReferences\<close>, and for the two
  functions themselves (for \<^verbatim>\<open>hasExternalProjectReferences\<close>, in its answer).
\<close>

theorem missing_reference_skipped:
  assumes "\<not> existsSync w ref"
  shows "walkProjectReferences_loop w visitor projectRefs (before @ ref # after) st
           = walkProjectReferences_loop w visitor projectRefs (before @ after) st
    \<and> walkProjectReferences w (tsConfig\<lparr>projectReferences := Some (before @ ref # after)\<rparr>)
             visitor projectRefs st
           = walkProjectReferences w (tsConfig\<lparr>projectReferences := Some (before @ after)\<rparr>)
               visitor projectRefs st
    \<and> hasExternalProjectReferences_loop w workspaceRoot projectRoot (before @ ref # after) seen
           = hasExternalProjectReferences_loop w workspaceRoot projectRoot (before @ after) seen
    \<and> map_option (map_sum id fst)
           (hasExternalProjectReferences w tsConfigPath
              (tsConfig\<lparr>projectReferences := Some (before @ ref # after)\<rparr>)
              workspaceRoot projectRoot seen)
           = map_option (map_sum id fst)
               (hasExternalProjectReferences w tsConfigPath
                  (tsConfig\<lparr>projectReferences := Some (before @ after)\<rparr>)
                  workspaceRoot projectRoot seen)"
proof (intro conjI)
  show 1: "walkProjectReferences_loop w visitor projectRefs (before @ ref # after) st
           = walkProjectReferences_loop w visitor projectRefs (before @ after) st"
    using assms by (rule walk_skip_missing)
  show "walkProjectReferences w (tsConfig\<lparr>projectReferences := Some (before @ ref # after)\<rparr>)
             visitor projectRefs st
           = walkProjectReferences w (tsConfig\<lparr>projectReferences := Some (before @ after)\<rparr>)
               visitor projectRefs st"
    by (simp add: walkProjectReferences_def refsOf_def 1)
  have 3: "hasExternalProjectReferences_loop w workspaceRoot projectRoot (before @ ref # after) s
           = hasExternalProjectReferences_loop w workspaceRoot projectRoot (before @ after) s"
    for s
    using assms by (rule hasExt_skip_missing)
  show "hasExternalProjectReferences_loop w workspaceRoot projectRoot (before @ ref # after) seen
           = hasExternalProjectReferences_loop w workspaceRoot projectRoot (before @ after) seen"
    by (rule 3)
  show "map_option (map_sum id fst)
           (hasExternalProjectReferences w tsConfigPath
              (tsConfig\<lparr>projectReferences := Some (before @ ref # after)\<rparr>)
              workspaceRoot projectRoot seen)
           = map_option (map_sum id fst)
               (hasExternalProjectReferences w tsConfigPath
                  (tsConfig\<lparr>projectReferences := Some (before @ after)\<rparr>)
                  workspaceRoot projectRoot seen)"
    by (simp add: hasExternalProjectReferences_def refsOf_def 3)
qed

text \<open>
  A list of three references whose second path is missing: the recording visitor is
  called for the first and the third, and the walk returns without an error.
\<close>

theorem missing_reference_skipped_witness:
  "\<not> existsSync
       (fileWorld [(''/ws/libs/a/tsconfig.lib.json'', refConfig []),
                   (''/ws/libs/a/tsconfig.spec.json'', refConfig [])] [] [])
       ''/ws/libs/a/gone''
   \<and> walkProjectReferences_loop
       (fileWorld [(''/ws/libs/a/tsconfig.lib.json'', refConfig []),
                   (''/ws/libs/a/tsconfig.spec.json'', refConfig [])] [] [])
       (traced continueVisitor) Map.empty
       ([''/ws/libs/a/tsconfig.lib.json''] @ ''/ws/libs/a/gone''
          # [''/ws/libs/a/tsconfig.spec.json''])
       ([], ())
     = Some (Inr ([''/ws/libs/a/tsconfig.lib.json'', ''/ws/libs/a/tsconfig.spec.json''], ()))"
proof -
  let ?w = "fileWorld [(''/ws/libs/a/tsconfig.lib.json'', refConfig []),
                   (''/ws/libs/a/tsconfig.spec.json'', refConfig [])] [] []"
  have gone: "\<not> existsSync ?w ''/ws/libs/a/gone''"
    by (simp add: fileWorld_def emptyWorld_def)
  have "walkProjectReferences_loop ?w (traced continueVisitor) Map.empty
          ([''/ws/libs/a/tsconfig.lib.json''] @ [''/ws/libs/a/tsconfig.spec.json'']) ([], ())
        = Some (Inr ([''/ws/libs/a/tsconfig.lib.json'', ''/ws/libs/a/tsconfig.spec.json''], ()))"
    by code_simp
  with missing_reference_skipped [OF gone, THEN conjunct1, of "traced continueVisitor"
      Map.empty "[''/ws/libs/a/tsconfig.lib.json'']" "[''/ws/libs/a/tsconfig.spec.json'']"
      "([], ())"]
    gone
  show ?thesis by simp
qed

section \<open>The reference walk on cycles and on shared references\<close>

lemma cyc_visit_lib:
  "internalVisitor cycleRefWorld ''/ws'' ''libs/a'' ''/ws/libs/a/tsconfig.lib.json'' c st
     = Some (Inr (True, obj_set st ''/ws/libs/a/tsconfig.lib.json'' c))"
proof -
  have "isExternalProjectReference cycleRefWorld ''/ws/libs/a/tsconfig.lib.json'' ''/ws'' ''libs/a''
          = Some (Inr False)" by code_simp
  then show ?thesis by (simp add: internalVisitor_def)
qed

lemma cyc_visit_main:
  "internalVisitor cycleRefWorld ''/ws'' ''libs/a'' ''/ws/libs/a/tsconfig.json'' c st
     = Some (Inr (True, obj_set st ''/ws/libs/a/tsconfig.json'' c))"
proof -
  have "isExternalProjectReference cycleRefWorld ''/ws/libs/a/tsconfig.json'' ''/ws'' ''libs/a''
          = Some (Inr False)" by code_simp
  then show ?thesis by (simp add: internalVisitor_def)
qed

lemma cyc_facts:
  "existsSync cycleRefWorld ''/ws/libs/a/tsconfig.lib.json''"
  "existsSync cycleRefWorld ''/ws/libs/a/tsconfig.json''"
  "refConfigPathOf ''/ws/libs/a/tsconfig.lib.json'' = ''/ws/libs/a/tsconfig.lib.json''"
  "refConfigPathOf ''/ws/libs/a/tsconfig.json'' = ''/ws/libs/a/tsconfig.json''"
  "readCachedTsConfig cycleRefWorld ''/ws/libs/a/tsconfig.lib.json''
     = Inr (refConfig [''/ws/libs/a/tsconfig.json''])"
  "readCachedTsConfig cycleRefWorld ''/ws/libs/a/tsconfig.json''
     = Inr (refConfig [''/ws/libs/a/tsconfig.lib.json''])"
  "refsOf (refConfig rs) = rs"
  by (code_simp, code_simp, code_simp, code_simp, code_simp, code_simp)
     (simp add: refsOf_def refConfig_def)

lemma ref_cycle_never_returns:
  assumes "walkProjectReferences_loop w v prs refs st = Some y"
  shows "\<not> (w = cycleRefWorld \<and> v = internalVisitor cycleRefWorld ''/ws'' ''libs/a''
            \<and> prs = Map.empty
            \<and> (refs = [''/ws/libs/a/tsconfig.lib.json''] \<or> refs = [''/ws/libs/a/tsconfig.json'']))"
  using assms
proof (induction rule: walkProjectReferences_loop.raw_induct [rotated 1, consumes 1])
  case (1 loop w v prs refs st y)
  show ?case
  proof
    assume cyc: "w = cycleRefWorld \<and> v = internalVisitor cycleRefWorld ''/ws'' ''libs/a''
            \<and> prs = Map.empty
            \<and> (refs = [''/ws/libs/a/tsconfig.lib.json''] \<or> refs = [''/ws/libs/a/tsconfig.json''])"
    then have w: "w = cycleRefWorld" and v: "v = internalVisitor cycleRefWorld ''/ws'' ''libs/a''"
      and prs: "prs = Map.empty" by simp_all
    from cyc consider (lib) "refs = [''/ws/libs/a/tsconfig.lib.json'']"
      | (main) "refs = [''/ws/libs/a/tsconfig.json'']" by blast
    then show False
    proof cases
      case lib
      from 1(2) have "bindR
          (loop cycleRefWorld (internalVisitor cycleRefWorld ''/ws'' ''libs/a'') Map.empty
             [''/ws/libs/a/tsconfig.json'']
             (obj_set st ''/ws/libs/a/tsconfig.lib.json'' (refConfig [''/ws/libs/a/tsconfig.json''])))
          (\<lambda>st'. loop cycleRefWorld (internalVisitor cycleRefWorld ''/ws'' ''libs/a'') Map.empty
             [] st') = Some y"
        unfolding lib w v prs by (simp add: cyc_facts cyc_visit_lib)
      then obtain z where "loop cycleRefWorld (internalVisitor cycleRefWorld ''/ws'' ''libs/a'')
             Map.empty [''/ws/libs/a/tsconfig.json'']
             (obj_set st ''/ws/libs/a/tsconfig.lib.json'' (refConfig [''/ws/libs/a/tsconfig.json'']))
             = Some z"
        by (blast dest: bindR_Some_D)
      from 1(1) [OF this] show False by simp
    next
      case main
      from 1(2) have "bindR
          (loop cycleRefWorld (internalVisitor cycleRefWorld ''/ws'' ''libs/a'') Map.empty
             [''/ws/libs/a/tsconfig.lib.json'']
             (obj_set st ''/ws/libs/a/tsconfig.json'' (refConfig [''/ws/libs/a/tsconfig.lib.json''])))
          (\<lambda>st'. loop cycleRefWorld (internalVisitor cycleRefWorld ''/ws'' ''libs/a'') Map.empty
             [] st') = Some y"
        unfolding main w v prs by (simp add: cyc_facts cyc_visit_main)
      then obtain z where "loop cycleRefWorld (internalVisitor cycleRefWorld ''/ws'' ''libs/a'')
             Map.empty [''/ws/libs/a/tsconfig.lib.json'']
             (obj_set st ''/ws/libs/a/tsconfig.json'' (refConfig [''/ws/libs/a/tsconfig.lib.json'']))
             = Some z"
        by (blast dest: bindR_Some_D)
      from 1(1) [OF this] show False by simp
    qed
  qed
qed

lemma internal_references_cycle_diverges:
  "resolveInternalProjectReferences cycleRefWorld (refConfig [''/ws/libs/a/tsconfig.lib.json''])
     ''/ws'' ''libs/a'' = None"
proof (cases "resolveInternalProjectReferences cycleRefWorld
     (refConfig [''/ws/libs/a/tsconfig.lib.json'']) ''/ws'' ''libs/a''")
  case None
  then show ?thesis .
next
  case (Some y)
  then have "walkProjectReferences_loop cycleRefWorld
      (internalVisitor cycleRefWorld ''/ws'' ''libs/a'') Map.empty
      [''/ws/libs/a/tsconfig.lib.json''] [] = Some y"
    by (simp add: resolveInternalProjectReferences_def walkProjectReferences_def cyc_facts)
  from ref_cycle_never_returns [OF this] show ?thesis by simp
qed

lemma diamond_visits_twice:
  "walkProjectReferences diamondWorld
     (refConfig [''/ws/libs/a/tsconfig.lib.json'', ''/ws/libs/a/tsconfig.spec.json''])
     (traced (internalVisitor diamondWorld ''/ws'' ''libs/a'')) Map.empty ([], [])
   = Some (Inr
       ([''/ws/libs/a/tsconfig.lib.json'', ''/ws/libs/a/tsconfig.spec.json'',
         ''/ws/libs/a/tsconfig.lib.json''],
        [(''/ws/libs/a/tsconfig.lib.json'', refConfig []),
         (''/ws/libs/a/tsconfig.spec.json'', refConfig [''/ws/libs/a/tsconfig.lib.json''])]))"
  by code_simp


text \<open>
  Claim C1 at two inputs.  On the two configuration files that reference each other,
  both inside the project, \<^verbatim>\<open>resolveInternalProjectReferences\<close> does not return: the walk
  tests \<^verbatim>\<open>projectReferences[refConfigPath]\<close> on an object that nothing writes to (the
  visitor writes to the object of its caller, and the recursive call passes none).  On
  the usual layout the visitor is called twice for \<^verbatim>\<open>tsconfig.lib.json\<close>, once as a
  reference of \<^verbatim>\<open>tsconfig.json\<close> and once as a reference of \<^verbatim>\<open>tsconfig.spec.json\<close>.
\<close>

theorem reference_walk_cycle_diverges_and_revisits:
  "resolveInternalProjectReferences cycleRefWorld (refConfig [''/ws/libs/a/tsconfig.lib.json''])
     ''/ws'' ''libs/a'' = None
   \<and> walkProjectReferences diamondWorld
       (refConfig [''/ws/libs/a/tsconfig.lib.json'', ''/ws/libs/a/tsconfig.spec.json''])
       (traced (internalVisitor diamondWorld ''/ws'' ''libs/a'')) Map.empty ([], [])
     = Some (Inr
         ([''/ws/libs/a/tsconfig.lib.json'', ''/ws/libs/a/tsconfig.spec.json'',
           ''/ws/libs/a/tsconfig.lib.json''],
          [(''/ws/libs/a/tsconfig.lib.json'', refConfig []),
           (''/ws/libs/a/tsconfig.spec.json'', refConfig [''/ws/libs/a/tsconfig.lib.json''])]))"
  using internal_references_cycle_diverges diamond_visits_twice by simp

section \<open>The chain of extended files: cycles and repetitions\<close>


lemma cyc_step_a:
  "extendsStep extendsCycleWorld ''/ws/libs/a/tsconfig.json''
     (extendsConfig ''./tsconfig.base.json'') = Some ''/ws/libs/a/tsconfig.base.json''"
  by code_simp

lemma cyc_step_b:
  "extendsStep extendsCycleWorld ''/ws/libs/a/tsconfig.base.json''
     (extendsConfig ''./tsconfig.json'') = Some ''/ws/libs/a/tsconfig.json''"
  by code_simp

lemma cyc_read_a:
  "readCachedTsConfig extendsCycleWorld ''/ws/libs/a/tsconfig.json''
     = Inr (extendsConfig ''./tsconfig.base.json'')"
  by code_simp

lemma cyc_read_b:
  "readCachedTsConfig extendsCycleWorld ''/ws/libs/a/tsconfig.base.json''
     = Inr (extendsConfig ''./tsconfig.json'')"
  by code_simp

lemma extends_cycle_never_returns:
  assumes "getExtendedConfigFiles_loop w p c files pkgs = Some y"
  shows "\<not> (w = extendsCycleWorld
            \<and> ((p = ''/ws/libs/a/tsconfig.json'' \<and> c = extendsConfig ''./tsconfig.base.json'')
               \<or> (p = ''/ws/libs/a/tsconfig.base.json'' \<and> c = extendsConfig ''./tsconfig.json'')))"
  using assms
proof (induction rule: getExtendedConfigFiles_loop.raw_induct [rotated 1, consumes 1])
  case (1 loop w p c files pkgs y)
  show ?case
  proof
    assume cyc: "w = extendsCycleWorld
            \<and> ((p = ''/ws/libs/a/tsconfig.json'' \<and> c = extendsConfig ''./tsconfig.base.json'')
               \<or> (p = ''/ws/libs/a/tsconfig.base.json'' \<and> c = extendsConfig ''./tsconfig.json''))"
    then consider
        (a) "w = extendsCycleWorld" "p = ''/ws/libs/a/tsconfig.json''"
            "c = extendsConfig ''./tsconfig.base.json''"
      | (b) "w = extendsCycleWorld" "p = ''/ws/libs/a/tsconfig.base.json''"
            "c = extendsConfig ''./tsconfig.json''"
      by blast
    then show False
    proof cases
      case a
      have st: "extendsStep w p c = Some ''/ws/libs/a/tsconfig.base.json''"
        using a cyc_step_a by simp
      with 1(2) a cyc_read_b
      have "loop extendsCycleWorld ''/ws/libs/a/tsconfig.base.json''
              (extendsConfig ''./tsconfig.json'')
              (set_add files ''/ws/libs/a/tsconfig.base.json'') pkgs = Some y"
        by (simp add: extendsStep_def split: option.splits if_splits)
      from 1(1) [OF this] show False by simp
    next
      case b
      have st: "extendsStep w p c = Some ''/ws/libs/a/tsconfig.json''"
        using b cyc_step_b by simp
      with 1(2) b cyc_read_a
      have "loop extendsCycleWorld ''/ws/libs/a/tsconfig.json''
              (extendsConfig ''./tsconfig.base.json'')
              (set_add files ''/ws/libs/a/tsconfig.json'') pkgs = Some y"
        by (simp add: extendsStep_def split: option.splits if_splits)
      from 1(1) [OF this] show False by simp
    qed
  qed
qed


text \<open>
  Claim C2.  The loop of \<^verbatim>\<open>getExtendedConfigFiles\<close> has no test for a file it has read
  before: the \<^verbatim>\<open>Set\<close> keeps a file out of the result a second time, it does not end the
  loop.  For \<^verbatim>\<open>tsconfig.json\<close> and \<^verbatim>\<open>tsconfig.base.json\<close> that extend each other
  \<^verbatim>\<open>getExtendedConfigFiles\<close> does not return.
\<close>

theorem extends_cycle_diverges:
  "getExtendedConfigFiles extendsCycleWorld ''/ws/libs/a/tsconfig.json''
     (extendsConfig ''./tsconfig.base.json'') = None"
proof (cases "getExtendedConfigFiles extendsCycleWorld ''/ws/libs/a/tsconfig.json''
     (extendsConfig ''./tsconfig.base.json'')")
  case None
  then show ?thesis .
next
  case (Some y)
  then show ?thesis
    unfolding getExtendedConfigFiles_def
    using extends_cycle_never_returns by blast
qed


text \<open>Whenever the loop returns, no file and no package is twice in its lists.\<close>

lemma extends_loop_distinct:
  assumes "getExtendedConfigFiles_loop w p c files pkgs = Some y"
  shows "distinct files \<longrightarrow> distinct pkgs
           \<longrightarrow> (\<forall>fs ps. y = Inr (fs, ps) \<longrightarrow> distinct fs \<and> distinct ps)"
  using assms
proof (induction rule: getExtendedConfigFiles_loop.raw_induct [rotated 1, consumes 1])
  case (1 loop w p c files pkgs y)
  show ?case
  proof (intro impI allI)
    fix fs ps
    assume d: "distinct files" "distinct pkgs" and y: "y = Inr (fs, ps)"
    show "distinct fs \<and> distinct ps"
    proof (cases "truthyStr (rawExtends c)")
      case False
      with 1(2) y d show ?thesis by simp
    next
      case True
      show ?thesis
      proof (cases "resolveExtendedTsConfigPath w
                (case rawExtends c of None \<Rightarrow> [] | Some e \<Rightarrow> e) (path_dirname p)")
        case None
        with 1(2) y d True show ?thesis by simp
      next
        case (Some x)
        show ?thesis
        proof (cases "truthyStr (snd x)")
          case pk: True
          with 1(2) y d True Some show ?thesis by (auto simp: set_add_distinct)
        next
          case nopk: False
          show ?thesis
          proof (cases "readCachedTsConfig w (fst x)")
            case (Inl e)
            with 1(2) y True Some nopk show ?thesis by simp
          next
            case (Inr cfg)
            with 1(2) True Some nopk
            have "loop w (fst x) cfg (set_add files (fst x)) pkgs = Some y" by simp
            from 1(1) [OF this] y d show ?thesis by (simp add: set_add_distinct)
          qed
        qed
      qed
    qed
  qed
qed

text \<open>On the chain of three files that ends, the loop returns the two extended files.\<close>

lemma extends_chain_returns:
  "getExtendedConfigFiles extendsChainWorld ''/ws/libs/a/tsconfig.lib.json''
      (extendsConfig ''./tsconfig.json'')
     = Some (Inr ([''/ws/libs/a/tsconfig.json'', ''/ws/libs/a/tsconfig.base.json''], []))"
  by code_simp


section \<open>Exclude patterns among the inputs\<close>

lemma feature_paths:
  "path_join [''/ws'', ''libs/mylib''] = ''/ws/libs/mylib''"
  "path_relative ''/ws'' ''/ws/libs/mylib'' (path_dirname ''/ws/libs/mylib/tsconfig.json'') = []"
  "path_relative ''/ws'' ''/ws/libs/mylib'' (path_dirname ''/ws/libs/mylib/tsconfig.lib.json'') = []"
  "path_join [[], ''src''] = ''src''"
  "path_join [[], ''src/feature''] = ''src/feature''"
  "stripDotSlash ''src'' = ''src''"
  "stripDotSlash ''src/feature/ignored'' = ''src/feature/ignored''"
  by code_simp+

lemma feature_cwd: "cwd (featureWorld mm) = ''/ws''" "minimatch (featureWorld mm) = mm"
  by (simp_all add: featureWorld_def fileWorld_def emptyWorld_def)

lemma feature_fold:
  "foldl (inputsStep (featureWorld mm) ''/ws/libs/mylib''
       [(''/ws/libs/mylib/tsconfig.json'',
          includeConfig [''src''] None [''/ws/libs/mylib/tsconfig.lib.json'']),
        (''/ws/libs/mylib/tsconfig.lib.json'',
          includeConfig [''src/feature''] (Some [''src/feature/ignored'']) [])])
     ([], [], [])
     [(''/ws/libs/mylib/tsconfig.json'',
          includeConfig [''src''] None [''/ws/libs/mylib/tsconfig.lib.json'']),
      (''/ws/libs/mylib/tsconfig.lib.json'',
          includeConfig [''src/feature''] (Some [''src/feature/ignored'']) [])]
   = ([''/ws/libs/mylib/tsconfig.json'', ''/ws/libs/mylib/tsconfig.lib.json''],
      [''src'', ''src/feature''],
      if mm ''src'' ''src/feature/ignored'' \<or> mm ''src/feature/ignored'' ''src'' then []
      else [''src/feature/ignored''])"
  by (simp add: inputsStep_def feature_cwd feature_paths excludeKept_def otherFilesInclude_def
        rawInclude_def rawExclude_def includeConfig_def emptyConfig_def set_add_def)

lemma feature_extends:
  "getExtendedConfigFiles (featureWorld mm) ''/ws/libs/mylib/tsconfig.json''
     (includeConfig [''src''] None [''/ws/libs/mylib/tsconfig.lib.json'']) = Some (Inr ([], []))"
  by code_simp

lemma feature_no_external:
  "hasExternalProjectReferences (featureWorld mm) ''/ws/libs/mylib/tsconfig.json''
     (includeConfig [''src''] None [''/ws/libs/mylib/tsconfig.lib.json'']) ''/ws'' ''libs/mylib'' []
   = Some (Inr (False, [''/ws/libs/mylib/tsconfig.json'']))"
  by code_simp

lemma feature_specifiers:
  "existsSync (featureWorld mm) (path_join [''/ws'', ''libs/mylib'', ''package.json''])"
  "pathToInputOrOutput (featureWorld mm) ''/ws/libs/mylib/tsconfig.json'' ''/ws'' ''libs/mylib''
     = ''{projectRoot}/tsconfig.json''"
  "pathToInputOrOutput (featureWorld mm) ''/ws/libs/mylib/tsconfig.lib.json'' ''/ws'' ''libs/mylib''
     = ''{projectRoot}/tsconfig.lib.json''"
  "pathToInputOrOutput (featureWorld mm) (joinPathFragments [''libs/mylib'', ''src''])
     ''/ws'' ''libs/mylib'' = ''{projectRoot}/src''"
  "pathToInputOrOutput (featureWorld mm) (joinPathFragments [''libs/mylib'', ''src/feature''])
     ''/ws'' ''libs/mylib'' = ''{projectRoot}/src/feature''"
  "pathToInputOrOutput (featureWorld mm)
     (joinPathFragments [''libs/mylib'', ''src/feature/ignored'']) ''/ws'' ''libs/mylib''
     = ''{projectRoot}/src/feature/ignored''"
  by code_simp+

lemma feature_inputs:
  "getInputs (featureWorld mm) names ''/ws/libs/mylib/tsconfig.json''
     (includeConfig [''src''] None [''/ws/libs/mylib/tsconfig.lib.json''])
     [(''/ws/libs/mylib/tsconfig.lib.json'',
       includeConfig [''src/feature''] (Some [''src/feature/ignored'']) [])]
     ''/ws'' ''libs/mylib''
   = Some (Inr
       ([InputString ''{projectRoot}/package.json'',
         InputString ''{projectRoot}/tsconfig.json'',
         InputString ''{projectRoot}/tsconfig.lib.json'',
         InputString ''{projectRoot}/src'',
         InputString ''{projectRoot}/src/feature'']
        @ (if mm ''src'' ''src/feature/ignored'' \<or> mm ''src/feature/ignored'' ''src'' then []
           else [InputString ''!{projectRoot}/src/feature/ignored''])
        @ [InputString (if ''production'' \<in> set names then ''^production'' else ''^default''),
           ExternalDependencies [''typescript'']]))"
  unfolding getInputs_def
  by (simp add: feature_extends feature_paths feature_fold feature_no_external
        feature_specifiers set_addAll_def del: foldl_Cons)

lemma exclude_fold_set:
  "set (foldl (\<lambda>s e. if K e then set_add s e else s) acc excl) = set acc \<union> {e \<in> set excl. K e}"
  by (induction excl arbitrary: acc) auto

lemma otherFilesInclude_set:
  "set (otherFilesInclude files p)
     = {i. \<exists>pc \<in> set files. fst pc \<noteq> p \<and> i \<in> set (rawInclude (snd pc))}"
  by (auto simp: otherFilesInclude_def)

lemma excludeKept_iff:
  "excludeKept w (otherFilesInclude files p) e
     \<longleftrightarrow> \<not> (\<exists>pc \<in> set files. fst pc \<noteq> p \<and>
             (\<exists>i \<in> set (rawInclude (snd pc)).
                minimatch w (stripDotSlash i) (stripDotSlash e)
                \<or> minimatch w (stripDotSlash e) (stripDotSlash i)))"
  unfolding excludeKept_def list_ex_iff otherFilesInclude_set by blast

lemma inputsStep_excludes:
  "set (snd (snd (inputsStep w root files acc pc)))
     = set (snd (snd acc))
       \<union> {e. \<exists>ex. rawExclude (snd pc) = Some ex \<and> e \<in> set ex
               \<and> excludeKept w (otherFilesInclude files (fst pc)) e}"
  by (cases acc) (auto simp: inputsStep_def Let_def exclude_fold_set split: option.splits)

lemma inputs_fold_excludes:
  "set (snd (snd (foldl (inputsStep w root files) acc todo)))
     = set (snd (snd acc))
       \<union> {e. \<exists>pc \<in> set todo. \<exists>ex. rawExclude (snd pc) = Some ex \<and> e \<in> set ex
               \<and> excludeKept w (otherFilesInclude files (fst pc)) e}"
proof (induction todo arbitrary: acc)
  case Nil
  show ?case by simp
next
  case (Cons pc todo)
  show ?case
    unfolding foldl_Cons Cons.IH inputsStep_excludes by auto
qed


text \<open>
  Claim C4.  After the loop of \<^verbatim>\<open>getInputs\<close> over the involved configurations,
  \<^verbatim>\<open>excludePaths\<close> holds exactly the exclude patterns for which no include pattern of a
  configuration with another path matches, in either direction.  In the scenario of the
  claim (the root configuration includes \<^verbatim>\<open>src\<close>, the referenced one includes
  \<^verbatim>\<open>src/feature\<close> and excludes \<^verbatim>\<open>src/feature/ignored\<close>), for every matcher and every set
  of named inputs, the inputs are the descriptor, the two configuration files, the two
  include paths, the negated entry \<^verbatim>\<open>!{projectRoot}/src/feature/ignored\<close> unless \<^verbatim>\<open>src\<close>
  and the excluded path match in one direction, the inputs of the dependencies, and the
  external dependencies.
\<close>

theorem exclude_kept_unless_reclaimed:
  "set (snd (snd (foldl (inputsStep w root files) (configFiles, [], []) files)))
     = {e. \<exists>pc \<in> set files. \<exists>ex. rawExclude (snd pc) = Some ex \<and> e \<in> set ex
          \<and> \<not> (\<exists>pc' \<in> set files. fst pc' \<noteq> fst pc \<and>
                 (\<exists>i \<in> set (rawInclude (snd pc')).
                    minimatch w (stripDotSlash i) (stripDotSlash e)
                    \<or> minimatch w (stripDotSlash e) (stripDotSlash i)))}
   \<and> getInputs (featureWorld mm) names ''/ws/libs/mylib/tsconfig.json''
       (includeConfig [''src''] None [''/ws/libs/mylib/tsconfig.lib.json''])
       [(''/ws/libs/mylib/tsconfig.lib.json'',
         includeConfig [''src/feature''] (Some [''src/feature/ignored'']) [])]
       ''/ws'' ''libs/mylib''
     = Some (Inr
         ([InputString ''{projectRoot}/package.json'',
           InputString ''{projectRoot}/tsconfig.json'',
           InputString ''{projectRoot}/tsconfig.lib.json'',
           InputString ''{projectRoot}/src'',
           InputString ''{projectRoot}/src/feature'']
          @ (if mm ''src'' ''src/feature/ignored'' \<or> mm ''src/feature/ignored'' ''src'' then []
             else [InputString ''!{projectRoot}/src/feature/ignored''])
          @ [InputString (if ''production'' \<in> set names then ''^production'' else ''^default''),
             ExternalDependencies [''typescript'']]))"
  unfolding inputs_fold_excludes excludeKept_iff
  using feature_inputs [of mm names] by simp


text \<open>
  Two matchers: equality, under which \<^verbatim>\<open>src\<close> does not match the excluded path, and
  ``begins with'', under which it does.
\<close>

theorem exclude_kept_unless_reclaimed_witness:
  "getInputs (featureWorld (\<lambda>p pat. p = pat)) [] ''/ws/libs/mylib/tsconfig.json''
       (includeConfig [''src''] None [''/ws/libs/mylib/tsconfig.lib.json''])
       [(''/ws/libs/mylib/tsconfig.lib.json'',
         includeConfig [''src/feature''] (Some [''src/feature/ignored'']) [])]
       ''/ws'' ''libs/mylib''
     = Some (Inr
         [InputString ''{projectRoot}/package.json'',
          InputString ''{projectRoot}/tsconfig.json'',
          InputString ''{projectRoot}/tsconfig.lib.json'',
          InputString ''{projectRoot}/src'',
          InputString ''{projectRoot}/src/feature'',
          InputString ''!{projectRoot}/src/feature/ignored'',
          InputString ''^default'',
          ExternalDependencies [''typescript'']])
   \<and> getInputs (featureWorld (\<lambda>p pat. startsWith p pat)) [] ''/ws/libs/mylib/tsconfig.json''
       (includeConfig [''src''] None [''/ws/libs/mylib/tsconfig.lib.json''])
       [(''/ws/libs/mylib/tsconfig.lib.json'',
         includeConfig [''src/feature''] (Some [''src/feature/ignored'']) [])]
       ''/ws'' ''libs/mylib''
     = Some (Inr
         [InputString ''{projectRoot}/package.json'',
          InputString ''{projectRoot}/tsconfig.json'',
          InputString ''{projectRoot}/tsconfig.lib.json'',
          InputString ''{projectRoot}/src'',
          InputString ''{projectRoot}/src/feature'',
          InputString ''^default'',
          ExternalDependencies [''typescript'']])"
  using exclude_kept_unless_reclaimed [THEN conjunct2, of "\<lambda>p pat. p = pat" "[]"]
    exclude_kept_unless_reclaimed [THEN conjunct2, of "\<lambda>p pat. startsWith p pat" "[]"]
  by (simp add: startsWith_def)

section \<open>Internal and external references\<close>


lemma plain_descriptors [simp]: "plainName ''package.json''" "plainName ''project.json''"
  by (simp_all add: plainName_def)

lemma walk_up_loop:
  assumes r: "\<forall>x \<in> set r. plainName x" and s: "\<forall>x \<in> set s. plainName x"
  shows "isExternalProjectReference_loop w (absPath r) (absPath (r @ s))
           = Some (\<exists>t. t \<noteq> [] \<and> prefix t s \<and> hasDescriptor w (r @ t))"
  using s
proof (induction s rule: rev_induct)
  case Nil
  show ?case
    by (subst isExternalProjectReference_loop.simps) simp
next
  case (snoc x s)
  then have s: "\<forall>x \<in> set s. plainName x" and x: "plainName x" by simp_all
  have rs: "\<forall>y \<in> set (r @ s @ [x]). plainName y" using r s x by auto
  have ne: "absPath (r @ s @ [x]) \<noteq> absPath r"
    using absPath_inj [OF rs r] by auto
  have j1: "path_join [absPath (r @ s @ [x]), ''package.json'']
              = absPath ((r @ s @ [x]) @ [''package.json''])"
    using rs by (intro path_join_abs_name) auto
  have j2: "path_join [absPath (r @ s @ [x]), ''project.json'']
              = absPath ((r @ s @ [x]) @ [''project.json''])"
    using rs by (intro path_join_abs_name) auto
  have dn: "path_dirname (absPath (r @ s @ [x])) = absPath (r @ s)"
    using path_dirname_absPath_snoc [of "r @ s" x] r s x by auto
  have pre: "prefix t (s @ [x]) \<longleftrightarrow> t = s @ [x] \<or> prefix t s" for t
    by (metis prefix_snoc)
  show ?case
  proof (cases "hasDescriptor w (r @ s @ [x])")
    case True
    then have "isExternalProjectReference_loop w (absPath r) (absPath (r @ s @ [x])) = Some True"
      using ne by (subst isExternalProjectReference_loop.simps)
        (simp add: j1 j2 hasDescriptor_def)
    moreover have "\<exists>t. t \<noteq> [] \<and> prefix t (s @ [x]) \<and> hasDescriptor w (r @ t)"
      using True by (intro exI [of _ "s @ [x]"]) simp
    ultimately show ?thesis by simp
  next
    case False
    then have "isExternalProjectReference_loop w (absPath r) (absPath (r @ s @ [x]))
        = isExternalProjectReference_loop w (absPath r) (absPath (r @ s))"
      using ne by (subst isExternalProjectReference_loop.simps)
        (simp add: j1 j2 hasDescriptor_def dn)
    also have "\<dots> = Some (\<exists>t. t \<noteq> [] \<and> prefix t s \<and> hasDescriptor w (r @ t))"
      using s by (rule snoc.IH)
    also have "(\<exists>t. t \<noteq> [] \<and> prefix t s \<and> hasDescriptor w (r @ t))
        \<longleftrightarrow> (\<exists>t. t \<noteq> [] \<and> prefix t (s @ [x]) \<and> hasDescriptor w (r @ t))"
      using False unfolding pre by auto
    finally show ?thesis by simp
  qed
qed

lemma dirname_absPath_butlast:
  assumes "\<forall>x \<in> set c. plainName x"
  shows "path_dirname (absPath c) = absPath (butlast c)"
proof (cases c rule: rev_cases)
  case Nil
  then show ?thesis by (simp add: absPath_def path_dirname_def)
next
  case (snoc a s)
  with assms show ?thesis by (simp add: path_dirname_absPath_snoc)
qed


text \<open>
  What \<^verbatim>\<open>isExternalProjectReference\<close> computes.  Let the workspace root, the project root
  and the referenced path be normalised (the renderings of the plain names \<open>ws\<close>, \<open>pr\<close>
  and \<open>c\<close>), let the referenced path exist, and let \<open>d\<close> be its directory: \<open>c\<close> without its
  last name if it is a file, \<open>c\<close> itself otherwise.  Then the function returns, and it
  answers External exactly when the path of \<open>d\<close> relative to the project root starts with
  the characters \<^verbatim>\<open>..\<close>, or a directory from \<open>d\<close> up to, but not including, the project
  root holds a \<^verbatim>\<open>package.json\<close> or a \<^verbatim>\<open>project.json\<close>.  The relative path starts with
  these characters when \<open>d\<close> is not below or at the project root, and also when the first
  name below the root itself starts with them.
\<close>

theorem reference_classification:
  assumes plain: "\<forall>x \<in> set (ws @ pr @ c). plainName x"
    and ex: "existsSync w (absPath c)"
    and d: "d = (if statIsFile w (absPath c) then butlast c else c)"
  shows "isExternalProjectReference w (absPath c) (absPath ws) (joinSep pr)
           = Some (Inr (startsWith (path_relative (cwd w) (absPath (ws @ pr)) (absPath d)) ''..''
                        \<or> (\<exists>t. t \<noteq> [] \<and> prefix (ws @ pr @ t) d
                                \<and> hasDescriptor w (ws @ pr @ t))))
         \<and> (startsWith (path_relative (cwd w) (absPath (ws @ pr)) (absPath d)) ''..''
              \<longleftrightarrow> \<not> prefix (ws @ pr) d
                  \<or> (\<exists>x rest. d = ws @ pr @ x # rest \<and> startsWith x ''..''))"
proof -
  have pws: "\<forall>x \<in> set ws. plainName x" and ppr: "\<forall>x \<in> set pr. plainName x"
    and pc: "\<forall>x \<in> set c. plainName x" using plain by auto
  have pr: "\<forall>x \<in> set (ws @ pr). plainName x" using pws ppr by auto
  have pd: "\<forall>x \<in> set d. plainName x"
    using pc d by (auto dest: in_set_butlastD)
  have root: "path_join [absPath ws, joinSep pr] = absPath (ws @ pr)"
    using pws ppr by (rule path_join_abs_rel)
  have dir: "getTsConfigDirName w (absPath c) = Inr (absPath d)"
    using ex d pc by (simp add: getTsConfigDirName_def dirname_absPath_butlast
        path_normalize_absPath)
  have out: "startsWith (path_relative (cwd w) (absPath (ws @ pr)) (absPath d)) ''..''
              \<longleftrightarrow> \<not> prefix (ws @ pr) d
                  \<or> (\<exists>x rest. d = ws @ pr @ x # rest \<and> startsWith x ''..'')"
    using relative_outside [OF pr pd, of "cwd w"] by simp
  show ?thesis
  proof (cases "startsWith (path_relative (cwd w) (absPath (ws @ pr)) (absPath d)) ''..''")
    case True
    then have "isExternalProjectReference w (absPath c) (absPath ws) (joinSep pr)
            = Some (Inr (startsWith (path_relative (cwd w) (absPath (ws @ pr)) (absPath d)) ''..''
                        \<or> (\<exists>t. t \<noteq> [] \<and> prefix (ws @ pr @ t) d
                                \<and> hasDescriptor w (ws @ pr @ t))))"
      by (simp add: isExternalProjectReference_def root dir)
    then show ?thesis using out by (rule conjI)
  next
    case False
    with out have "prefix (ws @ pr) d" by blast
    then obtain s where ds: "d = (ws @ pr) @ s" by (auto simp: prefix_def)
    have ps: "\<forall>x \<in> set s. plainName x" using pd ds by auto
    have "isExternalProjectReference_loop w (absPath (ws @ pr)) (absPath ((ws @ pr) @ s))
            = Some (\<exists>t. t \<noteq> [] \<and> prefix t s \<and> hasDescriptor w ((ws @ pr) @ t))"
      using pr ps by (rule walk_up_loop)
    then have "isExternalProjectReference w (absPath c) (absPath ws) (joinSep pr)
            = Some (Inr (\<exists>t. t \<noteq> [] \<and> prefix t s \<and> hasDescriptor w ((ws @ pr) @ t)))"
      using False by (simp add: isExternalProjectReference_def root dir ds)
    moreover have "prefix (ws @ pr @ t) d \<longleftrightarrow> prefix t s" for t
      unfolding ds by simp
    ultimately have "isExternalProjectReference w (absPath c) (absPath ws) (joinSep pr)
            = Some (Inr (startsWith (path_relative (cwd w) (absPath (ws @ pr)) (absPath d)) ''..''
                        \<or> (\<exists>t. t \<noteq> [] \<and> prefix (ws @ pr @ t) d
                                \<and> hasDescriptor w (ws @ pr @ t))))"
      using False by simp
    then show ?thesis using out by (rule conjI)
  qed
qed


text \<open>
  A configuration in a nested package is external, one in a plain directory of the
  project is internal, and a path that does not exist makes \<^verbatim>\<open>statSync\<close> throw.
\<close>

theorem reference_classification_witness:
  "isExternalProjectReference nestedWorld ''/ws/libs/a/nested/tsconfig.json'' ''/ws'' ''libs/a''
     = Some (Inr True)
   \<and> isExternalProjectReference nestedWorld ''/ws/libs/a/src/tsconfig.json'' ''/ws'' ''libs/a''
     = Some (Inr False)
   \<and> isExternalProjectReference nestedWorld ''/ws/libs/b'' ''/ws'' ''libs/a''
     = Some (Inl (ENOENT ''/ws/libs/b''))"
proof -
  have nested: "isExternalProjectReference nestedWorld
      (absPath [''ws'', ''libs'', ''a'', ''nested'', ''tsconfig.json''])
      (absPath [''ws'']) (joinSep [''libs'', ''a''])
     = Some (Inr (startsWith (path_relative (cwd nestedWorld) (absPath ([''ws''] @ [''libs'', ''a'']))
                    (absPath [''ws'', ''libs'', ''a'', ''nested''])) ''..''
                  \<or> (\<exists>t. t \<noteq> [] \<and> prefix ([''ws''] @ [''libs'', ''a''] @ t)
                               [''ws'', ''libs'', ''a'', ''nested'']
                          \<and> hasDescriptor nestedWorld ([''ws''] @ [''libs'', ''a''] @ t))))"
    by (rule reference_classification [THEN conjunct1])
       (simp_all add: plainName_def absPath_def nestedWorld_def fileWorld_def emptyWorld_def)
  have "hasDescriptor nestedWorld ([''ws''] @ [''libs'', ''a''] @ [''nested''])"
    by (simp add: hasDescriptor_def absPath_def nestedWorld_def fileWorld_def emptyWorld_def)
  then have "\<exists>t. t \<noteq> [] \<and> prefix ([''ws''] @ [''libs'', ''a''] @ t)
                               [''ws'', ''libs'', ''a'', ''nested'']
                          \<and> hasDescriptor nestedWorld ([''ws''] @ [''libs'', ''a''] @ t)"
    by (intro exI [of _ "[''nested'']"]) simp
  with nested have 1: "isExternalProjectReference nestedWorld
      ''/ws/libs/a/nested/tsconfig.json'' ''/ws'' ''libs/a'' = Some (Inr True)"
    by (simp add: absPath_def)
  have 2: "isExternalProjectReference nestedWorld ''/ws/libs/a/src/tsconfig.json'' ''/ws''
      ''libs/a'' = Some (Inr False)"
    by code_simp
  have 3: "isExternalProjectReference nestedWorld ''/ws/libs/b'' ''/ws'' ''libs/a''
     = Some (Inl (ENOENT ''/ws/libs/b''))"
    by code_simp
  from 1 2 3 show ?thesis by simp
qed


text \<open>
  Claim C7.  The test for a directory outside the project root is
  \<^verbatim>\<open>relative(absoluteProjectRoot, currentPath).startsWith('..')\<close>, a test on the characters
  of the relative path, where the comment of the source says \<^verbatim>\<open>it's outside of the project
  root\<close>.  The directory \<^verbatim>\<open>/ws/libs/a/..hidden\<close> is inside the project root
  \<^verbatim>\<open>/ws/libs/a\<close>, its relative path is \<^verbatim>\<open>..hidden\<close>, and it holds no \<^verbatim>\<open>package.json\<close>
  and no \<^verbatim>\<open>project.json\<close>: its configuration file is answered External.  The file in
  the directory \<^verbatim>\<open>src\<close> beside it is answered Internal.
\<close>

theorem dotdot_directory_classified_external:
  "isExternalProjectReference hiddenWorld ''/ws/libs/a/..hidden/tsconfig.json'' ''/ws'' ''libs/a''
     = Some (Inr True)
   \<and> path_relative (cwd hiddenWorld) ''/ws/libs/a'' ''/ws/libs/a/..hidden'' = ''..hidden''
   \<and> \<not> existsSync hiddenWorld ''/ws/libs/a/..hidden/package.json''
   \<and> \<not> existsSync hiddenWorld ''/ws/libs/a/..hidden/project.json''
   \<and> isExternalProjectReference hiddenWorld ''/ws/libs/a/src/tsconfig.json'' ''/ws'' ''libs/a''
     = Some (Inr False)"
  by code_simp


section \<open>The outputs of a bundle\<close>

lemma posix_plain: "\<forall>x \<in> set xs. posixName x \<Longrightarrow> \<forall>x \<in> set xs. plainName x"
  by (simp add: posixName_def)

lemma normalizePath_id:
  assumes "CHR 0x5C \<notin> set s" "CHR '':'' \<notin> set s"
  shows "normalizePath s = s"
proof -
  have "removeWindowsDriveLetter s = s"
    using assms(2) by (auto simp: removeWindowsDriveLetter_def split: list.splits)
  moreover have "map (\<lambda>c. if c = CHR 0x5C then CHR ''/'' else c) s = s"
    using assms(1) by (induction s) auto
  ultimately show ?thesis by (simp add: normalizePath_def)
qed

lemma set_joinSep: "set (joinSep xs) \<subseteq> (\<Union>x \<in> set xs. set x) \<union> {CHR ''/''}"
  by (induction xs rule: joinSep.induct) auto

lemma normalizePath_joinSep:
  assumes "\<forall>x \<in> set xs. posixName x"
  shows "normalizePath (joinSep xs) = joinSep xs"
proof (rule normalizePath_id)
  show "CHR 0x5C \<notin> set (joinSep xs)"
    using set_joinSep [of xs] assms by (auto simp: posixName_def)
  show "CHR '':'' \<notin> set (joinSep xs)"
    using set_joinSep [of xs] assms by (auto simp: posixName_def)
qed

lemma not_absolute_joinSep:
  assumes "\<forall>x \<in> set b. plainName x"
  shows "\<not> isAbsolute (joinSep b)"
proof (cases b)
  case Nil
  then show ?thesis by (simp add: isAbsolute_def)
next
  case (Cons x xs)
  with assms have "plainName x" by simp
  then obtain ch rest where x: "x = ch # rest" and ch: "ch \<noteq> CHR ''/''"
    by (cases x) (auto simp: plainName_def)
  show ?thesis
    unfolding Cons x using ch by (cases xs) (simp_all add: isAbsolute_def)
qed

lemma path_normalize_joinSep:
  assumes b: "\<forall>x \<in> set b. plainName x" and ne: "b \<noteq> []"
  shows "path_normalize (joinSep b) = joinSep b"
proof -
  have bne: "joinSep b \<noteq> []"
    using ne b by (simp add: joinSep_Nil_iff plain_nonempty)
  have sg: "segments (joinSep b) = b" using b by (rule segments_joinSep)
  have ns: "normalizeString (joinSep b) True = joinSep (segments (joinSep b))"
    by (rule normalizeString_plain) (simp add: sg b)
  have lastb: "last (joinSep b) \<noteq> CHR ''/''"
    using last_absPath [OF ne b] bne by (simp add: absPath_def)
  show ?thesis
    using bne lastb not_absolute_joinSep [OF b]
    by (simp add: path_normalize_def Let_def ns sg)
qed

lemma path_join_rel_rel:
  assumes a: "\<forall>x \<in> set a. plainName x" and b: "\<forall>x \<in> set b. plainName x"
    and ne: "a @ b \<noteq> []"
  shows "path_join [joinSep a, joinSep b] = joinSep (a @ b)"
proof -
  have ja: "joinSep a = [] \<longleftrightarrow> a = []" using a by (simp add: joinSep_Nil_iff plain_nonempty)
  have jb: "joinSep b = [] \<longleftrightarrow> b = []" using b by (simp add: joinSep_Nil_iff plain_nonempty)
  have ab: "\<forall>x \<in> set (a @ b). plainName x" using a b by auto
  have n: "path_normalize (joinSep (a @ b)) = joinSep (a @ b)"
    using ab ne by (rule path_normalize_joinSep)
  show ?thesis
  proof (cases "a = []")
    case True
    with ne n jb show ?thesis by (simp add: path_join_def)
  next
    case False
    show ?thesis
    proof (cases "b = []")
      case True
      with False n ja show ?thesis by (simp add: path_join_def)
    next
      case bne: False
      have "joinSep [joinSep a, joinSep b] = joinSep (a @ b)"
        using False bne by (simp add: joinSep_append)
      with False bne ja jb n show ?thesis by (simp add: path_join_def)
    qed
  qed
qed

lemma joinPathFragments_rel:
  assumes a: "\<forall>x \<in> set a. posixName x" and b: "\<forall>x \<in> set b. posixName x"
    and ne: "a @ b \<noteq> []"
  shows "joinPathFragments [joinSep a, joinSep b] = joinSep (a @ b)"
proof -
  have "path_join [joinSep a, joinSep b] = joinSep (a @ b)"
    using a b ne by (intro path_join_rel_rel posix_plain)
  moreover have "normalizePath (joinSep (a @ b)) = joinSep (a @ b)"
    using a b by (intro normalizePath_joinSep) auto
  ultimately show ?thesis by (simp add: joinPathFragments_def)
qed

lemma posix_roots [simp]: "posixName ''{projectRoot}''" "posixName ''{workspaceRoot}''"
  by (simp_all add: posixName_def plainName_def)

lemma lcp_append [simp]: "longest_common_prefix r (r @ s) = r"
  by (induction r) auto

lemma path_relative_below:
  assumes "\<forall>x \<in> set r. plainName x" "\<forall>x \<in> set s. plainName x"
  shows "path_relative c (absPath r) (absPath (r @ s)) = joinSep s"
proof -
  have "\<forall>x \<in> set (r @ s). plainName x" using assms by auto
  from path_relative_abs [OF assms(1) this, of c] show ?thesis by simp
qed

lemma startsWith_joinSep_head:
  assumes "plainName x"
  shows "startsWith (joinSep (x # rest)) ''..'' \<longleftrightarrow> startsWith x ''..''"
proof (cases rest)
  case Nil
  then show ?thesis by simp
next
  case (Cons y ys)
  have "prefix ''..'' (x @ CHR ''/'' # z) \<longleftrightarrow> prefix ''..'' x" for z
  proof (cases x)
    case Nil
    with assms show ?thesis by (simp add: plainName_def)
  next
    case c1: (Cons a x')
    show ?thesis
    proof (cases x')
      case Nil
      with c1 show ?thesis by auto
    next
      case (Cons b x'')
      with c1 show ?thesis by simp
    qed
  qed
  then show ?thesis using Cons by (simp add: startsWith_def)
qed

lemma pathToInputOrOutput_resolved:
  assumes ws: "\<forall>x \<in> set ws. posixName x" and pr: "\<forall>x \<in> set pr. posixName x"
    and q: "\<forall>x \<in> set q. posixName x"
    and full: "path_resolve (cwd w) [absPath ws, path] = absPath (ws @ q)"
  shows "pathToInputOrOutput w path (absPath ws) (joinSep pr) = specifier pr q"
proof -
  have pws: "\<forall>x \<in> set ws. plainName x" and ppr: "\<forall>x \<in> set pr. plainName x"
    and pq: "\<forall>x \<in> set q. plainName x"
    using ws pr q by (auto simp: posixName_def)
  have root: "path_resolve (cwd w) [absPath ws, joinSep pr] = absPath (ws @ pr)"
    using pws ppr by (rule path_resolve_abs_rel)
  have pwq: "\<forall>x \<in> set (ws @ q). plainName x" and pwp: "\<forall>x \<in> set (ws @ pr). plainName x"
    using pws ppr pq by auto
  have relws: "path_relative (cwd w) (absPath ws) (absPath (ws @ q)) = joinSep q"
    using pws pq by (rule path_relative_below)
  have wsq: "joinPathFragments [''{workspaceRoot}'', joinSep q] = joinSep (''{workspaceRoot}'' # q)"
    using joinPathFragments_rel [of "[''{workspaceRoot}'']" q] q by simp
  let ?rel = "path_relative (cwd w) (absPath (ws @ pr)) (absPath (ws @ q))"
  have out: "startsWith ?rel ''..''
              \<longleftrightarrow> \<not> prefix (ws @ pr) (ws @ q)
                  \<or> (\<exists>x rest. ws @ q = (ws @ pr) @ x # rest \<and> startsWith x ''..'')"
    using relative_outside [OF pwp pwq, of "cwd w"] by simp
  have np: "normalizePath ?rel = ?rel"
  proof (cases "prefix pr q")
    case True
    then obtain t where t: "q = pr @ t" by (auto simp: prefix_def)
    have "?rel = joinSep t"
      using path_relative_below [of "ws @ pr" t "cwd w"] pwp pq t by simp
    moreover have "normalizePath (joinSep t) = joinSep t"
      using q t by (intro normalizePath_joinSep) auto
    ultimately show ?thesis by simp
  next
    case False
    define xs where "xs = replicate (length (ws @ pr)
            - length (longest_common_prefix (ws @ pr) (ws @ q))) ''..''
          @ drop (length (longest_common_prefix (ws @ pr) (ws @ q))) (ws @ q)"
    have rel: "?rel = joinSep xs"
      unfolding xs_def using pwp pwq by (rule path_relative_abs)
    have "set xs \<subseteq> {''..''} \<union> set (ws @ q)"
      unfolding xs_def by (auto dest: in_set_dropD)
    then have free: "\<forall>x \<in> set xs. CHR 0x5C \<notin> set x \<and> CHR '':'' \<notin> set x"
      using ws q by (auto simp: posixName_def)
    have "CHR 0x5C \<notin> set (joinSep xs)" "CHR '':'' \<notin> set (joinSep xs)"
      using set_joinSep [of xs] free by auto
    then have "normalizePath (joinSep xs) = joinSep xs" by (rule normalizePath_id)
    with rel show ?thesis by simp
  qed
  show ?thesis
  proof (cases "startsWith ?rel ''..''")
    case True
    have "specifier pr q = joinSep (''{workspaceRoot}'' # q)"
    proof (cases "prefix pr q")
      case False
      then show ?thesis by (simp add: specifier_def)
    next
      case pre: True
      then obtain t where t: "q = pr @ t" by (auto simp: prefix_def)
      from True out t obtain x rest where "t = x # rest" "startsWith x ''..''"
        by auto
      then show ?thesis using t by (simp add: specifier_def)
    qed
    with True show ?thesis
      by (simp add: pathToInputOrOutput_def Let_def root full np relws wsq)
  next
    case False
    with out have pre: "prefix (ws @ pr) (ws @ q)"
      and nd: "\<not> (\<exists>x rest. ws @ q = (ws @ pr) @ x # rest \<and> startsWith x ''..'')" by auto
    from pre obtain t where t: "q = pr @ t" by (auto simp: prefix_def)
    have relt: "?rel = joinSep t"
      using path_relative_below [of "ws @ pr" t "cwd w"] pwp pq t by simp
    have pt: "\<forall>x \<in> set t. posixName x" using q t by auto
    have prj: "joinPathFragments [''{projectRoot}'', joinSep t] = joinSep (''{projectRoot}'' # t)"
      using joinPathFragments_rel [of "[''{projectRoot}'']" t] pt by simp
    have "specifier pr q = joinSep (''{projectRoot}'' # t)"
      using nd t by (auto simp: specifier_def split: list.splits)
    moreover have "normalizePath (joinSep t) = joinSep t" using np relt by simp
    moreover have "\<not> startsWith (joinSep t) ''..''" using False relt by simp
    ultimately show ?thesis
      by (simp add: pathToInputOrOutput_def Let_def root full relt prj)
  qed
qed

lemma specifier_form:
  assumes pq: "\<forall>x \<in> set q. plainName x"
  shows "\<exists>h t. specifier pr q = joinSep (h # t) \<and> (\<forall>x \<in> set (h # t). plainName x)
           \<and> (h = ''{projectRoot}'' \<and> q = pr @ t \<or> h = ''{workspaceRoot}'' \<and> t = q)"
proof -
  define P where "P = ''{projectRoot}''"
  define W where "W = ''{workspaceRoot}''"
  have pp: "plainName P" "plainName W"
    by (simp_all add: plainName_def P_def W_def)
  have goal: "\<exists>h t. specifier pr q = joinSep (h # t) \<and> (\<forall>x \<in> set (h # t). plainName x)
           \<and> (h = P \<and> q = pr @ t \<or> h = W \<and> t = q)"
  proof (cases "prefix pr q
         \<and> \<not> (case drop (length pr) q of [] \<Rightarrow> False | x # _ \<Rightarrow> startsWith x ''..'')")
    case True
    have "specifier pr q = joinSep (P # drop (length pr) q)"
      unfolding specifier_def P_def using True by (rule if_P)
    moreover have "\<forall>x \<in> set (P # drop (length pr) q). plainName x"
      using pq pp(1) by (auto dest: in_set_dropD)
    moreover from True obtain t where "q = pr @ t" by (auto simp: prefix_def)
    then have "q = pr @ drop (length pr) q" by simp
    ultimately show ?thesis by blast
  next
    case False
    have "specifier pr q = joinSep (W # q)"
      unfolding specifier_def W_def using False by (rule if_not_P)
    moreover have "\<forall>x \<in> set (W # q). plainName x"
      using pq pp(2) by auto
    ultimately show ?thesis by blast
  qed
  show ?thesis by (rule goal [unfolded P_def W_def])
qed

lemma specifier_inj:
  assumes q1: "\<forall>x \<in> set q1. plainName x" and q2: "\<forall>x \<in> set q2. plainName x"
    and eq: "specifier pr q1 = specifier pr q2"
  shows "q1 = q2"
proof -
  define P where "P = ''{projectRoot}''"
  define W where "W = ''{workspaceRoot}''"
  have ne: "P \<noteq> W" unfolding P_def W_def by simp
  from specifier_form [OF q1, of pr, folded P_def W_def]
  obtain h1 t1 where 1: "specifier pr q1 = joinSep (h1 # t1)"
    "\<forall>x \<in> set (h1 # t1). plainName x"
    "h1 = P \<and> q1 = pr @ t1 \<or> h1 = W \<and> t1 = q1" by blast
  from specifier_form [OF q2, of pr, folded P_def W_def]
  obtain h2 t2 where 2: "specifier pr q2 = joinSep (h2 # t2)"
    "\<forall>x \<in> set (h2 # t2). plainName x"
    "h2 = P \<and> q2 = pr @ t2 \<or> h2 = W \<and> t2 = q2" by blast
  have s1: "segments (joinSep (h1 # t1)) = h1 # t1" using 1(2) by (rule segments_joinSep)
  have s2: "segments (joinSep (h2 # t2)) = h2 # t2" using 2(2) by (rule segments_joinSep)
  have "joinSep (h1 # t1) = joinSep (h2 # t2)" using eq unfolding 1(1) 2(1) .
  then have "segments (joinSep (h1 # t1)) = segments (joinSep (h2 # t2))" by (rule arg_cong)
  then have "h1 # t1 = h2 # t2" unfolding s1 s2 .
  then have h: "h1 = h2" and t: "t1 = t2" by simp_all
  from 1(3) 2(3) h t ne show ?thesis by blast
qed

lemma path_basename_absPath_snoc:
  assumes s: "plainName s"
  shows "path_basename (absPath (a @ [s])) = s"
proof -
  have s': "s \<noteq> []" "CHR ''/'' \<notin> set s" using s by (auto simp: plainName_def)
  have "absPath (a @ [s]) = (if a = [] then [] else absPath a) @ CHR ''/'' # s"
    by (simp add: absPath_snoc)
  then have "rev (absPath (a @ [s])) = rev s @ CHR ''/'' # rev (if a = [] then [] else absPath a)"
    by simp
  then obtain r where r: "rev (absPath (a @ [s])) = rev s @ CHR ''/'' # r" ..
  have dw: "dropWhile (\<lambda>c. c = CHR ''/'') (rev s @ CHR ''/'' # r) = rev s @ CHR ''/'' # r"
    using s' by (cases "rev s") (auto simp: hd_rev dest: last_in_set)
  have tw: "takeWhile (\<lambda>c. c \<noteq> CHR ''/'') (rev s @ CHR ''/'' # r) = rev s"
    using s'(2) by (auto simp: takeWhile_tail)
  show ?thesis unfolding path_basename_def r dw tw by simp
qed

lemma path_basename_ext_absPath_snoc:
  assumes s: "plainName s"
  shows "path_basename_ext (absPath (a @ [s])) ''.js'' = stem s"
proof -
  have b: "path_basename (absPath (a @ [s])) = s" using s by (rule path_basename_absPath_snoc)
  have ne: "''.js'' \<noteq> absPath (a @ [s])" by (simp add: absPath_def)
  have "absPath (a @ [s]) = (if a = [] then [] else absPath a) @ CHR ''/'' # s"
    by (simp add: absPath_snoc)
  then have len: "length s < length (absPath (a @ [s]))" by simp
  show ?thesis
  proof (cases "length (absPath (a @ [s])) < 3")
    case True
    with len have "length s < 3" by simp
    then have "\<not> suffix ''.js'' s" by (auto simp: suffix_def)
    then have "stem s = s" by (simp add: stem_def)
    with True b show ?thesis by (simp add: path_basename_ext_def)
  next
    case False
    then show ?thesis using ne b
      by (auto simp: path_basename_ext_def stem_def Let_def numeral_3_eq_3)
  qed
qed

lemma name_stem: "name = stem name @ ''.js'' \<or> name = stem name"
proof (cases "suffix ''.js'' name \<and> name \<noteq> ''.js''")
  case True
  have st: "stem name = take (length name - 3) name"
    unfolding stem_def using True by (rule if_P)
  from True obtain p where "name = p @ ''.js''" by (auto simp: suffix_def)
  then show ?thesis unfolding st by simp
next
  case False
  have "stem name = name" unfolding stem_def using False by (rule if_not_P)
  then show ?thesis by simp
qed

lemma set_stem: "set (stem name) \<subseteq> set name"
  by (auto simp: stem_def dest: in_set_takeD)

lemma posixName_stem:
  assumes n: "posixName name" and l: "2 < length s"
    and s: "CHR ''/'' \<notin> set s" "CHR 0x5C \<notin> set s" "CHR '':'' \<notin> set s"
  shows "posixName (stem name @ s)"
proof -
  have ne: "t \<noteq> ''.'' \<and> t \<noteq> ''..'' \<and> t \<noteq> []" if "2 < length t" for t :: string
    using that by auto
  have "length (stem name @ s) > 2" using l by simp
  then have "stem name @ s \<noteq> ''.''" "stem name @ s \<noteq> ''..''" "stem name @ s \<noteq> []"
    using ne [of "stem name @ s"] by blast+
  moreover have "CHR ''/'' \<notin> set (stem name @ s)" "CHR 0x5C \<notin> set (stem name @ s)"
    "CHR '':'' \<notin> set (stem name @ s)"
    using n s set_stem [of name] by (auto simp: posixName_def plainName_def)
  ultimately show ?thesis by (simp add: posixName_def plainName_def)
qed

lemma name_not_derived:
  assumes "s \<noteq> []" "s \<noteq> ''.js''"
  shows "name \<noteq> stem name @ s"
proof
  assume a: "name = stem name @ s"
  from name_stem [of name] show False
  proof
    assume "name = stem name @ ''.js''"
    with a have "stem name @ ''.js'' = stem name @ s" by simp
    then have "''.js'' = s" by (simp only: same_append_eq)
    with assms(2) show False by simp
  next
    assume "name = stem name"
    with a have "stem name @ [] = stem name @ s" by simp
    then have "[] = s" by (simp only: same_append_eq)
    with assms(1) show False by simp
  qed
qed

lemma set_addAll_five:
  assumes "distinct [a, b, c, d]"
  shows "set_addAll [] [a, b, c, d, e] = set_add [a, b, c, d] e"
  using assms by (auto simp: set_addAll_def set_add_def)

lemma outFile_step:
  assumes ws: "\<forall>x \<in> set ws. posixName x" and pr: "\<forall>x \<in> set pr. posixName x"
    and out: "\<forall>x \<in> set out. posixName x" and name: "posixName name"
    and ofile: "outFile (options tsConfig) = Some (absPath (ws @ out @ [name]))"
  shows "distinct (bundleOutputs pr out name)"
    and "getOutputs w configFilePath tsConfig [] (absPath ws) (joinSep pr)
           = set_add (bundleOutputs pr out name) (buildInfoOutput w tsConfig ws pr out name)"
    and "specifier pr (out @ [stem name @ ''.tsbuildinfo'']) \<notin> set (bundleOutputs pr out name)"
proof -
  let ?f = "absPath (ws @ out @ [name])"
  have pws: "\<forall>x \<in> set ws. plainName x" and pout: "\<forall>x \<in> set out. plainName x"
    and pname: "plainName name"
    using ws out name by (auto simp: posixName_def)
  have pwo: "\<forall>x \<in> set (ws @ out). plainName x" using pws pout by auto
  have pall: "\<forall>x \<in> set (ws @ out @ [name]). plainName x" using pws pout pname by auto
  have base: "path_basename_ext ?f ''.js'' = stem name"
    using path_basename_ext_absPath_snoc [OF pname, of "ws @ out"] by simp
  have dir: "path_dirname ?f = absPath (ws @ out)"
    using path_dirname_absPath_snoc [OF pwo pname] by simp
  have rel: "path_relative (cwd w) (absPath ws) (absPath (ws @ out)) = joinSep out"
    using pws pout by (rule path_relative_below)
  have direct: "pathToInputOrOutput w ?f (absPath ws) (joinSep pr) = specifier pr (out @ [name])"
  proof (rule pathToInputOrOutput_resolved [OF ws pr])
    show "\<forall>x \<in> set (out @ [name]). posixName x" using out name by auto
    show "path_resolve (cwd w) [absPath ws, ?f] = absPath (ws @ out @ [name])"
      using pall by (rule path_resolve_abs_abs)
  qed
  have derived: "pathToInputOrOutput w (joinPathFragments [joinSep out, x]) (absPath ws) (joinSep pr)
                   = specifier pr (out @ [x])" if x: "posixName x" for x
  proof -
    have px: "\<forall>y \<in> set (out @ [x]). posixName y" using out x by auto
    have j: "joinPathFragments [joinSep out, x] = joinSep (out @ [x])"
      using joinPathFragments_rel [of out "[x]"] out x by simp
    have r: "path_resolve (cwd w) [absPath ws, joinSep (out @ [x])] = absPath (ws @ out @ [x])"
      using path_resolve_abs_rel [OF pws, of "out @ [x]" "cwd w"] px
      by (simp add: posixName_def)
    show ?thesis unfolding j using ws pr px r by (rule pathToInputOrOutput_resolved)
  qed
  have p1: "posixName (stem name @ ''.js.map'')" using name by (rule posixName_stem) simp_all
  have p2: "posixName (stem name @ ''.d.ts'')" using name by (rule posixName_stem) simp_all
  have p3: "posixName (stem name @ ''.d.ts.map'')" using name by (rule posixName_stem) simp_all
  have p4: "posixName (stem name @ ''.tsbuildinfo'')" using name by (rule posixName_stem) simp_all
  have inj: "specifier pr (out @ [x]) \<noteq> specifier pr (out @ [y])"
    if "posixName x" "posixName y" "x \<noteq> y" for x y
  proof
    assume "specifier pr (out @ [x]) = specifier pr (out @ [y])"
    moreover have "\<forall>z \<in> set (out @ [x]). plainName z" "\<forall>z \<in> set (out @ [y]). plainName z"
      using pout that by (auto simp: posixName_def)
    ultimately have "out @ [x] = out @ [y]" by (intro specifier_inj)
    with that(3) show False by simp
  qed
  have n1: "name \<noteq> stem name @ ''.js.map''" by (rule name_not_derived) simp_all
  have n2: "name \<noteq> stem name @ ''.d.ts''" by (rule name_not_derived) simp_all
  have n3: "name \<noteq> stem name @ ''.d.ts.map''" by (rule name_not_derived) simp_all
  have n4: "name \<noteq> stem name @ ''.tsbuildinfo''" by (rule name_not_derived) simp_all
  have d12: "stem name @ ''.js.map'' \<noteq> stem name @ ''.d.ts''" by simp
  have d13: "stem name @ ''.js.map'' \<noteq> stem name @ ''.d.ts.map''" by simp
  have d14: "stem name @ ''.js.map'' \<noteq> stem name @ ''.tsbuildinfo''" by simp
  have d23: "stem name @ ''.d.ts'' \<noteq> stem name @ ''.d.ts.map''" by simp
  have d24: "stem name @ ''.d.ts'' \<noteq> stem name @ ''.tsbuildinfo''" by simp
  have d34: "stem name @ ''.d.ts.map'' \<noteq> stem name @ ''.tsbuildinfo''" by simp
  show dist: "distinct (bundleOutputs pr out name)"
    unfolding bundleOutputs_def
    using inj [OF name p1 n1] inj [OF name p2 n2] inj [OF name p3 n3]
      inj [OF p1 p2 d12] inj [OF p1 p3 d13] inj [OF p2 p3 d23]
    by simp
  show "specifier pr (out @ [stem name @ ''.tsbuildinfo'']) \<notin> set (bundleOutputs pr out name)"
    unfolding bundleOutputs_def
    using inj [OF name p4 n4] inj [OF p1 p4 d14] inj [OF p2 p4 d24] inj [OF p3 p4 d34]
    by auto
  have truthy: "truthyStr (Some (absPath (ws @ out @ [name])))"
    by (simp add: truthyStr_def)
  have info: "(if truthyStr (tsBuildInfoFile (options tsConfig))
               then pathToInputOrOutput w
                      (case tsBuildInfoFile (options tsConfig) of None \<Rightarrow> [] | Some f \<Rightarrow> f)
                      (absPath ws) (joinSep pr)
               else specifier pr (out @ [stem name @ ''.tsbuildinfo'']))
              = buildInfoOutput w tsConfig ws pr out name"
    by (simp add: buildInfoOutput_def truthyStr_def split: option.splits)
  have "outputsStep w configFilePath tsConfig (absPath ws) (joinSep pr) [] tsConfig
          = set_addAll []
              [specifier pr (out @ [name]),
               specifier pr (out @ [stem name @ ''.js.map'']),
               specifier pr (out @ [stem name @ ''.d.ts'']),
               specifier pr (out @ [stem name @ ''.d.ts.map'']),
               buildInfoOutput w tsConfig ws pr out name]"
    unfolding outputsStep_def Let_def if_P [OF truthy] ofile option.case base dir rel
      direct derived [OF p1] derived [OF p2] derived [OF p3] derived [OF p4] info ..
  also have "\<dots> = set_add (bundleOutputs pr out name) (buildInfoOutput w tsConfig ws pr out name)"
    using dist unfolding bundleOutputs_def by (rule set_addAll_five)
  finally show "getOutputs w configFilePath tsConfig [] (absPath ws) (joinSep pr)
           = set_add (bundleOutputs pr out name) (buildInfoOutput w tsConfig ws pr out name)"
    by (simp add: getOutputs_def)
qed

lemma star_segment:
  assumes q: "\<forall>x \<in> set q. plainName x"
    and star: "''**'' \<in> set (segments (specifier pr q))"
  shows "''**'' \<in> set q"
proof -
  from specifier_form [OF q, of pr]
  obtain h t where spec: "specifier pr q = joinSep (h # t)"
    and plain: "\<forall>x \<in> set (h # t). plainName x"
    and form: "h = ''{projectRoot}'' \<and> q = pr @ t \<or> h = ''{workspaceRoot}'' \<and> t = q"
    by blast
  have "segments (joinSep (h # t)) = h # t" using plain by (rule segments_joinSep)
  with star spec have mem: "''**'' \<in> set (h # t)" by simp
  have "''{projectRoot}'' \<noteq> ''**''" "''{workspaceRoot}'' \<noteq> ''**''" by simp_all
  with form have "h \<noteq> ''**''" by blast
  with mem have "''**'' \<in> set t" by simp
  with form show ?thesis by auto
qed

lemma inPlace_star: "\<forall>p \<in> set inPlaceOutputs. ''**'' \<in> set (segments p)"
  by code_simp


text \<open>
  Claim C6.  Let the workspace root and \<^verbatim>\<open>outFile\<close> be normalised absolute paths and the
  project root a normalised relative path, all with names that hold no backslash and no
  colon, with \<^verbatim>\<open>outFile\<close> below the workspace root (the directory \<open>out\<close> and the name
  \<open>name\<close>), and let there be no internal reference.  Then \<^verbatim>\<open>getOutputs\<close> returns the bundle, its \<^verbatim>\<open>.js.map\<close>, its \<^verbatim>\<open>.d.ts\<close> and its
  \<^verbatim>\<open>.d.ts.map\<close>, which are four different entries, followed by the entry of the build
  information file unless that entry is one of the four: the result has five entries, or
  four when \<^verbatim>\<open>tsBuildInfoFile\<close> names one of the other four outputs.  Without
  \<^verbatim>\<open>tsBuildInfoFile\<close> the entries are five.  When no directory and no file of the bundle is
  named \<^verbatim>\<open>**\<close>, no in-place pattern is among the four, and none is in the result at all if
  \<^verbatim>\<open>tsBuildInfoFile\<close> is not set, or is such a normalised path below the workspace root
  with no name \<^verbatim>\<open>**\<close>; its entry is then the specifier of that path.
\<close>

theorem bundle_outputs:
  assumes ws: "\<forall>x \<in> set ws. posixName x" and pr: "\<forall>x \<in> set pr. posixName x"
    and out: "\<forall>x \<in> set out. posixName x" and name: "posixName name"
    and ofile: "outFile (options tsConfig) = Some (absPath (ws @ out @ [name]))"
  shows "distinct (bundleOutputs pr out name)
       \<and> getOutputs w configFilePath tsConfig [] (absPath ws) (joinSep pr)
           = set_add (bundleOutputs pr out name) (buildInfoOutput w tsConfig ws pr out name)
       \<and> length (getOutputs w configFilePath tsConfig [] (absPath ws) (joinSep pr))
           = (if buildInfoOutput w tsConfig ws pr out name \<in> set (bundleOutputs pr out name)
              then 4 else 5)
       \<and> (\<not> truthyStr (tsBuildInfoFile (options tsConfig))
            \<longrightarrow> length (getOutputs w configFilePath tsConfig [] (absPath ws) (joinSep pr)) = 5)
       \<and> (''**'' \<notin> set (out @ [name])
            \<longrightarrow> set inPlaceOutputs \<inter> set (bundleOutputs pr out name) = {})
       \<and> (''**'' \<notin> set (out @ [name])
            \<longrightarrow> \<not> truthyStr (tsBuildInfoFile (options tsConfig))
            \<longrightarrow> set inPlaceOutputs
                  \<inter> set (getOutputs w configFilePath tsConfig [] (absPath ws) (joinSep pr)) = {})
       \<and> (\<forall>t. ''**'' \<notin> set (out @ [name])
            \<longrightarrow> (\<forall>x \<in> set t. posixName x) \<longrightarrow> ''**'' \<notin> set t
            \<longrightarrow> tsBuildInfoFile (options tsConfig) = Some (absPath (ws @ t))
            \<longrightarrow> buildInfoOutput w tsConfig ws pr out name = specifier pr t
                \<and> set inPlaceOutputs
                  \<inter> set (getOutputs w configFilePath tsConfig [] (absPath ws) (joinSep pr)) = {})"
proof -
  note step = outFile_step [OF ws pr out name ofile]
  have len4: "length (bundleOutputs pr out name) = 4" by (simp add: bundleOutputs_def)
  have len: "length (getOutputs w configFilePath tsConfig [] (absPath ws) (joinSep pr))
           = (if buildInfoOutput w tsConfig ws pr out name \<in> set (bundleOutputs pr out name)
              then 4 else 5)"
    unfolding step(2) by (simp add: set_add_def len4)
  have default: "buildInfoOutput w tsConfig ws pr out name
                      = specifier pr (out @ [stem name @ ''.tsbuildinfo''])"
    if "\<not> truthyStr (tsBuildInfoFile (options tsConfig))"
    using that by (simp add: buildInfoOutput_def truthyStr_def split: option.splits)
  have five: "length (getOutputs w configFilePath tsConfig [] (absPath ws) (joinSep pr)) = 5"
    if "\<not> truthyStr (tsBuildInfoFile (options tsConfig))"
    using default [OF that] step(3) unfolding len by simp
  have pout: "\<forall>x \<in> set out. plainName x" and pname: "plainName name"
    using out name by (auto simp: posixName_def)
  have no: "''**'' \<notin> set (segments (specifier pr (out @ [x])))"
    if "''**'' \<notin> set (out @ [name])" "plainName x" "x \<noteq> ''**''" for x
  proof
    assume star: "''**'' \<in> set (segments (specifier pr (out @ [x])))"
    have "\<forall>y \<in> set (out @ [x]). plainName y" using pout that(2) by auto
    then have "''**'' \<in> set (out @ [x])" using star by (rule star_segment)
    with that(1,3) show False by simp
  qed
  have long: "plainName (stem name @ s) \<and> stem name @ s \<noteq> ''**''"
    if s: "2 < length s" "CHR ''/'' \<notin> set s" "CHR 0x5C \<notin> set s" "CHR '':'' \<notin> set s"
    for s
  proof -
    have "posixName (stem name @ s)" using name s by (rule posixName_stem)
    then have "plainName (stem name @ s)" by (simp add: posixName_def)
    moreover have "length (stem name @ s) \<noteq> length ''**''" using s(1) by simp
    then have "stem name @ s \<noteq> ''**''" by (rule contrapos_nn) (rule arg_cong)
    ultimately show ?thesis by (rule conjI)
  qed
  have l1: "plainName (stem name @ ''.js.map'') \<and> stem name @ ''.js.map'' \<noteq> ''**''"
    by (rule long) simp_all
  have l2: "plainName (stem name @ ''.d.ts'') \<and> stem name @ ''.d.ts'' \<noteq> ''**''"
    by (rule long) simp_all
  have l3: "plainName (stem name @ ''.d.ts.map'') \<and> stem name @ ''.d.ts.map'' \<noteq> ''**''"
    by (rule long) simp_all
  have l4: "plainName (stem name @ ''.tsbuildinfo'') \<and> stem name @ ''.tsbuildinfo'' \<noteq> ''**''"
    by (rule long) simp_all
  have four: "\<forall>p \<in> set (bundleOutputs pr out name). ''**'' \<notin> set (segments p)"
    if nostar: "''**'' \<notin> set (out @ [name])"
  proof -
    have n0: "name \<noteq> ''**''" using nostar by auto
    have s0: "''**'' \<notin> set (segments (specifier pr (out @ [name])))"
      using nostar pname n0 by (rule no)
    have s1: "''**'' \<notin> set (segments (specifier pr (out @ [stem name @ ''.js.map''])))"
      using nostar l1 [THEN conjunct1] l1 [THEN conjunct2] by (rule no)
    have s2: "''**'' \<notin> set (segments (specifier pr (out @ [stem name @ ''.d.ts''])))"
      using nostar l2 [THEN conjunct1] l2 [THEN conjunct2] by (rule no)
    have s3: "''**'' \<notin> set (segments (specifier pr (out @ [stem name @ ''.d.ts.map''])))"
      using nostar l3 [THEN conjunct1] l3 [THEN conjunct2] by (rule no)
    show ?thesis unfolding bundleOutputs_def using s0 s1 s2 s3 by simp
  qed
  have glob: "set inPlaceOutputs \<inter> set (bundleOutputs pr out name) = {}"
    if "''**'' \<notin> set (out @ [name])"
    using four [OF that] inPlace_star by blast
  have all: "set inPlaceOutputs
               \<inter> set (getOutputs w configFilePath tsConfig [] (absPath ws) (joinSep pr)) = {}"
    if nostar: "''**'' \<notin> set (out @ [name])"
      and info: "''**'' \<notin> set (segments (buildInfoOutput w tsConfig ws pr out name))"
  proof -
    have "\<forall>p \<in> set (getOutputs w configFilePath tsConfig [] (absPath ws) (joinSep pr)).
            ''**'' \<notin> set (segments p)"
      unfolding step(2) using four [OF nostar] info by simp
    with inPlace_star show ?thesis by blast
  qed
  have all_default: "set inPlaceOutputs
               \<inter> set (getOutputs w configFilePath tsConfig [] (absPath ws) (joinSep pr)) = {}"
    if nostar: "''**'' \<notin> set (out @ [name])"
      and unset: "\<not> truthyStr (tsBuildInfoFile (options tsConfig))"
  proof -
    have "''**'' \<notin> set (segments (specifier pr (out @ [stem name @ ''.tsbuildinfo''])))"
      using nostar l4 [THEN conjunct1] l4 [THEN conjunct2] by (rule no)
    then have "''**'' \<notin> set (segments (buildInfoOutput w tsConfig ws pr out name))"
      unfolding default [OF unset] .
    with nostar show ?thesis by (rule all)
  qed
  have explicit: "buildInfoOutput w tsConfig ws pr out name = specifier pr t
                \<and> set inPlaceOutputs
                  \<inter> set (getOutputs w configFilePath tsConfig [] (absPath ws) (joinSep pr)) = {}"
    if nostar: "''**'' \<notin> set (out @ [name])"
      and t: "\<forall>x \<in> set t. posixName x" and tstar: "''**'' \<notin> set t"
      and info: "tsBuildInfoFile (options tsConfig) = Some (absPath (ws @ t))"
    for t
  proof -
    have pt: "\<forall>x \<in> set t. plainName x" using t by (simp add: posixName_def)
    have pwt: "\<forall>x \<in> set (ws @ t). plainName x" using ws pt by (auto simp: posixName_def)
    have "path_resolve (cwd w) [absPath ws, absPath (ws @ t)] = absPath (ws @ t)"
      using pwt by (rule path_resolve_abs_abs)
    with ws pr t have "pathToInputOrOutput w (absPath (ws @ t)) (absPath ws) (joinSep pr)
                = specifier pr t"
      by (rule pathToInputOrOutput_resolved)
    then have b: "buildInfoOutput w tsConfig ws pr out name = specifier pr t"
      by (simp add: buildInfoOutput_def info)
    have "''**'' \<notin> set (segments (specifier pr t))"
      using star_segment [OF pt] tstar by blast
    then have "''**'' \<notin> set (segments (buildInfoOutput w tsConfig ws pr out name))"
      unfolding b .
    with nostar have "set inPlaceOutputs
               \<inter> set (getOutputs w configFilePath tsConfig [] (absPath ws) (joinSep pr)) = {}"
      by (rule all)
    with b show ?thesis by (rule conjI)
  qed
  show ?thesis
  proof (intro conjI impI allI)
    show "distinct (bundleOutputs pr out name)" by (rule step(1))
    show "getOutputs w configFilePath tsConfig [] (absPath ws) (joinSep pr)
           = set_add (bundleOutputs pr out name) (buildInfoOutput w tsConfig ws pr out name)"
      by (rule step(2))
    show "length (getOutputs w configFilePath tsConfig [] (absPath ws) (joinSep pr))
           = (if buildInfoOutput w tsConfig ws pr out name \<in> set (bundleOutputs pr out name)
              then 4 else 5)"
      by (rule len)
    show "length (getOutputs w configFilePath tsConfig [] (absPath ws) (joinSep pr)) = 5"
      if "\<not> truthyStr (tsBuildInfoFile (options tsConfig))"
      using that by (rule five)
    show "set inPlaceOutputs \<inter> set (bundleOutputs pr out name) = {}"
      if "''**'' \<notin> set (out @ [name])"
      using that by (rule glob)
    show "set inPlaceOutputs
               \<inter> set (getOutputs w configFilePath tsConfig [] (absPath ws) (joinSep pr)) = {}"
      if "''**'' \<notin> set (out @ [name])" "\<not> truthyStr (tsBuildInfoFile (options tsConfig))"
      using that by (rule all_default)
    show "buildInfoOutput w tsConfig ws pr out name = specifier pr t"
      if "''**'' \<notin> set (out @ [name])" "\<forall>x \<in> set t. posixName x" "''**'' \<notin> set t"
        "tsBuildInfoFile (options tsConfig) = Some (absPath (ws @ t))" for t
      using explicit [OF that] by (rule conjunct1)
    show "set inPlaceOutputs
               \<inter> set (getOutputs w configFilePath tsConfig [] (absPath ws) (joinSep pr)) = {}"
      if "''**'' \<notin> set (out @ [name])" "\<forall>x \<in> set t. posixName x" "''**'' \<notin> set t"
        "tsBuildInfoFile (options tsConfig) = Some (absPath (ws @ t))" for t
      using explicit [OF that] by (rule conjunct2)
  qed
qed

text \<open>
  With the default build information file the entries are five; with
  \<^verbatim>\<open>tsBuildInfoFile\<close> set to the declaration file of the bundle they are four.
\<close>

theorem bundle_outputs_witness:
  "getOutputs emptyWorld ''/ws/libs/mylib/tsconfig.lib.json''
     (bundleConfig ''/ws/libs/mylib/dist/bundle.js'' None) [] ''/ws'' ''libs/mylib''
   = [''{projectRoot}/dist/bundle.js'', ''{projectRoot}/dist/bundle.js.map'',
      ''{projectRoot}/dist/bundle.d.ts'', ''{projectRoot}/dist/bundle.d.ts.map'',
      ''{projectRoot}/dist/bundle.tsbuildinfo'']"
proof -
  let ?c = "bundleConfig ''/ws/libs/mylib/dist/bundle.js'' None"
  have "getOutputs emptyWorld ''/ws/libs/mylib/tsconfig.lib.json'' ?c []
          (absPath [''ws'']) (joinSep [''libs'', ''mylib''])
        = set_add (bundleOutputs [''libs'', ''mylib''] [''libs'', ''mylib'', ''dist''] ''bundle.js'')
            (buildInfoOutput emptyWorld ?c [''ws''] [''libs'', ''mylib'']
               [''libs'', ''mylib'', ''dist''] ''bundle.js'')"
    by (rule bundle_outputs [THEN conjunct2, THEN conjunct1])
       (simp_all add: posixName_def plainName_def absPath_def bundleConfig_def emptyConfig_def)
  moreover have "set_add (bundleOutputs [''libs'', ''mylib''] [''libs'', ''mylib'', ''dist''] ''bundle.js'')
            (buildInfoOutput emptyWorld ?c [''ws''] [''libs'', ''mylib'']
               [''libs'', ''mylib'', ''dist''] ''bundle.js'')
        = [''{projectRoot}/dist/bundle.js'', ''{projectRoot}/dist/bundle.js.map'',
           ''{projectRoot}/dist/bundle.d.ts'', ''{projectRoot}/dist/bundle.d.ts.map'',
           ''{projectRoot}/dist/bundle.tsbuildinfo'']"
    by code_simp
  moreover have "absPath [''ws''] = ''/ws''" "joinSep [''libs'', ''mylib''] = ''libs/mylib''"
    by (simp_all add: absPath_def)
  ultimately show ?thesis by simp
qed

theorem bundle_outputs_four_entries:
  "getOutputs emptyWorld ''/ws/libs/mylib/tsconfig.lib.json''
     (bundleConfig ''/ws/libs/mylib/dist/bundle.js'' (Some ''/ws/libs/mylib/dist/bundle.d.ts''))
     [] ''/ws'' ''libs/mylib''
   = [''{projectRoot}/dist/bundle.js'', ''{projectRoot}/dist/bundle.js.map'',
      ''{projectRoot}/dist/bundle.d.ts'', ''{projectRoot}/dist/bundle.d.ts.map'']"
  by code_simp

text \<open>
  A \<^verbatim>\<open>tsBuildInfoFile\<close> with a directory named \<^verbatim>\<open>**\<close> gives a fifth entry that is an
  in-place pattern.
\<close>

lemma bundle_outputs_glob_build_info:
  "getOutputs emptyWorld ''/ws/libs/mylib/tsconfig.lib.json''
     (bundleConfig ''/ws/libs/mylib/dist/bundle.js'' (Some ''/ws/libs/mylib/**/*.js''))
     [] ''/ws'' ''libs/mylib''
   = [''{projectRoot}/dist/bundle.js'', ''{projectRoot}/dist/bundle.js.map'',
      ''{projectRoot}/dist/bundle.d.ts'', ''{projectRoot}/dist/bundle.d.ts.map'',
      ''{projectRoot}/**/*.js'']"
  by code_simp


section \<open>The cache key and the contents of the hashed files\<close>






































end
